(* ===== verification/Asm_Prelude.thy ===== *)
theory Asm_Prelude
  imports "HOL-Library.Word"
begin

text \<open>
  Shared vocabulary of the development: the machine integers and byte buffers of
  \<^verbatim>\<open>include/asm/common.hpp\<close>, C++ exceptions as values, the exception monad the
  components are written in, \<^verbatim>\<open>std::array<std::uint8_t, 16>\<close> as a type of its own,
  and the collections of rewrite rules the component theories share.
  Lengths and offsets (\<^verbatim>\<open>std::size_t\<close>, 64 bits on the supported platforms) are natural
  numbers: every length the program computes is below \<open>2 ^ 38\<close>, so no sum of them wraps.
\<close>

unbundle bit_operations_syntax

named_theorems codec_simps \<open>sizes and shapes of encoded values\<close>
named_theorems result_simps \<open>unfolding the exception monad\<close>
named_theorems keeps_rules \<open>operations that leave a part of the state alone\<close>
named_theorems roundtrip_simps \<open>decoding what was encoded\<close>

section \<open>Machine integers and buffers\<close>

type_synonym byte = "8 word"
type_synonym u32 = "32 word"
type_synonym u64 = "64 word"
type_synonym byte_buffer = "byte list"

lemma unat_byte_less: "unat (b :: byte) < 256"
  using unsigned_less [of b] by simp

lemma unat_eq_iff: "unat a = unat b \<longleftrightarrow> a = b" for a b :: "'a::len word"
  by (rule iffI [OF unsigned_word_eqI]) simp_all

lemma ucast_ucast_u64 [simp]: "ucast (ucast i :: u64) = i" for i :: u32
  by (rule bit_word_eqI) (simp add: bit_simps)

lemma ucast_ucast_byte [simp]: "ucast (ucast b :: u64) = b" for b :: byte
  by (rule bit_word_eqI) (simp add: bit_simps)

lemma unat_u32_less: "unat (i :: u32) < 4294967296"
  using unsigned_less [of i] by simp

lemma unat_u64_less: "unat (i :: u64) < 18446744073709551616"
  using unsigned_less [of i] by simp

lemma unat_u32_less_u64 [simp]: "unat (i :: u32) < 18446744073709551616"
  using unat_u32_less [of i] by simp

text \<open>A \<^verbatim>\<open>char\<close> stored into, or read from, a \<^verbatim>\<open>std::uint8_t\<close>.\<close>

definition byte_of_char :: "char \<Rightarrow> byte" where
  "byte_of_char c = word_of_nat (of_char c)"

definition char_of_byte :: "byte \<Rightarrow> char" where
  "char_of_byte b = char_of (unat b)"

lemma char_of_byte_of_char [simp]: "char_of_byte (byte_of_char c) = c"
proof -
  have "(of_char c :: nat) < 256" by simp
  then have "unat (byte_of_char c) = of_char c"
    by (simp add: byte_of_char_def unat_of_nat take_bit_nat_eq_self)
  then show ?thesis by (simp add: char_of_byte_def)
qed

lemma byte_of_char_of_byte [simp]: "byte_of_char (char_of_byte b) = b"
proof -
  have "unat b < 256" by (rule unat_byte_less)
  then show ?thesis by (simp add: byte_of_char_def char_of_byte_def)
qed

section \<open>Exceptions as values\<close>

text \<open>
  The exceptions the program can raise: \<^verbatim>\<open>AsmError\<close> of \<^verbatim>\<open>common.hpp\<close>, the
  \<^verbatim>\<open>std::runtime_error\<close> of the initiator's argument parsing, and the two that
  \<^verbatim>\<open>std::stoul\<close> throws. The text is what \<^verbatim>\<open>what()\<close> returns.
\<close>

datatype exn = AsmError string | RuntimeError string | InvalidArgument string | OutOfRange string

primrec what :: "exn \<Rightarrow> string" where
  "what (AsmError m) = m"
| "what (RuntimeError m) = m"
| "what (InvalidArgument m) = m"
| "what (OutOfRange m) = m"

type_synonym 'a result = "exn + 'a"

definition bindE :: "'a result \<Rightarrow> ('a \<Rightarrow> 'b result) \<Rightarrow> 'b result" where
  "bindE m f = (case m of Inl e \<Rightarrow> Inl e | Inr x \<Rightarrow> f x)"

definition mapE :: "('a \<Rightarrow> 'b) \<Rightarrow> 'a result \<Rightarrow> 'b result" where
  "mapE f m = (case m of Inl e \<Rightarrow> Inl e | Inr x \<Rightarrow> Inr (f x))"

text \<open>\<open>traverseE f xs\<close> is a loop that pushes \<open>f x\<close> for each \<open>x\<close> and stops at the first throw.\<close>

primrec traverseE :: "('a \<Rightarrow> 'b result) \<Rightarrow> 'a list \<Rightarrow> 'b list result" where
  "traverseE f [] = Inr []"
| "traverseE f (x # xs) = bindE (f x) (\<lambda>y. bindE (traverseE f xs) (\<lambda>ys. Inr (y # ys)))"

lemma bindE_simps [simp, result_simps]:
  "bindE (Inl e) f = Inl e"
  "bindE (Inr x) f = f x"
  by (simp_all add: bindE_def)

lemma mapE_simps [simp, result_simps]:
  "mapE g (Inl e) = Inl e"
  "mapE g (Inr x) = Inr (g x)"
  by (simp_all add: mapE_def)

lemma bindE_eq_Inr: "bindE m f = Inr y \<longleftrightarrow> (\<exists>x. m = Inr x \<and> f x = Inr y)"
  by (cases m) simp_all

lemma bindE_eq_Inl: "bindE m f = Inl e \<longleftrightarrow> m = Inl e \<or> (\<exists>x. m = Inr x \<and> f x = Inl e)"
  by (cases m) simp_all

lemma bindE_if: "bindE (if b then m else n) f = (if b then bindE m f else bindE n f)"
  by simp

lemma mapE_eq_Inr: "mapE g m = Inr y \<longleftrightarrow> (\<exists>x. m = Inr x \<and> g x = y)"
  by (cases m) auto

lemma mapE_eq_Inl: "mapE g m = Inl e \<longleftrightarrow> m = Inl e"
  by (cases m) auto

lemma mapE_if: "mapE g (if b then x else y) = (if b then mapE g x else mapE g y)"
  by simp

lemma mapE_bindE: "mapE g (bindE m f) = bindE m (\<lambda>x. mapE g (f x))"
  by (cases m) simp_all

lemma traverseE_Inr_iff:
  "traverseE f xs = Inr ys \<longleftrightarrow> list_all2 (\<lambda>x y. f x = Inr y) xs ys"
proof (induction xs arbitrary: ys)
  case Nil
  then show ?case by auto
next
  case (Cons x xs)
  then show ?case
    by (cases ys) (auto simp: bindE_eq_Inr)
qed

lemma traverseE_map: "traverseE f (map g xs) = traverseE (f \<circ> g) xs"
  by (induction xs) simp_all

lemma traverseE_all_Inr: "(\<And>x. x \<in> set xs \<Longrightarrow> f x = Inr (g x)) \<Longrightarrow> traverseE f xs = Inr (map g xs)"
  by (induction xs) simp_all

lemma traverseE_length: "traverseE f xs = Inr ys \<Longrightarrow> length ys = length xs"
  by (auto simp: traverseE_Inr_iff dest: list_all2_lengthD)

text \<open>
  Operations on shared mutable state: they return the new state also when they throw, because
  a C++ exception does not roll back what was already written.
\<close>

type_synonym ('s, 'a) op = "'s \<Rightarrow> 'a result \<times> 's"

definition bindO :: "('s, 'a) op \<Rightarrow> ('a \<Rightarrow> ('s, 'b) op) \<Rightarrow> ('s, 'b) op" where
  "bindO m f s = (case m s of (Inl e, s') \<Rightarrow> (Inl e, s') | (Inr x, s') \<Rightarrow> f x s')"

definition liftO :: "'a result \<Rightarrow> ('s, 'a) op" where
  "liftO r s = (r, s)"

definition returnO :: "'a \<Rightarrow> ('s, 'a) op" where
  "returnO x s = (Inr x, s)"

lemma bindO_liftO [simp, result_simps]:
  "bindO (liftO (Inl e)) f s = (Inl e, s)"
  "bindO (liftO (Inr x)) f s = f x s"
  by (simp_all add: bindO_def liftO_def)

lemma liftO_apply [simp, result_simps]: "liftO r s = (r, s)"
  by (simp add: liftO_def)

lemma returnO_apply [simp, result_simps]: "returnO x s = (Inr x, s)"
  by (simp add: returnO_def)

lemma bindO_Inr: "m s = (Inr x, s') \<Longrightarrow> bindO m f s = f x s'"
  by (simp add: bindO_def)

lemma bindO_Inl: "m s = (Inl e, s') \<Longrightarrow> bindO m f s = (Inl e, s')"
  by (simp add: bindO_def)

text \<open>
  \<open>keeps f m\<close>: whether it returns or throws, \<open>m\<close> leaves the part \<open>f\<close> of the state alone. One rule
  per way of building operations; the components add theirs to \<open>keeps_rules\<close>.
\<close>

definition keeps :: "('s \<Rightarrow> 'x) \<Rightarrow> ('s, 'a) op \<Rightarrow> bool" where
  "keeps f m \<longleftrightarrow> (\<forall>s. f (snd (m s)) = f s)"

lemma keepsI: "(\<And>s r s'. m s = (r, s') \<Longrightarrow> f s' = f s) \<Longrightarrow> keeps f m"
  unfolding keeps_def by (metis prod.collapse)

lemma keepsD: "keeps f m \<Longrightarrow> m s = (r, s') \<Longrightarrow> f s' = f s"
  unfolding keeps_def by (metis snd_conv)

lemma keeps_bindO [keeps_rules]:
  assumes "keeps f m" and "\<And>x. keeps f (g x)"
  shows "keeps f (bindO m g)"
proof (rule keepsI)
  fix s r s' assume run: "bindO m g s = (r, s')"
  obtain x s1 where m: "m s = (x, s1)" by (cases "m s")
  from run keepsD [OF assms(1) m] show "f s' = f s"
    by (auto simp: bindO_def m split: sum.splits dest: keepsD [OF assms(2)])
qed

lemma keeps_liftO [keeps_rules]: "keeps f (liftO r)"
  by (simp add: keeps_def)

lemma keeps_returnO [keeps_rules]: "keeps f (returnO x)"
  by (simp add: keeps_def)

section \<open>Arrays of sixteen bytes\<close>

text \<open>
  \<^verbatim>\<open>std::array<std::uint8_t, 16>\<close>, the type of universal labels and of LE keys. \<open>bytes16\<close>
  reads the elements; \<open>array16_of\<close> builds an array from sixteen elements (a value-initialised
  array of zeros otherwise, a case no caller reaches).
\<close>

typedef array16 = "{xs :: byte list. length xs = 16}"
  morphisms bytes16 Abs_array16
  by (rule exI [of _ "replicate 16 0"]) simp

definition array16_of :: "byte list \<Rightarrow> array16" where
  "array16_of xs = Abs_array16 (if length xs = 16 then xs else replicate 16 0)"

lemma Abs_array16_bytes16 [code abstype]: "Abs_array16 (bytes16 a) = a"
  by (rule bytes16_inverse)

lemma length_bytes16 [simp, codec_simps]: "length (bytes16 a) = 16"
  using bytes16 [of a] by simp

lemma bytes16_code [code abstract]:
  "bytes16 (array16_of xs) = (if length xs = 16 then xs else replicate 16 0)"
  by (simp add: array16_of_def Abs_array16_inverse)

lemma bytes16_array16_of [simp]: "length xs = 16 \<Longrightarrow> bytes16 (array16_of xs) = xs"
  by (simp add: bytes16_code)

lemma array16_of_bytes16 [simp]: "array16_of (bytes16 a) = a"
  by (simp add: array16_of_def bytes16_inverse)

lemma bytes16_eq [simp]: "bytes16 a = bytes16 b \<longleftrightarrow> a = b"
  by (rule bytes16_inject)

lemma array16_of_eq [simp]:
  "length xs = 16 \<Longrightarrow> length ys = 16 \<Longrightarrow> array16_of xs = array16_of ys \<longleftrightarrow> xs = ys"
  by (metis bytes16_array16_of)

instantiation array16 :: equal
begin

definition equal_array16 :: "array16 \<Rightarrow> array16 \<Rightarrow> bool" where
  "equal_array16 a b \<longleftrightarrow> bytes16 a = bytes16 b"

instance by standard (simp add: equal_array16_def)

end

section \<open>Tables searched by a key\<close>

lemma find_by_key:
  "distinct (map f xs) \<Longrightarrow> find (\<lambda>y. f y = k) xs = Some x \<longleftrightarrow> x \<in> set xs \<and> f x = k"
  by (induction xs) (auto simp: image_iff)

lemma option_case_result_Inr:
  "(case m of None \<Rightarrow> Inl e | Some x \<Rightarrow> Inr (f x)) = Inr y \<longleftrightarrow> (\<exists>x. m = Some x \<and> f x = y)"
  by (auto split: option.splits)

section \<open>Lists read at an offset\<close>

lemma nth_append_mid [simp]:
  "(pre @ xs) ! (length pre + i) = xs ! i"
  by (simp add: nth_append)

lemma take_drop_nths4:
  "off + 4 \<le> length xs \<Longrightarrow>
    take 4 (drop off xs) = [xs ! off, xs ! (off + 1), xs ! (off + 2), xs ! (off + 3)]"
  by (rule nth_equalityI) (auto simp: nth_Cons' numeral_eq_Suc less_Suc_eq)

lemma take_drop_concat_step:
  "take (n + m) (drop k xs) = take n (drop k xs) @ take m (drop (k + n) xs)"
  by (metis add.commute drop_drop take_add)

text \<open>Reading the sublists of width \<open>w\<close> one after the other rebuilds the list.\<close>

lemma concat_slices:
  "length xs = n * w \<Longrightarrow> concat (map (\<lambda>i. take w (drop (i * w) xs)) [0..<n]) = xs"
proof (induction n arbitrary: xs)
  case 0
  then show ?case by simp
next
  case (Suc n)
  let ?ys = "take (n * w) xs"
  have len: "length ?ys = n * w" using Suc.prems by simp
  have "map (\<lambda>i. take w (drop (i * w) xs)) [0..<n] = map (\<lambda>i. take w (drop (i * w) ?ys)) [0..<n]"
  proof (rule map_cong [OF refl])
    fix i assume "i \<in> set [0..<n]"
    then have "Suc i * w \<le> n * w" by (intro mult_le_mono1) simp
    then have "w \<le> n * w - i * w" by simp
    then show "take w (drop (i * w) xs) = take w (drop (i * w) ?ys)"
      by (simp add: drop_take min_absorb1)
  qed
  then have "concat (map (\<lambda>i. take w (drop (i * w) xs)) [0..<n]) = ?ys"
    by (simp only: Suc.IH [OF len])
  moreover have "take w (drop (n * w) xs) = drop (n * w) xs"
    using Suc.prems by simp
  ultimately show ?case by simp
qed

end
