(* ===== verification/Big_Endian.thy ===== *)
theory Big_Endian
  imports Asm_Prelude
begin

text \<open>
  The big-endian integer fields of the wire format: \<^verbatim>\<open>decode_be_u32\<close>,
  \<^verbatim>\<open>decode_be_u64\<close>, \<^verbatim>\<open>append_be_u32\<close> and \<^verbatim>\<open>append_be_u64\<close> of
  \<^verbatim>\<open>src/asm/codec.cpp\<close>, with the facts that appending and reading are inverse in both
  directions, at any offset.
\<close>

section \<open>The four functions\<close>

definition decode_be_u32 :: "byte_buffer \<Rightarrow> nat \<Rightarrow> u32 result" where
  "decode_be_u32 bytes offset =
     (if length bytes < offset + 4
      then Inl (AsmError ''unexpected end of buffer while reading u32'')
      else Inr (push_bit 24 (ucast (bytes ! offset))
                OR push_bit 16 (ucast (bytes ! (offset + 1)))
                OR push_bit 8 (ucast (bytes ! (offset + 2)))
                OR ucast (bytes ! (offset + 3))))"

definition decode_be_u64 :: "byte_buffer \<Rightarrow> nat \<Rightarrow> u64 result" where
  "decode_be_u64 bytes offset =
     (if length bytes < offset + 8
      then Inl (AsmError ''unexpected end of buffer while reading u64'')
      else Inr (foldl (\<lambda>value i. push_bit 8 value OR ucast (bytes ! (offset + i))) 0 [0..<8]))"

definition append_be_u32 :: "byte_buffer \<Rightarrow> u32 \<Rightarrow> byte_buffer" where
  "append_be_u32 out value =
     out @ [ucast (drop_bit 24 value AND 255), ucast (drop_bit 16 value AND 255),
            ucast (drop_bit 8 value AND 255), ucast (value AND 255)]"

text \<open>The loop over \<^verbatim>\<open>shift\<close> visits 56, 48, ..., 0.\<close>

definition append_be_u64 :: "byte_buffer \<Rightarrow> u64 \<Rightarrow> byte_buffer" where
  "append_be_u64 out value =
     foldl (\<lambda>buf shift. buf @ [ucast (drop_bit shift value AND 255)]) out
       [56, 48, 40, 32, 24, 16, 8, 0]"

section \<open>Shapes\<close>

lemma append_be_u32_append: "append_be_u32 out v = out @ append_be_u32 [] v"
  by (simp add: append_be_u32_def)

lemma append_be_u64_append: "append_be_u64 out v = out @ append_be_u64 [] v"
  by (simp add: append_be_u64_def)

lemma length_append_be_u32 [simp, codec_simps]: "length (append_be_u32 out v) = length out + 4"
  by (simp add: append_be_u32_def)

lemma length_append_be_u64 [simp, codec_simps]: "length (append_be_u64 out v) = length out + 8"
  by (simp add: append_be_u64_def)

lemma decode_be_u32_error:
  "decode_be_u32 bs off = Inl e \<longleftrightarrow>
     length bs < off + 4 \<and> e = AsmError ''unexpected end of buffer while reading u32''"
  by (auto simp: decode_be_u32_def)

lemma decode_be_u64_error:
  "decode_be_u64 bs off = Inl e \<longleftrightarrow>
     length bs < off + 8 \<and> e = AsmError ''unexpected end of buffer while reading u64''"
  by (auto simp: decode_be_u64_def)

section \<open>Bytes of a word and words of bytes\<close>

text \<open>
  \<open>byte_at k w\<close> is the byte of \<open>w\<close> that starts at bit \<open>k\<close>; \<open>shift_in w b\<close> appends a
  byte at the low end. One law each way covers both integer widths.
\<close>

lemma and_255: "x AND 255 = take_bit 8 x" for x :: "'a::len word"
  by (simp add: take_bit_eq_mask mask_eq_exp_minus_1)

definition byte_at :: "nat \<Rightarrow> 'a::len word \<Rightarrow> byte" where
  "byte_at k w = ucast (drop_bit k w AND 255)"

definition shift_in :: "'a::len word \<Rightarrow> byte \<Rightarrow> 'a word" where
  "shift_in w b = push_bit 8 w OR ucast b"

lemma bit_byte_at: "bit (byte_at k w) n \<longleftrightarrow> n < 8 \<and> bit w (k + n)"
  by (auto simp: byte_at_def and_255 bit_simps dest: bit_imp_le_length)

lemma bit_shift_in:
  "bit (shift_in w b) n \<longleftrightarrow> n < LENGTH('a) \<and> (if n < 8 then bit b n else bit w (n - 8))"
  for w :: "'a::len word"
  by (auto simp: shift_in_def bit_simps dest: bit_imp_le_length)

lemma shift_in_byte_at: "shift_in (drop_bit (k + 8) w) (byte_at k w) = drop_bit k w"
  by (rule bit_word_eqI) (auto simp: bit_shift_in bit_byte_at bit_simps ac_simps)

lemma byte_at_shift_in_0: "8 \<le> LENGTH('a) \<Longrightarrow> byte_at 0 (shift_in w b) = b"
  for w :: "'a::len word"
  by (rule bit_word_eqI) (auto simp: bit_shift_in bit_byte_at)

lemma byte_at_shift_in:
  "k + 16 \<le> LENGTH('a) \<Longrightarrow> byte_at (k + 8) (shift_in w b) = byte_at k w"
  for w :: "'a::len word"
  by (rule bit_word_eqI) (auto simp: bit_shift_in bit_byte_at)

lemma push_or_shift_in:
  "push_bit 24 (ucast a) OR push_bit 16 (ucast b) OR push_bit 8 (ucast c) OR ucast d
     = shift_in (shift_in (shift_in (shift_in 0 a) b) c) d"
  for a b c d :: byte
  by (rule bit_word_eqI)
    (simp add: shift_in_def bit_simps push_bit_or or.assoc)

lemma append_be_u32_bytes:
  "append_be_u32 out v = out @ [byte_at 24 v, byte_at 16 v, byte_at 8 v, byte_at 0 v]"
  by (simp add: append_be_u32_def byte_at_def)

lemma append_be_u64_bytes:
  "append_be_u64 out v = out @ [byte_at 56 v, byte_at 48 v, byte_at 40 v, byte_at 32 v,
     byte_at 24 v, byte_at 16 v, byte_at 8 v, byte_at 0 v]"
  by (simp add: append_be_u64_def byte_at_def)

lemma shift_in_bytes_u32:
  "shift_in (shift_in (shift_in (shift_in 0 (byte_at 24 v)) (byte_at 16 v)) (byte_at 8 v)) (byte_at 0 v)
     = (v :: u32)"
  using shift_in_byte_at [of 24 v] shift_in_byte_at [of 16 v]
    shift_in_byte_at [of 8 v] shift_in_byte_at [of 0 v]
  by (simp add: drop_bit_word_beyond)

lemma decode_be_u32_shift_in:
  "off + 4 \<le> length bs \<Longrightarrow> decode_be_u32 bs off =
     Inr (shift_in (shift_in (shift_in (shift_in 0 (bs ! off)) (bs ! (off + 1)))
       (bs ! (off + 2))) (bs ! (off + 3)))"
  by (simp add: decode_be_u32_def push_or_shift_in)

lemma upt_0_8: "[0..<8] = [0, 1, 2, 3, 4, 5, 6, 7 :: nat]"
  by (simp add: upt_rec)

lemma decode_be_u64_shift_in:
  "off + 8 \<le> length bs \<Longrightarrow> decode_be_u64 bs off =
     Inr (shift_in (shift_in (shift_in (shift_in (shift_in (shift_in (shift_in (shift_in 0
       (bs ! off)) (bs ! (off + 1))) (bs ! (off + 2))) (bs ! (off + 3))) (bs ! (off + 4)))
       (bs ! (off + 5))) (bs ! (off + 6))) (bs ! (off + 7)))"
  by (simp add: decode_be_u64_def shift_in_def [symmetric] upt_0_8 del: upt_rec_numeral)

lemma shift_in_bytes_u64:
  "shift_in (shift_in (shift_in (shift_in (shift_in (shift_in (shift_in (shift_in 0
     (byte_at 56 v)) (byte_at 48 v)) (byte_at 40 v)) (byte_at 32 v)) (byte_at 24 v))
     (byte_at 16 v)) (byte_at 8 v)) (byte_at 0 v) = (v :: u64)"
  using shift_in_byte_at [of 56 v] shift_in_byte_at [of 48 v] shift_in_byte_at [of 40 v]
    shift_in_byte_at [of 32 v] shift_in_byte_at [of 24 v] shift_in_byte_at [of 16 v]
    shift_in_byte_at [of 8 v] shift_in_byte_at [of 0 v]
  by (simp add: drop_bit_word_beyond)

section \<open>Round trips\<close>

text \<open>A field is read back from wherever it was written.\<close>

lemma decode_append_be_u32 [simp, roundtrip_simps]:
  "decode_be_u32 (pre @ append_be_u32 [] v @ post) (length pre) = Inr v"
  by (simp add: decode_be_u32_shift_in append_be_u32_bytes nth_append shift_in_bytes_u32)

lemma decode_append_be_u64 [simp, roundtrip_simps]:
  "decode_be_u64 (pre @ append_be_u64 [] v @ post) (length pre) = Inr v"
  by (simp add: decode_be_u64_shift_in append_be_u64_bytes nth_append shift_in_bytes_u64)

text \<open>What is read, written again, gives the bytes that were read.\<close>

lemma byte_at_shift_in_u32:
  "byte_at 0 (shift_in w b) = b"
  "byte_at 8 (shift_in w b) = byte_at 0 w"
  "byte_at 16 (shift_in w b) = byte_at 8 w"
  "byte_at 24 (shift_in w b) = byte_at 16 w"
  for w :: u32
  using byte_at_shift_in [of 0 w b] byte_at_shift_in [of 8 w b] byte_at_shift_in [of 16 w b]
  by (simp_all add: byte_at_shift_in_0)

lemma byte_at_shift_in_u64:
  "byte_at 0 (shift_in w b) = b"
  "byte_at 8 (shift_in w b) = byte_at 0 w"
  "byte_at 16 (shift_in w b) = byte_at 8 w"
  "byte_at 24 (shift_in w b) = byte_at 16 w"
  "byte_at 32 (shift_in w b) = byte_at 24 w"
  "byte_at 40 (shift_in w b) = byte_at 32 w"
  "byte_at 48 (shift_in w b) = byte_at 40 w"
  "byte_at 56 (shift_in w b) = byte_at 48 w"
  for w :: u64
  using byte_at_shift_in [of 0 w b] byte_at_shift_in [of 8 w b] byte_at_shift_in [of 16 w b]
    byte_at_shift_in [of 24 w b] byte_at_shift_in [of 32 w b] byte_at_shift_in [of 40 w b]
    byte_at_shift_in [of 48 w b]
  by (simp_all add: byte_at_shift_in_0)

lemma append_decode_be_u32:
  assumes "decode_be_u32 bs off = Inr v"
  shows "append_be_u32 [] v = take 4 (drop off bs)"
proof -
  have le: "off + 4 \<le> length bs"
    using assms by (simp add: decode_be_u32_def split: if_splits)
  with assms show ?thesis
    by (auto simp: decode_be_u32_shift_in append_be_u32_bytes byte_at_shift_in_u32 take_drop_nths4)
qed

lemma take_drop_nths8:
  "off + 8 \<le> length xs \<Longrightarrow> take 8 (drop off xs) =
    [xs ! off, xs ! (off + 1), xs ! (off + 2), xs ! (off + 3),
     xs ! (off + 4), xs ! (off + 5), xs ! (off + 6), xs ! (off + 7)]"
  using take_drop_concat_step [of 4 4 off xs] take_drop_nths4 [of off xs]
    take_drop_nths4 [of "off + 4" xs]
  by (simp add: add.commute)

lemma append_decode_be_u64:
  assumes "decode_be_u64 bs off = Inr v"
  shows "append_be_u64 [] v = take 8 (drop off bs)"
proof -
  have le: "off + 8 \<le> length bs"
    using assms by (simp add: decode_be_u64_def split: if_splits)
  with assms show ?thesis
    by (auto simp: decode_be_u64_shift_in append_be_u64_bytes byte_at_shift_in_u64 take_drop_nths8)
qed

lemma decode_be_u32_total: "off + 4 \<le> length bs \<Longrightarrow> \<exists>v. decode_be_u32 bs off = Inr v"
  by (simp add: decode_be_u32_def)

lemma decode_be_u64_total: "off + 8 \<le> length bs \<Longrightarrow> \<exists>v. decode_be_u64 bs off = Inr v"
  by (simp add: decode_be_u64_def)

lemma decode_be_u32_take:
  "off + 4 \<le> n \<Longrightarrow> n \<le> length bs \<Longrightarrow> decode_be_u32 (take n bs) off = decode_be_u32 bs off"
  by (simp add: decode_be_u32_def)

lemma append_be_u32_inject [simp]: "append_be_u32 [] a = append_be_u32 [] b \<longleftrightarrow> a = b"
  using decode_append_be_u32 [of "[]" a "[]"] decode_append_be_u32 [of "[]" b "[]"]
  by (metis Inr_inject)

lemma decode_be_u32_whole:
  "length bs = 4 \<Longrightarrow> decode_be_u32 bs 0 = Inr v \<longleftrightarrow> append_be_u32 [] v = bs"
  using append_decode_be_u32 [of bs 0 v] decode_append_be_u32 [of "[]" v "[]"] by auto

section \<open>Properties\<close>

text \<open>Reading four or eight bytes at the offset where an integer was appended gives the integer
back, whatever stands before and after it.\<close>

lemma big_endian_roundtrip:
  "decode_be_u32 (append_be_u32 out i @ rest) (length out) = Inr i \<and>
   decode_be_u64 (append_be_u64 out n @ rest) (length out) = Inr n"
  using decode_append_be_u32 [of out i rest] decode_append_be_u64 [of out n rest]
    append_be_u32_append [of out i] append_be_u64_append [of out n] by simp

end
