(* ===== verification/Klv.thy ===== *)
theory Klv
  imports Big_Endian
begin

text \<open>
  KLV framing: \<^verbatim>\<open>include/klv/klv.hpp\<close> and \<^verbatim>\<open>src/klv/klv.cpp\<close>. A packet is a
  sixteen-byte universal label, a four-byte long-form BER length (header byte \<open>0x83\<close> and three
  length bytes) and the value.
\<close>

section \<open>Packets and the four operations\<close>

type_synonym ul = array16

record klv_packet =
  packet_ul :: ul
  packet_length :: u32
  packet_value :: byte_buffer

definition encode_ber_length :: "u32 \<Rightarrow> byte_buffer result" where
  "encode_ber_length len =
     (if len > 0x00ffffff
      then Inl (AsmError ''KLV length exceeds fixed 3-byte BER payload'')
      else Inr [0x83, ucast (drop_bit 16 len AND 255), ucast (drop_bit 8 len AND 255),
                ucast (len AND 255)])"

definition decode_ber_length :: "byte_buffer \<Rightarrow> (u32 \<times> nat) result" where
  "decode_ber_length bytes =
     (if length bytes < 4 then Inl (AsmError ''missing BER length'')
      else if bytes ! 0 \<noteq> 0x83 then Inl (AsmError ''invalid fixed BER length header'')
      else Inr (push_bit 16 (ucast (bytes ! 1)) OR push_bit 8 (ucast (bytes ! 2))
                  OR ucast (bytes ! 3), 4))"

definition klv_encode :: "klv_packet \<Rightarrow> byte_buffer result" where
  "klv_encode packet =
     (if length (packet_value packet) \<noteq> unat (packet_length packet)
      then Inl (AsmError ''KLV packet length/value mismatch'')
      else bindE (encode_ber_length (packet_length packet)) (\<lambda>encoded_length.
        Inr (bytes16 (packet_ul packet) @ encoded_length @ packet_value packet)))"

definition klv_decode :: "byte_buffer \<Rightarrow> klv_packet result" where
  "klv_decode bytes =
     (if length bytes < 17 then Inl (AsmError ''KLV packet too short'')
      else bindE (decode_ber_length (drop 16 bytes)) (\<lambda>(len, consumed).
        let value_offset = 16 + consumed in
        if length bytes \<noteq> value_offset + unat len
        then Inl (AsmError ''KLV value length mismatch'')
        else Inr \<lparr>packet_ul = array16_of (take 16 bytes), packet_length = len,
                  packet_value = drop value_offset bytes\<rparr>))"

section \<open>The length field\<close>

lemma encode_ber_length_bytes:
  "encode_ber_length len =
     (if unat len < 2 ^ 24 then Inr [0x83, byte_at 16 len, byte_at 8 len, byte_at 0 len]
      else Inl (AsmError ''KLV length exceeds fixed 3-byte BER payload''))"
  by (auto simp: encode_ber_length_def byte_at_def word_less_nat_alt)

lemma decode_ber_length_shift_in:
  "decode_ber_length bytes =
     (if length bytes < 4 then Inl (AsmError ''missing BER length'')
      else if bytes ! 0 \<noteq> 0x83 then Inl (AsmError ''invalid fixed BER length header'')
      else Inr (shift_in (shift_in (shift_in 0 (bytes ! 1)) (bytes ! 2)) (bytes ! 3), 4))"
  using push_or_shift_in [of 0 "bytes ! 1" "bytes ! 2" "bytes ! 3"]
  by (simp add: decode_ber_length_def shift_in_def or.assoc)

lemma drop_bit_24_eq_0_iff: "drop_bit 24 (len :: u32) = 0 \<longleftrightarrow> unat len < 2 ^ 24"
proof -
  have "drop_bit 24 len = 0 \<longleftrightarrow> unat (drop_bit 24 len) = 0"
    by (simp only: unsigned_eq_0_iff)
  also have "unat (drop_bit 24 len) = unat len div 2 ^ 24"
    by (subst unat_drop_bit_eq) (rule drop_bit_eq_div)
  finally show ?thesis by (simp add: div_eq_0_iff)
qed

lemma ber_length_shift_in:
  "unat (len :: u32) < 2 ^ 24 \<Longrightarrow>
     shift_in (shift_in (shift_in 0 (byte_at 16 len)) (byte_at 8 len)) (byte_at 0 len) = len"
  using shift_in_byte_at [of 16 len] shift_in_byte_at [of 8 len] shift_in_byte_at [of 0 len]
  by (simp add: drop_bit_24_eq_0_iff [THEN iffD2])

lemma decode_encode_ber_length [roundtrip_simps]:
  assumes "unat len < 2 ^ 24"
  shows "decode_ber_length ([0x83, byte_at 16 len, byte_at 8 len, byte_at 0 len] @ rest) = Inr (len, 4)"
  by (simp add: decode_ber_length_shift_in ber_length_shift_in [OF assms])

lemma decode_ber_length_bound:
  assumes "decode_ber_length bytes = Inr (len, n)"
  shows "unat len < 2 ^ 24" and "n = 4"
    and "take 4 bytes = [0x83, byte_at 16 len, byte_at 8 len, byte_at 0 len]"
proof -
  from assms have le: "0 + 4 \<le> length bytes" and hd: "bytes ! 0 = 0x83" and n: "n = 4"
    and len: "len = shift_in (shift_in (shift_in 0 (bytes ! 1)) (bytes ! 2)) (bytes ! 3)"
    by (auto simp: decode_ber_length_shift_in split: if_splits)
  have "drop_bit 24 len = 0"
    by (rule bit_word_eqI) (simp add: len bit_shift_in bit_simps)
  then show "unat len < 2 ^ 24" by (simp add: drop_bit_24_eq_0_iff)
  show "n = 4" by (fact n)
  show "take 4 bytes = [0x83, byte_at 16 len, byte_at 8 len, byte_at 0 len]"
    using take_drop_nths4 [OF le] hd by (simp add: len byte_at_shift_in_u32 numeral_2_eq_2)
qed

section \<open>Frames\<close>

text \<open>A packet that \<open>klv_encode\<close> accepts: the length field agrees with the value and fits 24 bits.\<close>

definition klv_wf :: "klv_packet \<Rightarrow> bool" where
  "klv_wf p \<longleftrightarrow> length (packet_value p) = unat (packet_length p) \<and> unat (packet_length p) < 2 ^ 24"

definition klv_frame :: "ul \<Rightarrow> u32 \<Rightarrow> byte_buffer \<Rightarrow> byte_buffer" where
  "klv_frame u len v = bytes16 u @ [0x83, byte_at 16 len, byte_at 8 len, byte_at 0 len] @ v"

lemma length_klv_frame [simp, codec_simps]: "length (klv_frame u len v) = 20 + length v"
  by (simp add: klv_frame_def)

lemma klv_encode_wf:
  "klv_wf p \<Longrightarrow> klv_encode p = Inr (klv_frame (packet_ul p) (packet_length p) (packet_value p))"
  by (simp add: klv_wf_def klv_encode_def encode_ber_length_bytes klv_frame_def)

lemma klv_encode_Inr_iff:
  "klv_encode p = Inr bs \<longleftrightarrow>
     klv_wf p \<and> bs = klv_frame (packet_ul p) (packet_length p) (packet_value p)"
  by (auto simp: klv_wf_def klv_encode_def encode_ber_length_bytes klv_frame_def)

lemma klv_decode_frame:
  assumes "unat len < 2 ^ 24" and "length v = unat len"
  shows "klv_decode (klv_frame u len v) =
           Inr \<lparr>packet_ul = u, packet_length = len, packet_value = v\<rparr>"
  using assms decode_encode_ber_length [OF assms(1), of v]
  by (simp add: klv_decode_def klv_frame_def)

lemma klv_decode_encode:
  assumes "klv_encode p = Inr bs"
  shows "klv_decode bs = Inr p"
  using assms by (auto simp: klv_encode_Inr_iff klv_wf_def klv_decode_frame)

lemma klv_decode_Inr:
  assumes "klv_decode bs = Inr p"
  shows "klv_wf p" and "bs = klv_frame (packet_ul p) (packet_length p) (packet_value p)"
proof -
  from assms obtain len n where
    ber: "decode_ber_length (drop 16 bs) = Inr (len, n)" and
    len: "length bs = 16 + n + unat len" and
    p: "p = \<lparr>packet_ul = array16_of (take 16 bs), packet_length = len, packet_value = drop (16 + n) bs\<rparr>"
    by (auto simp: klv_decode_def bindE_eq_Inr Let_def split: if_splits prod.splits)
  note b = decode_ber_length_bound [OF ber]
  show "klv_wf p" using len b(1,2) by (simp add: klv_wf_def p)
  have "bs = take 16 bs @ take 4 (drop 16 bs) @ drop 20 bs"
    using append_take_drop_id [of 16 bs] append_take_drop_id [of 4 "drop 16 bs"] by simp
  then show "bs = klv_frame (packet_ul p) (packet_length p) (packet_value p)"
    using len b(2,3) by (simp add: klv_frame_def p)
qed

lemma klv_decode_Inr_iff: "klv_decode bs = Inr p \<longleftrightarrow> klv_encode p = Inr bs"
  using klv_decode_encode klv_decode_Inr by (metis klv_encode_Inr_iff)

lemma klv_decode_length: "klv_decode bs = Inr p \<Longrightarrow> length bs = 20 + unat (packet_length p)"
  using klv_decode_Inr [of bs p] by (metis klv_wf_def length_klv_frame)

text \<open>The only failures of decoding are the four the source throws.\<close>

lemma klv_decode_errors:
  "klv_decode bs = Inl e \<Longrightarrow> e \<in> {AsmError ''KLV packet too short'', AsmError ''missing BER length'',
     AsmError ''invalid fixed BER length header'', AsmError ''KLV value length mismatch''}"
  by (auto simp: klv_decode_def decode_ber_length_def bindE_eq_Inl Let_def split: if_splits prod.splits)

text \<open>No frame is a proper prefix of another: a message cut short never decodes.\<close>

lemma decode_ber_length_append:
  assumes "4 \<le> length xs"
  shows "decode_ber_length (xs @ ys) = decode_ber_length xs"
proof -
  have "i < 4 \<Longrightarrow> (xs @ ys) ! i = xs ! i" for i using assms by (simp add: nth_append)
  then show ?thesis using assms by (simp add: decode_ber_length_def)
qed

lemma klv_prefix_free:
  assumes "klv_decode bs = Inr p" and "klv_decode (bs @ ys) = Inr q"
  shows "ys = []"
proof -
  from assms(1) obtain len n where b: "decode_ber_length (drop 16 bs) = Inr (len, n)"
    and l: "length bs = 16 + n + unat len"
    by (auto simp: klv_decode_def bindE_eq_Inr Let_def split: if_splits prod.splits)
  from assms(2) obtain len' n' where b': "decode_ber_length (drop 16 (bs @ ys)) = Inr (len', n')"
    and l': "length (bs @ ys) = 16 + n' + unat len'"
    by (auto simp: klv_decode_def bindE_eq_Inr Let_def split: if_splits prod.splits)
  have "4 \<le> length (drop 16 bs)" using b by (auto simp: decode_ber_length_def split: if_splits)
  then have "(len', n') = (len, n)"
    using b b' decode_ber_length_append [of "drop 16 bs" ys] by simp
  with l l' show "ys = []" by simp
qed

lemma klv_decode_truncated:
  assumes "klv_decode bs = Inr p" and "n < length bs"
  shows "\<exists>e. klv_decode (take n bs) = Inl e"
proof (cases "klv_decode (take n bs)")
  case (Inr q)
  then have "drop n bs = []" using klv_prefix_free [of "take n bs" q "drop n bs" p] assms(1) by simp
  with assms(2) show ?thesis by simp
qed simp

text \<open>Once it is past its length field, the message cut short fails on its length.\<close>

lemma klv_decode_cut:
  assumes "klv_decode bs = Inr p" and "n < length bs" and "20 \<le> n"
  shows "klv_decode (take n bs) = Inl (AsmError ''KLV value length mismatch'')"
proof -
  from assms(1) obtain len m where b: "decode_ber_length (drop 16 bs) = Inr (len, m)"
    and l: "length bs = 16 + m + unat len"
    by (auto simp: klv_decode_def bindE_eq_Inr Let_def split: if_splits prod.splits)
  have "drop 16 bs = drop 16 (take n bs) @ drop n bs"
    using append_take_drop_id [of "n - 16" "drop 16 bs"] assms(3) by (simp add: drop_take)
  then have "decode_ber_length (drop 16 (take n bs)) = Inr (len, m)"
    using b decode_ber_length_append [of "drop 16 (take n bs)" "drop n bs"] assms(2,3) by simp
  with l assms(2,3) show ?thesis by (simp add: klv_decode_def)
qed

section \<open>Properties\<close>

text \<open>C12: decoding and encoding of KLV packets are inverse: a byte string decodes to a packet exactly
when it is the encoding of that packet.\<close>

theorem klv_roundtrip: "klv_decode bs = Inr p \<longleftrightarrow> klv_encode p = Inr bs"
  by (rule klv_decode_Inr_iff)

text \<open>C13: no frame is a proper prefix of another, so a message that lost its tail never decodes.\<close>

theorem klv_no_proper_prefix:
  assumes "klv_decode bs = Inr p" and "ys \<noteq> []"
  shows "\<exists>e. klv_decode (bs @ ys) = Inl e"
  using klv_prefix_free [OF assms(1)] assms(2) by (metis sum.exhaust)

theorem klv_no_proper_prefix_witness:
  "\<exists>e. klv_decode (klv_frame (array16_of (replicate 16 0)) 1 [7] @ [0]) = Inl e"
  by (rule klv_no_proper_prefix
      [where p = "\<lparr>packet_ul = array16_of (replicate 16 0), packet_length = 1, packet_value = [7]\<rparr>"])
    (simp_all add: klv_decode_frame)

end
