(* ===== verification/Codec.thy ===== *)
theory Codec
  imports Klv
begin

text \<open>
  The command codec: \<^verbatim>\<open>include/asm/common.hpp\<close>, \<^verbatim>\<open>include/asm/codec.hpp\<close> and
  \<^verbatim>\<open>src/asm/codec.cpp\<close>. Requests and responses, the Annex A table that maps a command
  and a direction to its universal label, and the two encoders and decoders over KLV packets.
\<close>

section \<open>Commands, response codes, requests and responses\<close>

datatype command =
    bad_request | get_time | get_event_list | get_event_id | query_spb
  | le_key_load | le_key_query_id | le_key_query_all | le_key_purge_id | le_key_purge_all

datatype general_response = successful | failed | invalid | busy

primrec general_response_byte :: "general_response \<Rightarrow> byte" where
  "general_response_byte successful = 0x00"
| "general_response_byte failed = 0x01"
| "general_response_byte invalid = 0x02"
| "general_response_byte busy = 0x03"

record standard_request =
  req_command :: command
  req_id :: u32
  req_payload :: byte_buffer

record standard_response =
  resp_command :: command
  resp_id :: "u32 option"
  resp_payload :: byte_buffer
  resp_code :: general_response

record command_descriptor =
  desc_command :: command
  desc_response :: bool

definition command_to_string :: "command \<Rightarrow> string" where
  "command_to_string c = (case c of
     bad_request \<Rightarrow> ''BadRequest'' | get_time \<Rightarrow> ''GetTime'' | get_event_list \<Rightarrow> ''GetEventList''
   | get_event_id \<Rightarrow> ''GetEventID'' | query_spb \<Rightarrow> ''QuerySPB'' | le_key_load \<Rightarrow> ''LEKeyLoad''
   | le_key_query_id \<Rightarrow> ''LEKeyQueryID'' | le_key_query_all \<Rightarrow> ''LEKeyQueryAll''
   | le_key_purge_id \<Rightarrow> ''LEKeyPurgeID'' | le_key_purge_all \<Rightarrow> ''LEKeyPurgeAll'')"

definition general_response_to_string :: "general_response \<Rightarrow> string" where
  "general_response_to_string r = (case r of
     successful \<Rightarrow> ''successful'' | failed \<Rightarrow> ''failed'' | invalid \<Rightarrow> ''invalid'' | busy \<Rightarrow> ''busy'')"

section \<open>The table of universal labels\<close>

record ul_map_entry =
  entry_command :: command
  entry_response :: bool
  entry_ul :: ul

definition make_ul :: "byte \<Rightarrow> byte \<Rightarrow> ul" where
  "make_ul byte12 byte13 = array16_of
     [0x06, 0x0e, 0x2b, 0x34, 0x02, 0x05, 0x01, 0x01,
      0x02, 0x07, 0x01, byte12, byte13, 0x00, 0x00, 0x00]"

definition ul_entry :: "command \<Rightarrow> bool \<Rightarrow> ul \<Rightarrow> ul_map_entry" where
  "ul_entry c r u = \<lparr>entry_command = c, entry_response = r, entry_ul = u\<rparr>"

definition kUlMap :: "ul_map_entry list" where
  "kUlMap =
     [ul_entry bad_request True (make_ul 0x01 0x01),
      ul_entry get_time False (make_ul 0x02 0x10),
      ul_entry get_time True (make_ul 0x02 0x11),
      ul_entry get_event_list False (make_ul 0x02 0x12),
      ul_entry get_event_list True (make_ul 0x02 0x13),
      ul_entry get_event_id False (make_ul 0x02 0x14),
      ul_entry get_event_id True (make_ul 0x02 0x15),
      ul_entry query_spb False (make_ul 0x02 0x16),
      ul_entry query_spb True (make_ul 0x02 0x17),
      ul_entry le_key_load False (make_ul 0x03 0x20),
      ul_entry le_key_load True (make_ul 0x03 0x21),
      ul_entry le_key_query_id False (make_ul 0x03 0x22),
      ul_entry le_key_query_id True (make_ul 0x03 0x23),
      ul_entry le_key_query_all False (make_ul 0x03 0x24),
      ul_entry le_key_query_all True (make_ul 0x03 0x25),
      ul_entry le_key_purge_id False (make_ul 0x03 0x26),
      ul_entry le_key_purge_id True (make_ul 0x03 0x27),
      ul_entry le_key_purge_all False (make_ul 0x03 0x28),
      ul_entry le_key_purge_all True (make_ul 0x03 0x29)]"

definition lookup_entry :: "command \<Rightarrow> bool \<Rightarrow> ul_map_entry result" where
  "lookup_entry c response =
     (case find (\<lambda>entry. entry_command entry = c \<and> entry_response entry = response) kUlMap of
        Some entry \<Rightarrow> Inr entry
      | None \<Rightarrow> Inl (AsmError ''missing UL mapping''))"

definition ul_for :: "command \<Rightarrow> bool \<Rightarrow> ul result" where
  "ul_for c response = mapE entry_ul (lookup_entry c response)"

definition describe_ul :: "ul \<Rightarrow> command_descriptor result" where
  "describe_ul u =
     (case find (\<lambda>entry. entry_ul entry = u) kUlMap of
        Some entry \<Rightarrow> Inr \<lparr>desc_command = entry_command entry, desc_response = entry_response entry\<rparr>
      | None \<Rightarrow> Inl (AsmError ''unknown ASM UL''))"

definition decode_response_code :: "byte \<Rightarrow> general_response result" where
  "decode_response_code value =
     (if value = 0x00 then Inr successful
      else if value = 0x01 then Inr failed
      else if value = 0x02 then Inr invalid
      else if value = 0x03 then Inr busy
      else Inl (AsmError ''invalid general response code''))"

section \<open>Encoders and decoders\<close>

definition codec_encode_request :: "standard_request \<Rightarrow> klv_packet result" where
  "codec_encode_request request =
     bindE (ul_for (req_command request) False) (\<lambda>u.
       let value = append_be_u32 [] (req_id request) @ req_payload request in
       Inr \<lparr>packet_ul = u, packet_length = word_of_nat (length value), packet_value = value\<rparr>)"

definition codec_decode_request :: "klv_packet \<Rightarrow> standard_request result" where
  "codec_decode_request packet =
     bindE (describe_ul (packet_ul packet)) (\<lambda>descriptor.
       if desc_response descriptor then Inl (AsmError ''request packet expected'')
       else if length (packet_value packet) < 4
       then Inl (AsmError ''request payload too short for request id'')
       else bindE (decode_be_u32 (packet_value packet) 0) (\<lambda>request_id.
         Inr \<lparr>req_command = desc_command descriptor, req_id = request_id,
              req_payload = drop 4 (packet_value packet)\<rparr>))"

definition codec_encode_response :: "standard_response \<Rightarrow> klv_packet result" where
  "codec_encode_response response =
     bindE (ul_for (resp_command response) True) (\<lambda>u.
       bindE (if resp_command response \<noteq> bad_request
              then (case resp_id response of
                      None \<Rightarrow> Inl (AsmError ''response request id missing'')
                    | Some i \<Rightarrow> Inr (append_be_u32 [] i))
              else Inr []) (\<lambda>prefix.
         let value = prefix @ resp_payload response @ [general_response_byte (resp_code response)] in
         Inr \<lparr>packet_ul = u, packet_length = word_of_nat (length value), packet_value = value\<rparr>))"

definition codec_decode_response :: "klv_packet \<Rightarrow> standard_response result" where
  "codec_decode_response packet =
     bindE (describe_ul (packet_ul packet)) (\<lambda>descriptor.
       if \<not> desc_response descriptor then Inl (AsmError ''response packet expected'')
       else if packet_value packet = [] then Inl (AsmError ''response payload too short'')
       else bindE (decode_response_code (last (packet_value packet))) (\<lambda>code.
         if desc_command descriptor = bad_request
         then Inr \<lparr>resp_command = desc_command descriptor, resp_id = None,
                   resp_payload = butlast (packet_value packet), resp_code = code\<rparr>
         else if length (packet_value packet) < 5
         then Inl (AsmError ''response payload too short for request id'')
         else bindE (decode_be_u32 (packet_value packet) 0) (\<lambda>request_id.
           Inr \<lparr>resp_command = desc_command descriptor, resp_id = Some request_id,
                resp_payload = butlast (drop 4 (packet_value packet)), resp_code = code\<rparr>)))"

section \<open>Facts about the table\<close>

lemma make_ul_eq_iff [simp]: "make_ul a b = make_ul c d \<longleftrightarrow> a = c \<and> b = d"
  by (simp add: make_ul_def)

lemma ul_entry_simps [simp]:
  "entry_command (ul_entry c r u) = c"
  "entry_response (ul_entry c r u) = r"
  "entry_ul (ul_entry c r u) = u"
  by (simp_all add: ul_entry_def)

text \<open>Every command has a response label, and every command but BadRequest a request label.\<close>

lemma ul_for_response: "\<exists>u. ul_for c True = Inr u"
  by (cases c) (simp_all add: ul_for_def lookup_entry_def kUlMap_def)

lemma ul_for_request: "(\<exists>u. ul_for c False = Inr u) \<longleftrightarrow> c \<noteq> bad_request"
  by (cases c) (simp_all add: ul_for_def lookup_entry_def kUlMap_def)

lemma ul_for_bad_request: "ul_for bad_request False = Inl (AsmError ''missing UL mapping'')"
  by (simp add: ul_for_def lookup_entry_def kUlMap_def)

text \<open>The two lookups are inverse: the table is injective both ways.\<close>

lemma kUlMap_distinct_ul: "distinct (map entry_ul kUlMap)"
  by (simp add: kUlMap_def)

lemma kUlMap_distinct_key: "distinct (map (\<lambda>e. (entry_command e, entry_response e)) kUlMap)"
  by (simp add: kUlMap_def)

lemma lookup_entry_Inr:
  "lookup_entry c r = Inr e \<longleftrightarrow> e \<in> set kUlMap \<and> entry_command e = c \<and> entry_response e = r"
  using find_by_key [OF kUlMap_distinct_key, of "(c, r)" e]
  by (simp add: lookup_entry_def option_case_result_Inr)

lemma describe_ul_Inr:
  "describe_ul u = Inr d \<longleftrightarrow>
     (\<exists>e \<in> set kUlMap. entry_ul e = u \<and>
        d = \<lparr>desc_command = entry_command e, desc_response = entry_response e\<rparr>)"
  by (auto simp: describe_ul_def option_case_result_Inr find_by_key [OF kUlMap_distinct_ul])

lemma ul_for_iff_describe:
  "ul_for c r = Inr u \<longleftrightarrow> describe_ul u = Inr \<lparr>desc_command = c, desc_response = r\<rparr>"
  by (auto simp: ul_for_def mapE_eq_Inr lookup_entry_Inr describe_ul_Inr)

lemma describe_ul_no_request: "describe_ul u \<noteq> Inr \<lparr>desc_command = bad_request, desc_response = False\<rparr>"
  using ul_for_bad_request by (simp add: ul_for_iff_describe [symmetric])

lemma decode_response_code_byte [simp, roundtrip_simps]:
  "decode_response_code (general_response_byte r) = Inr r"
  by (cases r) (simp_all add: decode_response_code_def)

lemma decode_response_code_Inr:
  "decode_response_code b = Inr r \<longleftrightarrow> b = general_response_byte r"
  by (cases r) (auto simp: decode_response_code_def)

section \<open>Round trips of packets\<close>

lemma word_of_nat_length_eq:
  "length xs = unat n \<Longrightarrow> word_of_nat (length xs) = (n :: u32)"
  by simp

lemma codec_encode_request_Inr:
  "codec_encode_request r = Inr p \<longleftrightarrow>
     (\<exists>u. ul_for (req_command r) False = Inr u \<and>
       p = \<lparr>packet_ul = u, packet_length = word_of_nat (4 + length (req_payload r)),
            packet_value = append_be_u32 [] (req_id r) @ req_payload r\<rparr>)"
  by (auto simp: codec_encode_request_def bindE_eq_Inr)

lemma codec_decode_encode_request:
  assumes "codec_encode_request r = Inr p"
  shows "codec_decode_request p = Inr r"
  using assms decode_append_be_u32 [of "[]" "req_id r" "req_payload r"]
  by (auto simp: codec_encode_request_Inr codec_decode_request_def ul_for_iff_describe)

lemma codec_decode_request_Inr:
  assumes "codec_decode_request p = Inr r"
  shows "ul_for (req_command r) False = Inr (packet_ul p)"
    and "packet_value p = append_be_u32 [] (req_id r) @ req_payload r"
proof -
  from assms obtain d i where d: "describe_ul (packet_ul p) = Inr d" "\<not> desc_response d"
    and i: "decode_be_u32 (packet_value p) 0 = Inr i"
    and r: "r = \<lparr>req_command = desc_command d, req_id = i, req_payload = drop 4 (packet_value p)\<rparr>"
    by (auto simp: codec_decode_request_def bindE_eq_Inr split: if_splits)
  have "d = \<lparr>desc_command = req_command r, desc_response = False\<rparr>"
    using d(2) by (simp add: r)
  with d(1) show "ul_for (req_command r) False = Inr (packet_ul p)"
    by (simp add: ul_for_iff_describe)
  show "packet_value p = append_be_u32 [] (req_id r) @ req_payload r"
    using append_decode_be_u32 [OF i] append_take_drop_id [of 4 "packet_value p"] by (simp add: r)
qed

lemma codec_encode_decode_request:
  assumes "codec_decode_request p = Inr r" and "klv_wf p"
  shows "codec_encode_request r = Inr p"
  using codec_decode_request_Inr [OF assms(1)] assms(2)
    word_of_nat_length_eq [of "packet_value p" "packet_length p"]
  by (auto simp: codec_encode_request_Inr klv_wf_def)

text \<open>
  The request id a response must carry: BadRequest carries none, every other command needs one.
\<close>

definition response_prefix :: "standard_response \<Rightarrow> byte_buffer" where
  "response_prefix r = (case resp_id r of None \<Rightarrow> [] | Some i \<Rightarrow> append_be_u32 [] i)"

definition response_wf :: "standard_response \<Rightarrow> bool" where
  "response_wf r \<longleftrightarrow> (resp_command r = bad_request \<longleftrightarrow> resp_id r = None)"

definition response_value :: "standard_response \<Rightarrow> byte_buffer" where
  "response_value r = response_prefix r @ resp_payload r @ [general_response_byte (resp_code r)]"

lemma codec_encode_response_wf:
  assumes "response_wf r"
  shows "codec_encode_response r = Inr p \<longleftrightarrow>
     (\<exists>u. ul_for (resp_command r) True = Inr u \<and>
       p = \<lparr>packet_ul = u, packet_length = word_of_nat (length (response_value r)),
            packet_value = response_value r\<rparr>)"
  using assms
  by (auto simp: codec_encode_response_def bindE_eq_Inr response_wf_def response_value_def
      response_prefix_def Let_def split: option.splits)

lemma codec_encode_response_missing_id:
  "resp_command r \<noteq> bad_request \<Longrightarrow> resp_id r = None \<Longrightarrow>
     codec_encode_response r = Inl (AsmError ''response request id missing'')"
  using ul_for_response [of "resp_command r"] by (auto simp: codec_encode_response_def)

lemma codec_decode_encode_response:
  assumes "response_wf r" and "codec_encode_response r = Inr p"
  shows "codec_decode_response p = Inr r"
proof -
  obtain u where u: "describe_ul u = Inr \<lparr>desc_command = resp_command r, desc_response = True\<rparr>"
    and p: "packet_ul p = u" "packet_value p = response_value r"
    using assms by (auto simp: codec_encode_response_wf ul_for_iff_describe)
  show ?thesis
  proof (cases "resp_id r")
    case None
    with assms(1) u p show ?thesis
      by (simp add: codec_decode_response_def response_value_def response_prefix_def response_wf_def
          butlast_append)
  next
    case (Some i)
    with assms(1) u p decode_append_be_u32 [of "[]" i "resp_payload r @ [general_response_byte (resp_code r)]"]
    show ?thesis
      by (simp add: codec_decode_response_def response_value_def response_prefix_def response_wf_def
          butlast_append)
  qed
qed

lemma codec_decode_response_Inr:
  assumes "codec_decode_response p = Inr r"
  shows "response_wf r" and "ul_for (resp_command r) True = Inr (packet_ul p)"
    and "packet_value p = response_value r"
proof -
  from assms obtain d code where d: "describe_ul (packet_ul p) = Inr d" "desc_response d"
    and ne: "packet_value p \<noteq> []"
    and "decode_response_code (last (packet_value p)) = Inr code"
    and r: "(if desc_command d = bad_request
         then Inr \<lparr>resp_command = desc_command d, resp_id = None,
                   resp_payload = butlast (packet_value p), resp_code = code\<rparr>
         else if length (packet_value p) < 5
         then Inl (AsmError ''response payload too short for request id'')
         else bindE (decode_be_u32 (packet_value p) 0) (\<lambda>request_id.
           Inr \<lparr>resp_command = desc_command d, resp_id = Some request_id,
                resp_payload = butlast (drop 4 (packet_value p)), resp_code = code\<rparr>)) = Inr r"
    by (auto simp: codec_decode_response_def bindE_eq_Inr split: if_splits)
  then have code: "last (packet_value p) = general_response_byte code"
    by (simp add: decode_response_code_Inr)
  have cmd: "resp_command r = desc_command d"
    using r by (auto simp: bindE_eq_Inr split: if_splits)
  then have "d = \<lparr>desc_command = resp_command r, desc_response = True\<rparr>"
    using d(2) by simp
  with d(1) show "ul_for (resp_command r) True = Inr (packet_ul p)"
    by (simp add: ul_for_iff_describe)
  have "response_wf r \<and> packet_value p = response_value r"
  proof (cases "desc_command d = bad_request")
    case True
    with r have "r = \<lparr>resp_command = desc_command d, resp_id = None,
                   resp_payload = butlast (packet_value p), resp_code = code\<rparr>" by simp
    with True ne code [symmetric] show ?thesis
      by (simp add: response_wf_def response_value_def response_prefix_def)
  next
    case False
    with r obtain i where i: "decode_be_u32 (packet_value p) 0 = Inr i" and len: "5 \<le> length (packet_value p)"
      and rr: "r = \<lparr>resp_command = desc_command d, resp_id = Some i,
                resp_payload = butlast (drop 4 (packet_value p)), resp_code = code\<rparr>"
      by (auto simp: bindE_eq_Inr split: if_splits)
    have "drop 4 (packet_value p) \<noteq> []" using len by simp
    then have "butlast (drop 4 (packet_value p)) @ [general_response_byte code] = drop 4 (packet_value p)"
      using code len by (metis append_butlast_last_id last_drop drop_eq_Nil not_le)
    with False show ?thesis
      using append_decode_be_u32 [OF i] append_take_drop_id [of 4 "packet_value p"]
      by (simp add: rr response_wf_def response_value_def response_prefix_def)
  qed
  then show "response_wf r" and "packet_value p = response_value r" by auto
qed

lemma codec_encode_decode_response:
  assumes "codec_decode_response p = Inr r" and "klv_wf p"
  shows "codec_encode_response r = Inr p"
  using codec_decode_response_Inr [OF assms(1)] assms(2)
    word_of_nat_length_eq [of "packet_value p" "packet_length p"]
  by (auto simp: codec_encode_response_wf klv_wf_def)

section \<open>Whole frames\<close>

text \<open>
  The compositions the transport uses: \<^verbatim>\<open>Klv::encode(Codec::encode_request(request))\<close> and
  \<^verbatim>\<open>Codec::decode_request(Klv::decode(bytes))\<close>, and the same for responses.
\<close>

definition encode_request_frame :: "standard_request \<Rightarrow> byte_buffer result" where
  "encode_request_frame r = bindE (codec_encode_request r) klv_encode"

definition decode_request_frame :: "byte_buffer \<Rightarrow> standard_request result" where
  "decode_request_frame bs = bindE (klv_decode bs) codec_decode_request"

definition encode_response_frame :: "standard_response \<Rightarrow> byte_buffer result" where
  "encode_response_frame r = bindE (codec_encode_response r) klv_encode"

definition decode_response_frame :: "byte_buffer \<Rightarrow> standard_response result" where
  "decode_response_frame bs = bindE (klv_decode bs) codec_decode_response"

lemma request_frame_iff:
  "decode_request_frame bs = Inr r \<longleftrightarrow> encode_request_frame r = Inr bs"
  unfolding decode_request_frame_def encode_request_frame_def bindE_eq_Inr
  using codec_decode_encode_request codec_encode_decode_request klv_decode_Inr(1) klv_decode_Inr_iff
  by metis

lemma response_frame_iff:
  "response_wf r \<Longrightarrow> decode_response_frame bs = Inr r \<longleftrightarrow> encode_response_frame r = Inr bs"
  unfolding decode_response_frame_def encode_response_frame_def bindE_eq_Inr
  using codec_decode_encode_response codec_encode_decode_response klv_decode_Inr(1) klv_decode_Inr_iff
  by metis

lemma decode_response_frame_wf: "decode_response_frame bs = Inr r \<Longrightarrow> response_wf r"
  unfolding decode_response_frame_def bindE_eq_Inr
  using codec_decode_response_Inr(1) by blast

lemma unat_word_of_nat_u32: "n < 2 ^ 24 \<Longrightarrow> unat (word_of_nat n :: u32) = n"
  by (simp add: unat_of_nat take_bit_nat_eq_self)

lemma klv_encode_sized:
  "length v < 2 ^ 24 \<Longrightarrow>
     klv_encode \<lparr>packet_ul = u, packet_length = word_of_nat (length v), packet_value = v\<rparr>
       = Inr (klv_frame u (word_of_nat (length v)) v)"
  by (simp add: klv_encode_Inr_iff klv_wf_def unat_word_of_nat_u32)

lemma unat_word_of_nat_le: "unat (word_of_nat n :: u32) \<le> n"
  by (simp add: unat_of_nat)

lemma klv_encode_oversized:
  assumes "2 ^ 24 \<le> length v"
  shows "\<exists>m. klv_encode \<lparr>packet_ul = u, packet_length = word_of_nat (length v), packet_value = v\<rparr>
           = Inl (AsmError m)"
proof (cases "unat (word_of_nat (length v) :: u32) = length v")
  case True
  with assms show ?thesis by (simp add: klv_encode_def encode_ber_length_bytes)
next
  case False
  then show ?thesis by (simp add: klv_encode_def)
qed

lemma encode_request_frame_total:
  assumes "req_command r \<noteq> bad_request" and "4 + length (req_payload r) < 2 ^ 24"
  shows "\<exists>bs. encode_request_frame r = Inr bs \<and> length bs = 24 + length (req_payload r)"
proof -
  obtain u where "ul_for (req_command r) False = Inr u"
    using assms(1) ul_for_request by blast
  then show ?thesis
    using klv_encode_sized [of "append_be_u32 [] (req_id r) @ req_payload r" u] assms(2)
    by (auto simp: encode_request_frame_def bindE_eq_Inr codec_encode_request_Inr)
qed

lemma encode_response_frame_total:
  assumes "response_wf r" and "length (response_value r) < 2 ^ 24"
  shows "\<exists>bs. encode_response_frame r = Inr bs \<and> length bs = 20 + length (response_value r)"
proof -
  obtain u where "ul_for (resp_command r) True = Inr u"
    using ul_for_response by blast
  then show ?thesis
    using klv_encode_sized [OF assms(2), of u] assms(1)
    by (auto simp: encode_response_frame_def bindE_eq_Inr codec_encode_response_wf)
qed

lemma encode_response_frame_oversized:
  assumes "response_wf r" and "2 ^ 24 \<le> length (response_value r)"
  shows "\<exists>m. encode_response_frame r = Inl (AsmError m)"
proof -
  obtain u where u: "ul_for (resp_command r) True = Inr u"
    using ul_for_response by blast
  then have "codec_encode_response r = Inr \<lparr>packet_ul = u,
      packet_length = word_of_nat (length (response_value r)), packet_value = response_value r\<rparr>"
    using assms(1) by (simp add: codec_encode_response_wf)
  then show ?thesis
    using klv_encode_oversized [OF assms(2), of u] by (simp add: encode_response_frame_def)
qed

section \<open>Properties\<close>

text \<open>C4: a byte string decodes to a request exactly when it is the frame the encoder makes of it.\<close>

theorem request_roundtrip: "decode_request_frame bs = Inr r \<longleftrightarrow> encode_request_frame r = Inr bs"
  by (rule request_frame_iff)

text \<open>C5: a byte string decodes to a response exactly when the response carries a request id unless it
is BadRequest, and the byte string is the frame the encoder makes of it.\<close>

theorem response_roundtrip:
  "decode_response_frame bs = Inr r \<longleftrightarrow> response_wf r \<and> encode_response_frame r = Inr bs"
  using response_frame_iff decode_response_frame_wf by blast

text \<open>C35: the label table is a bijection between the labels it lists and the pairs of a command and a
direction, with a response for every command and a request for every command but BadRequest.\<close>

theorem ul_table_bijective:
  "(ul_for c d = Inr u \<longleftrightarrow> describe_ul u = Inr \<lparr>desc_command = c, desc_response = d\<rparr>) \<and>
   ((\<exists>u. ul_for c d = Inr u) \<longleftrightarrow> (c, d) \<noteq> (bad_request, False))"
  using ul_for_iff_describe [of c d u] ul_for_response [of c] ul_for_request [of c] by (cases d) auto

end
