(* ===== verification/Batch.thy ===== *)
theory Batch
  imports Codec
begin

text \<open>
  Batches: a count, an item length and that many fixed-width items. The source has the pattern
  three times (the \<^verbatim>\<open>encode_u32_batch\<close> / \<^verbatim>\<open>decode_u32_batch\<close> pairs of
  \<^verbatim>\<open>event_log.cpp\<close> and \<^verbatim>\<open>le_key.cpp\<close>, and the \<^verbatim>\<open>LEKeyLoad\<close> payload);
  \<open>encode_batch\<close> and \<open>decode_batch\<close> are that pattern over an item codec, and the locale
  \<open>item_codec\<close> is what an item codec promises. The batch theorems are proved once, in the
  locale, and the component theories interpret it on their own item functions.
\<close>

section \<open>The batch pattern\<close>

definition encode_batch :: "(byte_buffer \<Rightarrow> 'a \<Rightarrow> byte_buffer) \<Rightarrow> nat \<Rightarrow> 'a list \<Rightarrow> byte_buffer" where
  "encode_batch append_item width items =
     foldl append_item
       (append_be_u32 (append_be_u32 [] (word_of_nat (length items))) (word_of_nat width)) items"

definition decode_batch ::
  "exn \<Rightarrow> exn \<Rightarrow> exn \<Rightarrow> (byte_buffer \<Rightarrow> nat \<Rightarrow> 'a result) \<Rightarrow> nat \<Rightarrow> byte_buffer \<Rightarrow> 'a list result" where
  "decode_batch too_short wrong_length wrong_size decode_item width bytes =
     (if length bytes < 8 then Inl too_short
      else bindE (decode_be_u32 bytes 0) (\<lambda>count.
        bindE (decode_be_u32 bytes 4) (\<lambda>item_length.
          if item_length \<noteq> word_of_nat width then Inl wrong_length
          else if length bytes \<noteq> 8 + unat count * width then Inl wrong_size
          else traverseE (\<lambda>i. decode_item bytes (8 + i * width)) [0..<unat count])))"

definition batch_header :: "nat \<Rightarrow> nat \<Rightarrow> byte_buffer" where
  "batch_header n width = append_be_u32 [] (word_of_nat n) @ append_be_u32 [] (word_of_nat width)"

lemma length_batch_header [simp]: "length (batch_header n width) = 8"
  by (simp add: batch_header_def)

lemma decode_batch_header:
  "decode_be_u32 (batch_header n w @ rest) 0 = Inr (word_of_nat n)"
  "decode_be_u32 (batch_header n w @ rest) 4 = Inr (word_of_nat w)"
  using decode_append_be_u32 [of "[]" "word_of_nat n" "append_be_u32 [] (word_of_nat w) @ rest"]
    decode_append_be_u32 [of "append_be_u32 [] (word_of_nat n)" "word_of_nat w" rest]
  by (simp_all add: batch_header_def)

lemma batch_header_of_decode:
  assumes "decode_be_u32 bs 0 = Inr n" and "decode_be_u32 bs 4 = Inr w"
  shows "take 8 bs = append_be_u32 [] n @ append_be_u32 [] w"
  using append_decode_be_u32 [OF assms(1)] append_decode_be_u32 [OF assms(2)]
    take_drop_concat_step [of 4 4 0 bs]
  by simp

section \<open>What an item codec promises\<close>

locale item_codec =
  fixes append_item :: "byte_buffer \<Rightarrow> 'a \<Rightarrow> byte_buffer"
    and decode_item :: "byte_buffer \<Rightarrow> nat \<Rightarrow> 'a result"
    and width :: nat
  assumes append_item_append: "append_item out x = out @ append_item [] x"
    and length_item: "length (append_item [] x) = width"
    and decode_append_item: "decode_item (pre @ append_item [] x @ post) (length pre) = Inr x"
    and append_decode_item: "decode_item bs off = Inr x \<Longrightarrow> append_item [] x = take width (drop off bs)"
    and decode_item_total: "off + width \<le> length bs \<Longrightarrow> \<exists>x. decode_item bs off = Inr x"
begin

lemma foldl_append_item: "foldl append_item out xs = out @ concat (map (append_item []) xs)"
proof (induction xs arbitrary: out)
  case Nil
  then show ?case by simp
next
  case (Cons x xs)
  then show ?case by (simp add: append_item_append [of out x])
qed

lemma encode_batch_eq:
  "encode_batch append_item width xs = batch_header (length xs) width @ concat (map (append_item []) xs)"
  unfolding encode_batch_def foldl_append_item batch_header_def
  by (subst (2) append_be_u32_append) simp

lemma length_items: "length (concat (map (append_item []) xs)) = length xs * width"
  by (induction xs) (simp_all add: length_item)

lemma length_encode_batch: "length (encode_batch append_item width xs) = 8 + length xs * width"
  by (simp add: encode_batch_eq length_items)

lemma decode_items:
  "traverseE (\<lambda>i. decode_item (pre @ concat (map (append_item []) xs)) (length pre + i * width)) [0..<length xs]
     = Inr xs"
proof (induction xs arbitrary: pre)
  case Nil
  then show ?case by simp
next
  case (Cons x xs)
  let ?bs = "pre @ concat (map (append_item []) (x # xs))"
  have first: "decode_item ?bs (length pre) = Inr x"
    using decode_append_item [of pre x "concat (map (append_item []) xs)"] by simp
  have shift: "traverseE (\<lambda>i. decode_item ?bs (length pre + i * width)) (map Suc [0..<length xs]) = Inr xs"
    using Cons.IH [of "pre @ append_item [] x"]
    by (simp add: traverseE_map comp_def length_item add.assoc)
  have "[0..<length (x # xs)] = 0 # map Suc [0..<length xs]"
    by (simp add: upt_conv_Cons map_Suc_upt del: upt_Suc)
  with first shift show ?case by simp
qed

lemma encode_items:
  assumes "traverseE (\<lambda>i. decode_item bs (off + i * width)) [0..<n] = Inr xs"
    and "length bs = off + n * width"
  shows "concat (map (append_item []) xs) = drop off bs"
proof -
  have all: "list_all2 (\<lambda>i x. decode_item bs (off + i * width) = Inr x) [0..<n] xs"
    using assms(1) by (simp add: traverseE_Inr_iff)
  have len: "length xs = n" using traverseE_length [OF assms(1)] by simp
  have "map (append_item []) xs = map (\<lambda>i. take width (drop (i * width) (drop off bs))) [0..<n]"
  proof (rule nth_equalityI)
    fix i assume "i < length (map (append_item []) xs)"
    then have i: "i < n" using len by simp
    then have "decode_item bs (off + i * width) = Inr (xs ! i)"
      using list_all2_nthD [OF all, of i] by simp
    then show "map (append_item []) xs ! i = map (\<lambda>i. take width (drop (i * width) (drop off bs))) [0..<n] ! i"
      using i len by (simp add: append_decode_item add.commute)
  qed (simp add: len)
  then show ?thesis
    using concat_slices [of "drop off bs" n width] assms(2) by simp
qed

lemma decode_items_total:
  assumes "length bs = off + n * width"
  shows "\<exists>xs. traverseE (\<lambda>i. decode_item bs (off + i * width)) [0..<n] = Inr xs"
proof -
  have "\<exists>x. decode_item bs (off + i * width) = Inr x" if "i < n" for i
  proof -
    have "Suc i * width \<le> n * width" using that by (intro mult_le_mono1) simp
    then show ?thesis using assms by (intro decode_item_total) simp
  qed
  then have "\<forall>i\<in>set [0..<n]. \<exists>x. decode_item bs (off + i * width) = Inr x" by simp
  then have "\<exists>g. \<forall>i\<in>set [0..<n]. decode_item bs (off + i * width) = Inr (g i)"
    by (rule bchoice)
  then obtain g where "\<forall>i\<in>set [0..<n]. decode_item bs (off + i * width) = Inr (g i)" ..
  then have "traverseE (\<lambda>i. decode_item bs (off + i * width)) [0..<n] = Inr (map g [0..<n])"
    by (intro traverseE_all_Inr) simp
  then show ?thesis ..
qed

text \<open>Encoding and decoding are inverse, for every batch whose count fits 32 bits.\<close>

lemma decode_encode_batch:
  assumes "length xs < 2 ^ 32"
  shows "decode_batch e1 e2 e3 decode_item width (encode_batch append_item width xs) = Inr xs"
proof -
  let ?items = "concat (map (append_item []) xs)"
  let ?bs = "batch_header (length xs) width @ ?items"
  have n: "unat (word_of_nat (length xs) :: u32) = length xs"
    using assms by (simp add: unat_of_nat take_bit_nat_eq_self)
  have "traverseE (\<lambda>i. decode_item ?bs (8 + i * width)) [0..<length xs] = Inr xs"
    using decode_items [of "batch_header (length xs) width" xs] by simp
  then show ?thesis
    by (simp add: decode_batch_def encode_batch_eq decode_batch_header n length_items)
qed

lemma encode_decode_batch:
  assumes "decode_batch e1 e2 e3 decode_item width bs = Inr xs"
  shows "encode_batch append_item width xs = bs" and "length xs < 2 ^ 32"
    and "length bs = 8 + length xs * width"
proof -
  from assms obtain count where c: "decode_be_u32 bs 0 = Inr count"
    and w: "decode_be_u32 bs 4 = Inr (word_of_nat width)"
    and size: "length bs = 8 + unat count * width"
    and loop: "traverseE (\<lambda>i. decode_item bs (8 + i * width)) [0..<unat count] = Inr xs"
    by (auto simp: decode_batch_def bindE_eq_Inr split: if_splits)
  have len: "length xs = unat count" using traverseE_length [OF loop] by simp
  show "length xs < 2 ^ 32" using unsigned_less [of count] by (simp add: len)
  show "length bs = 8 + length xs * width" by (simp add: len size)
  have "bs = take 8 bs @ drop 8 bs" by simp
  then show "encode_batch append_item width xs = bs"
    using batch_header_of_decode [OF c w] encode_items [OF loop size] len
    by (simp add: encode_batch_eq batch_header_def)
qed

lemma decode_batch_iff:
  "decode_batch e1 e2 e3 decode_item width bs = Inr xs \<longleftrightarrow>
     length xs < 2 ^ 32 \<and> encode_batch append_item width xs = bs"
  using decode_encode_batch encode_decode_batch by blast

text \<open>A decoder that fails does so with one of the three errors of the header checks.\<close>

lemma decode_batch_errors:
  assumes "decode_batch e1 e2 e3 decode_item width bs = Inl e"
  shows "e \<in> {e1, e2, e3}"
proof -
  have "e = e1 \<or> e = e2 \<or> e = e3 \<or>
     (\<exists>n. length bs = 8 + n * width \<and> traverseE (\<lambda>i. decode_item bs (8 + i * width)) [0..<n] = Inl e)"
    using assms decode_be_u32_total [of 0 bs] decode_be_u32_total [of 4 bs]
    by (auto simp: decode_batch_def bindE_eq_Inl split: if_splits)
  then show ?thesis using decode_items_total by fastforce
qed

text \<open>
  What a decoder accepts is bounded by what it was given: the \<^verbatim>\<open>reserve(count)\<close> before
  the loop never asks for more items than the payload has room for.
\<close>

lemma decode_batch_count_bound:
  "decode_batch e1 e2 e3 decode_item width bs = Inr xs \<Longrightarrow> length xs * width \<le> length bs"
  using encode_decode_batch(3) by fastforce

end

section \<open>Batches of 32-bit integers\<close>

interpretation u32_items: item_codec append_be_u32 decode_be_u32 4
proof unfold_locales
  fix out x show "append_be_u32 out x = out @ append_be_u32 [] x" by (rule append_be_u32_append)
next
  fix x show "length (append_be_u32 [] x) = 4" by simp
next
  fix pre x post show "decode_be_u32 (pre @ append_be_u32 [] x @ post) (length pre) = Inr x" by simp
next
  fix bs off x assume "decode_be_u32 bs off = Inr x"
  then show "append_be_u32 [] x = take 4 (drop off bs)" by (rule append_decode_be_u32)
next
  fix off bs assume "off + 4 \<le> length (bs :: byte_buffer)"
  then show "\<exists>x. decode_be_u32 bs off = Inr x" by (rule decode_be_u32_total)
qed

end
