(* ===== verification/Std_Text.thy ===== *)
theory Std_Text
  imports Asm_Prelude
begin

text \<open>
  The text functions of the C++ standard library the program calls: integers written to a
  stream in decimal and hexadecimal, \<^verbatim>\<open>std::stoul\<close> and \<^verbatim>\<open>std::stoull\<close>,
  \<^verbatim>\<open>std::getline\<close> over a whole file, and the part of \<^verbatim>\<open>std::regex\<close> (ECMAScript
  grammar, \<^verbatim>\<open>std::regex_match\<close>) that the two \<^verbatim>\<open>JSONL\<close> patterns use. The locale is the
  classic one throughout: the program never sets another.
\<close>

section \<open>Characters\<close>

definition char_code :: "char \<Rightarrow> nat" where
  "char_code c = of_char c"

definition is_space :: "char \<Rightarrow> bool" where
  "is_space c \<longleftrightarrow> char_code c = 32 \<or> 9 \<le> char_code c \<and> char_code c \<le> 13"

definition is_digit :: "char \<Rightarrow> bool" where
  "is_digit c \<longleftrightarrow> 48 \<le> char_code c \<and> char_code c \<le> 57"

definition is_hex_digit :: "char \<Rightarrow> bool" where
  "is_hex_digit c \<longleftrightarrow> is_digit c \<or> 65 \<le> char_code c \<and> char_code c \<le> 70
     \<or> 97 \<le> char_code c \<and> char_code c \<le> 102"

definition is_base_digit :: "nat \<Rightarrow> char \<Rightarrow> bool" where
  "is_base_digit base c \<longleftrightarrow> (if base = 16 then is_hex_digit c else is_digit c)"

definition digit_value :: "char \<Rightarrow> nat" where
  "digit_value c = (if char_code c \<le> 57 then char_code c - 48
     else if char_code c \<le> 70 then char_code c - 55 else char_code c - 87)"

definition digit_char :: "nat \<Rightarrow> char" where
  "digit_char d = char_of (if d < 10 then 48 + d else 87 + d)"

lemma char_code_digit_char:
  "d < 16 \<Longrightarrow> char_code (digit_char d) = (if d < 10 then 48 + d else 87 + d)"
  by (simp add: char_code_def digit_char_def)

lemma digit_value_digit_char [simp]: "d < 16 \<Longrightarrow> digit_value (digit_char d) = d"
  by (simp add: digit_value_def char_code_digit_char)

lemma is_digit_digit_char [simp]: "d < 10 \<Longrightarrow> is_digit (digit_char d)"
  by (simp add: is_digit_def char_code_digit_char)

lemma is_hex_digit_digit_char [simp]: "d < 16 \<Longrightarrow> is_hex_digit (digit_char d)"
  by (auto simp: is_hex_digit_def is_digit_def char_code_digit_char)

lemma is_base_digit_digit_char: "d < base \<Longrightarrow> base = 10 \<or> base = 16 \<Longrightarrow> is_base_digit base (digit_char d)"
  by (auto simp: is_base_digit_def)

lemma digit_not_space [simp]: "is_digit c \<Longrightarrow> \<not> is_space c"
  by (simp add: is_digit_def is_space_def)

lemma hex_digit_not_space [simp]: "is_hex_digit c \<Longrightarrow> \<not> is_space c"
  by (auto simp: is_hex_digit_def is_digit_def is_space_def)

lemma digit_value_bound: "is_hex_digit c \<Longrightarrow> digit_value c < 16"
  by (auto simp: is_hex_digit_def is_digit_def digit_value_def)

section \<open>Integers to text\<close>

fun num_string :: "nat \<Rightarrow> nat \<Rightarrow> string" where
  "num_string base n =
     (if base < 2 \<or> n < base then [digit_char n]
      else num_string base (n div base) @ [digit_char (n mod base)])"

declare num_string.simps [simp del]

text \<open>\<^verbatim>\<open>out << n\<close> and \<^verbatim>\<open>std::to_string(n)\<close>.\<close>

definition dec_string :: "nat \<Rightarrow> string" where
  "dec_string n = num_string 10 n"

text \<open>\<^verbatim>\<open>out << std::hex << std::setfill('0') << std::setw(2) << static_cast<int>(byte)\<close>.\<close>

definition setw :: "nat \<Rightarrow> char \<Rightarrow> string \<Rightarrow> string" where
  "setw w fill s = replicate (w - length s) fill @ s"

definition hex_byte :: "byte \<Rightarrow> string" where
  "hex_byte b = setw 2 (CHR ''0'') (num_string 16 (unat b))"

definition num_value :: "nat \<Rightarrow> string \<Rightarrow> nat" where
  "num_value base ds = foldl (\<lambda>v c. v * base + digit_value c) 0 ds"

lemma num_value_append_digit: "num_value base (ds @ [c]) = num_value base ds * base + digit_value c"
  by (simp add: num_value_def)

lemma num_string_nonempty [simp]: "num_string base n \<noteq> []"
  by (subst num_string.simps) simp

lemma num_string_digits:
  "base = 10 \<or> base = 16 \<Longrightarrow> c \<in> set (num_string base n) \<Longrightarrow> is_base_digit base c"
proof (induction base n rule: num_string.induct)
  case (1 base n)
  show ?case
  proof (cases "n < base")
    case True
    with 1 show ?thesis by (auto simp: num_string.simps [of base n] is_base_digit_digit_char)
  next
    case False
    with 1 show ?thesis by (auto simp: num_string.simps [of base n] is_base_digit_digit_char)
  qed
qed

lemma num_value_num_string [simp]:
  "2 \<le> base \<Longrightarrow> base \<le> 16 \<Longrightarrow> num_value base (num_string base n) = n"
proof (induction base n rule: num_string.induct)
  case (1 base n)
  show ?case
  proof (cases "n < base")
    case True
    with 1 show ?thesis by (simp add: num_string.simps [of base n] num_value_def)
  next
    case False
    have "n mod base < base" using 1 by simp
    then have "n mod base < 16" using "1.prems"(2) by (rule less_le_trans)
    with False 1 show ?thesis
      by (simp add: num_string.simps [of base n] num_value_append_digit)
  qed
qed

lemma dec_string_digits: "c \<in> set (dec_string n) \<Longrightarrow> is_digit c"
  using num_string_digits [of 10 c n] by (simp add: dec_string_def is_base_digit_def)

lemma dec_string_nonempty [simp]: "dec_string n \<noteq> []"
  by (simp add: dec_string_def)

lemma length_dec_string: "n < 10 ^ k \<Longrightarrow> 0 < k \<Longrightarrow> length (dec_string n) \<le> k"
  unfolding dec_string_def
proof (induction k arbitrary: n)
  case 0
  then show ?case by simp
next
  case (Suc k)
  show ?case
  proof (cases "n < 10")
    case True
    then show ?thesis by (simp add: num_string.simps [of 10 n])
  next
    case False
    then have "0 < k" using Suc.prems(1) by (cases k) simp_all
    moreover have "n div 10 < 10 ^ k" using Suc.prems(1) by (simp add: less_mult_imp_div_less mult.commute)
    ultimately show ?thesis using Suc.IH [of "n div 10"] False by (simp add: num_string.simps [of 10 n])
  qed
qed

lemma num_value_dec_string [simp]: "num_value 10 (dec_string n) = n"
  by (simp add: dec_string_def)

lemma dec_string_inject [simp]: "dec_string a = dec_string b \<longleftrightarrow> a = b"
  by (metis num_value_dec_string)

lemma hex_byte_eq: "hex_byte b = [digit_char (unat b div 16), digit_char (unat b mod 16)]"
proof -
  have "unat b < 256" by (rule unat_byte_less)
  then have "unat b div 16 < 16" by simp
  then have hi: "num_string 16 (unat b div 16) = [digit_char (unat b div 16)]"
    by (simp add: num_string.simps)
  have zero: "digit_char 0 = CHR ''0''" by code_simp
  show ?thesis
    using hi zero by (cases "unat b < 16") (simp_all add: hex_byte_def setw_def num_string.simps [of 16 "unat b"])
qed

lemma length_hex_byte [simp]: "length (hex_byte b) = 2"
  by (simp add: hex_byte_eq)

lemma hex_byte_digits: "c \<in> set (hex_byte b) \<Longrightarrow> is_hex_digit c"
  using unat_byte_less [of b] by (auto simp: hex_byte_eq)

lemma num_value_hex_byte [simp]: "num_value 16 (hex_byte b) = unat b"
proof -
  have "unat b < 256" by (rule unat_byte_less)
  then have "unat b div 16 < 16" by simp
  then show ?thesis by (simp add: hex_byte_eq num_value_def)
qed

section \<open>\<^verbatim>\<open>std::stoul\<close> and \<^verbatim>\<open>std::stoull\<close>\<close>

text \<open>
  \<^verbatim>\<open>strtoul\<close>: skip white space, an optional sign, for base 16 an optional \<^verbatim>\<open>0x\<close>, then
  the longest run of digits; what follows is ignored. No digit is \<^verbatim>\<open>std::invalid_argument\<close>,
  a value above \<^verbatim>\<open>ULONG_MAX\<close> (64 bits) is \<^verbatim>\<open>std::out_of_range\<close>, and a minus sign
  negates modulo \<open>2 ^ 64\<close>. The name is the \<^verbatim>\<open>what()\<close> text of libstdc++.
\<close>

definition strip_sign :: "string \<Rightarrow> bool \<times> string" where
  "strip_sign s = (case s of
     [] \<Rightarrow> (False, [])
   | c # r \<Rightarrow> if c = CHR ''-'' then (True, r) else if c = CHR ''+'' then (False, r) else (False, s))"

definition strip_0x :: "nat \<Rightarrow> string \<Rightarrow> string" where
  "strip_0x base s = (case s of
     z # x # d # r \<Rightarrow>
       if base = 16 \<and> z = CHR ''0'' \<and> (x = CHR ''x'' \<or> x = CHR ''X'') \<and> is_hex_digit d
       then d # r else s
   | _ \<Rightarrow> s)"

definition strto_digits :: "nat \<Rightarrow> string \<Rightarrow> bool \<times> string" where
  "strto_digits base s =
     (case strip_sign (dropWhile is_space s) of (neg, body) \<Rightarrow>
        (neg, takeWhile (is_base_digit base) (strip_0x base body)))"

definition sto_unsigned :: "string \<Rightarrow> nat \<Rightarrow> string \<Rightarrow> u64 result" where
  "sto_unsigned name base s =
     (case strto_digits base s of (neg, ds) \<Rightarrow>
        if ds = [] then Inl (InvalidArgument name)
        else if num_value base ds \<ge> 2 ^ 64 then Inl (OutOfRange name)
        else Inr (if neg then - word_of_nat (num_value base ds) else word_of_nat (num_value base ds)))"

definition stoul :: "nat \<Rightarrow> string \<Rightarrow> u64 result" where
  "stoul base s = sto_unsigned ''stoul'' base s"

definition stoull :: "nat \<Rightarrow> string \<Rightarrow> u64 result" where
  "stoull base s = sto_unsigned ''stoull'' base s"

lemma is_digit_not_sign: "is_hex_digit c \<Longrightarrow> c \<noteq> CHR ''-'' \<and> c \<noteq> CHR ''+'' \<and> c \<noteq> CHR ''x'' \<and> c \<noteq> CHR ''X''"
  by (auto simp: is_hex_digit_def is_digit_def char_code_def)

lemma is_base_digit_hex: "is_base_digit base c \<Longrightarrow> is_hex_digit c"
  by (auto simp: is_base_digit_def is_hex_digit_def split: if_splits)

lemma strto_digits_of_digits:
  assumes "\<And>c. c \<in> set ds \<Longrightarrow> is_base_digit base c"
  shows "strto_digits base ds = (False, ds)"
proof (cases ds)
  case Nil
  then show ?thesis by (simp add: strto_digits_def strip_sign_def strip_0x_def)
next
  case (Cons c r)
  have all: "\<And>c. c \<in> set ds \<Longrightarrow> is_hex_digit c"
    using assms is_base_digit_hex by blast
  then have ns: "dropWhile is_space ds = ds" using Cons by simp
  have sg: "strip_sign ds = (False, ds)"
    using Cons is_digit_not_sign [OF all [of c]] by (simp add: strip_sign_def)
  have "strip_0x base ds = ds"
    using all is_digit_not_sign by (auto simp: strip_0x_def Cons split: list.splits)
  moreover have "takeWhile (is_base_digit base) ds = ds"
    using assms by (simp add: takeWhile_eq_all_conv)
  ultimately show ?thesis by (simp add: strto_digits_def ns sg)
qed

lemma sto_unsigned_digits:
  "(\<And>c. c \<in> set ds \<Longrightarrow> is_base_digit base c) \<Longrightarrow> ds \<noteq> [] \<Longrightarrow> num_value base ds < 2 ^ 64 \<Longrightarrow>
     sto_unsigned name base ds = Inr (word_of_nat (num_value base ds))"
  by (simp add: sto_unsigned_def strto_digits_of_digits)

lemma sto_unsigned_dec_string [simp]:
  "n < 2 ^ 64 \<Longrightarrow> sto_unsigned name 10 (dec_string n) = Inr (word_of_nat n)"
  using sto_unsigned_digits [of "dec_string n" 10 name] dec_string_digits [of _ n]
  by (simp add: is_base_digit_def)

lemma sto_unsigned_hex_byte [simp]: "sto_unsigned name 16 (hex_byte b) = Inr (ucast b)"
proof -
  have "hex_byte b \<noteq> []" by (simp add: hex_byte_eq)
  moreover have "num_value 16 (hex_byte b) < 2 ^ 64"
    using unat_byte_less [of b] by simp
  ultimately show ?thesis
    using sto_unsigned_digits [of "hex_byte b" 16 name] hex_byte_digits [of _ b]
    by (simp add: is_base_digit_def)
qed

section \<open>\<^verbatim>\<open>std::getline\<close>\<close>

text \<open>
  The lines a \<^verbatim>\<open>while (std::getline(input, line))\<close> loop sees: the text between newlines, and
  a last line without a newline when it is not empty.
\<close>

function getlines :: "string \<Rightarrow> string list" where
  "getlines s =
     (if s = [] then []
      else takeWhile (\<lambda>c. c \<noteq> CHR ''\<newline>'') s
           # getlines (tl (dropWhile (\<lambda>c. c \<noteq> CHR ''\<newline>'') s)))"
  by pat_completeness auto
termination
proof (relation "measure length")
  fix s :: string assume "s \<noteq> []"
  have "length (dropWhile (\<lambda>c. c \<noteq> CHR ''\<newline>'') s) \<le> length s"
    by (rule length_dropWhile_le)
  with \<open>s \<noteq> []\<close> show "(tl (dropWhile (\<lambda>c. c \<noteq> CHR ''\<newline>'') s), s) \<in> measure length"
    by (cases s) auto
qed simp

declare getlines.simps [simp del]

lemma getlines_Nil [simp]: "getlines [] = []"
  by (simp add: getlines.simps)

lemma getlines_line:
  assumes "CHR ''\<newline>'' \<notin> set l"
  shows "getlines (l @ CHR ''\<newline>'' # rest) = l # getlines rest"
proof -
  have "takeWhile (\<lambda>c. c \<noteq> CHR ''\<newline>'') (l @ CHR ''\<newline>'' # rest) = l"
    and "dropWhile (\<lambda>c. c \<noteq> CHR ''\<newline>'') (l @ CHR ''\<newline>'' # rest) = CHR ''\<newline>'' # rest"
    using assms by (auto simp: takeWhile_append dropWhile_append)
  then show ?thesis by (simp add: getlines.simps [of "l @ CHR ''\<newline>'' # rest"])
qed

text \<open>The last line of a text that ends in no newline.\<close>

lemma getlines_last: "CHR ''\<newline>'' \<notin> set l \<Longrightarrow> getlines l = (if l = [] then [] else [l])"
proof -
  assume "CHR ''\<newline>'' \<notin> set l"
  then have "takeWhile (\<lambda>c. c \<noteq> CHR ''\<newline>'') l = l" and "dropWhile (\<lambda>c. c \<noteq> CHR ''\<newline>'') l = []"
    by (auto simp: takeWhile_eq_all_conv dropWhile_eq_Nil_conv)
  then show ?thesis by (simp only: getlines.simps [of l] list.sel getlines_Nil)
qed

lemma getlines_concat_last:
  assumes "\<And>l. l \<in> set ls \<Longrightarrow> CHR ''\<newline>'' \<notin> set l" and "CHR ''\<newline>'' \<notin> set t"
  shows "getlines (concat (map (\<lambda>l. l @ [CHR ''\<newline>'']) ls) @ t) = ls @ (if t = [] then [] else [t])"
  using assms(1) by (induction ls) (simp_all add: getlines_line getlines_last [OF assms(2)])

lemma getlines_concat:
  "(\<And>l. l \<in> set ls \<Longrightarrow> CHR ''\<newline>'' \<notin> set l) \<Longrightarrow>
     getlines (concat (map (\<lambda>l. l @ [CHR ''\<newline>'']) ls)) = ls"
  using getlines_concat_last [of ls "[]"] by simp

end
