(* ===== verification/Std_Regex.thy ===== *)
theory Std_Regex
  imports Std_Text
begin

text \<open>
  The part of \<^verbatim>\<open>std::regex\<close> the two \<^verbatim>\<open>JSONL\<close> patterns use, with
  \<^verbatim>\<open>std::regex_match\<close> (the whole line must match): literal characters, the classes
  \<^verbatim>\<open>\s\<close>, \<^verbatim>\<open>[0-9]\<close>, \<^verbatim>\<open>[0-9A-Fa-f]\<close> and \<^verbatim>\<open>[^"]\<close>, greedy counted
  repetition of a class, and capture groups around one repetition. The anchors \<^verbatim>\<open>^\<close> and
  \<^verbatim>\<open>$\<close> say nothing more under \<^verbatim>\<open>regex_match\<close>. \<open>re_match\<close> is the backtracking
  matcher; \<open>re_lang\<close> is what a pattern means; the lemmas show the matcher decides the language.
\<close>

section \<open>Patterns\<close>

datatype char_class = Space_Class | Digit_Class | Hex_Class | Not_Quote_Class

primrec in_class :: "char_class \<Rightarrow> char \<Rightarrow> bool" where
  "in_class Space_Class c = is_space c"
| "in_class Digit_Class c = is_digit c"
| "in_class Hex_Class c = is_hex_digit c"
| "in_class Not_Quote_Class c = (c \<noteq> CHR 0x22)"

text \<open>\<open>Rep cl lo hi\<close> repeats a class between \<open>lo\<close> and \<open>hi\<close> times; \<open>Group\<close> also captures it.\<close>

datatype re_item =
    Lit char
  | Rep char_class nat "nat option"
  | Group char_class nat "nat option"

definition re_literal :: "string \<Rightarrow> re_item list" where
  "re_literal s = map Lit s"

definition re_space_star :: "re_item list" where
  "re_space_star = [Rep Space_Class 0 None]"

definition within_max :: "nat option \<Rightarrow> nat \<Rightarrow> bool" where
  "within_max hi k = (case hi of None \<Rightarrow> True | Some m \<Rightarrow> k \<le> m)"

section \<open>The matcher\<close>

text \<open>Greedy: the longest admissible run first, then shorter ones down to the minimum.\<close>

fun longest_first :: "(nat \<Rightarrow> 'a option) \<Rightarrow> nat \<Rightarrow> nat \<Rightarrow> 'a option" where
  "longest_first f lo 0 = (if lo = 0 then f 0 else None)"
| "longest_first f lo (Suc k) =
     (if Suc k < lo then None
      else case f (Suc k) of None \<Rightarrow> longest_first f lo k | Some r \<Rightarrow> Some r)"

definition max_run :: "char_class \<Rightarrow> nat option \<Rightarrow> string \<Rightarrow> nat" where
  "max_run cl hi s =
     (let n = length (takeWhile (in_class cl) s)
      in case hi of None \<Rightarrow> n | Some m \<Rightarrow> min m n)"

primrec re_match :: "re_item list \<Rightarrow> string \<Rightarrow> string list option" where
  "re_match [] s = (if s = [] then Some [] else None)"
| "re_match (p # ps) s =
     (case p of
        Lit c \<Rightarrow> (case s of [] \<Rightarrow> None | d # r \<Rightarrow> if c = d then re_match ps r else None)
      | Rep cl lo hi \<Rightarrow> longest_first (\<lambda>k. re_match ps (drop k s)) lo (max_run cl hi s)
      | Group cl lo hi \<Rightarrow>
          longest_first (\<lambda>k. map_option ((#) (take k s)) (re_match ps (drop k s))) lo (max_run cl hi s))"

section \<open>The language of a pattern\<close>

inductive re_lang :: "re_item list \<Rightarrow> string \<Rightarrow> string list \<Rightarrow> bool" where
  re_nil: "re_lang [] [] []"
| re_lit: "re_lang ps s cs \<Longrightarrow> re_lang (Lit c # ps) (c # s) cs"
| re_rep: "list_all (in_class cl) w \<Longrightarrow> lo \<le> length w \<Longrightarrow> within_max hi (length w) \<Longrightarrow> re_lang ps s cs \<Longrightarrow>
     re_lang (Rep cl lo hi # ps) (w @ s) cs"
| re_group: "list_all (in_class cl) w \<Longrightarrow> lo \<le> length w \<Longrightarrow> within_max hi (length w) \<Longrightarrow> re_lang ps s cs \<Longrightarrow>
     re_lang (Group cl lo hi # ps) (w @ s) (w # cs)"

inductive_cases re_lang_NilE: "re_lang [] s cs"
inductive_cases re_lang_LitE: "re_lang (Lit c # ps) s cs"
inductive_cases re_lang_RepE: "re_lang (Rep cl lo hi # ps) s cs"
inductive_cases re_lang_GroupE: "re_lang (Group cl lo hi # ps) s cs"

lemma longest_first_Some:
  "longest_first f lo k = Some r \<Longrightarrow> \<exists>i\<le>k. lo \<le> i \<and> f i = Some r"
proof (induction k)
  case 0
  then show ?case by (auto split: if_splits)
next
  case (Suc k)
  then show ?case
    by (cases "f (Suc k)") (auto split: if_splits intro: le_SucI)
qed

lemma longest_first_exists:
  "i \<le> k \<Longrightarrow> lo \<le> i \<Longrightarrow> f i \<noteq> None \<Longrightarrow> longest_first f lo k \<noteq> None"
proof (induction k)
  case 0
  then show ?case by auto
next
  case (Suc k)
  then show ?case
    by (cases "f (Suc k)") (auto simp: le_Suc_eq)
qed

lemma longest_first_top:
  "lo \<le> k \<Longrightarrow> f k = Some r \<Longrightarrow> longest_first f lo k = Some r"
  by (cases k) auto

lemma max_run_admits:
  assumes "k \<le> max_run cl hi s"
  shows "list_all (in_class cl) (take k s)" and "within_max hi k" and "length (take k s) = k"
proof -
  have k: "k \<le> length (takeWhile (in_class cl) s)"
    using assms by (auto simp: max_run_def Let_def split: option.splits)
  have "take k s = take k (takeWhile (in_class cl) s)"
    using k by (metis takeWhile_eq_take take_take min.absorb1)
  then show "list_all (in_class cl) (take k s)"
    by (metis in_set_takeD list.pred_set set_takeWhileD)
  show "within_max hi k"
    using assms by (auto simp: max_run_def within_max_def Let_def split: option.splits)
  show "length (take k s) = k"
    using k length_takeWhile_le [of "in_class cl" s] by simp
qed

lemma run_within_max_run:
  assumes "list_all (in_class cl) w" and "within_max hi (length w)"
  shows "length w \<le> max_run cl hi (w @ s)"
proof -
  have "takeWhile (in_class cl) (w @ s) = w @ takeWhile (in_class cl) s"
    using assms(1) by (simp add: list_all_iff)
  then show ?thesis
    using assms(2) by (auto simp: max_run_def within_max_def Let_def split: option.splits)
qed

lemma re_match_sound: "re_match ps s = Some cs \<Longrightarrow> re_lang ps s cs"
proof (induction ps arbitrary: s cs)
  case Nil
  then show ?case by (auto intro: re_lang.intros split: if_splits)
next
  case (Cons p ps)
  show ?case
  proof (cases p)
    case (Lit c)
    with Cons show ?thesis by (auto intro: re_lang.intros split: list.splits if_splits)
  next
    case (Rep cl lo hi)
    with Cons.prems obtain k where k: "k \<le> max_run cl hi s" "lo \<le> k" "re_match ps (drop k s) = Some cs"
      by (auto dest: longest_first_Some)
    have "re_lang (Rep cl lo hi # ps) (take k s @ drop k s) cs"
      using k max_run_admits [OF k(1)] by (intro re_rep Cons.IH) auto
    then show ?thesis using Rep by simp
  next
    case (Group cl lo hi)
    with Cons.prems obtain k cs' where k: "k \<le> max_run cl hi s" "lo \<le> k"
      and m: "re_match ps (drop k s) = Some cs'" "cs = take k s # cs'"
      by (auto dest!: longest_first_Some)
    have "re_lang (Group cl lo hi # ps) (take k s @ drop k s) (take k s # cs')"
      using k m(1) max_run_admits [OF k(1)] by (intro re_group Cons.IH) auto
    then show ?thesis using Group m(2) by simp
  qed
qed

lemma re_match_complete: "re_lang ps s cs \<Longrightarrow> re_match ps s \<noteq> None"
proof (induction rule: re_lang.induct)
  case re_nil
  then show ?case by simp
next
  case (re_lit ps s cs c)
  then show ?case by simp
next
  case (re_rep cl w lo hi ps s cs)
  have "length w \<le> max_run cl hi (w @ s)"
    using re_rep by (intro run_within_max_run)
  then show ?case
    using re_rep.hyps(2) re_rep.IH
      longest_first_exists [of "length w" "max_run cl hi (w @ s)" lo "\<lambda>k. re_match ps (drop k (w @ s))"]
    by simp
next
  case (re_group cl w lo hi ps s cs)
  have "length w \<le> max_run cl hi (w @ s)"
    using re_group by (intro run_within_max_run)
  then show ?case
    using re_group.hyps(2) re_group.IH
      longest_first_exists [of "length w" "max_run cl hi (w @ s)" lo
        "\<lambda>k. map_option ((#) (take k (w @ s))) (re_match ps (drop k (w @ s)))"]
    by simp
qed

section \<open>Matching text that was printed\<close>

text \<open>
  When the character after a run is outside the class, the greedy choice is the only one. These
  rules drive the matcher over a printed line.
\<close>

definition stops_class :: "char_class \<Rightarrow> string \<Rightarrow> bool" where
  "stops_class cl s \<longleftrightarrow> (case s of [] \<Rightarrow> True | c # _ \<Rightarrow> \<not> in_class cl c)"

lemma takeWhile_stops:
  "list_all (in_class cl) w \<Longrightarrow> stops_class cl s \<Longrightarrow> takeWhile (in_class cl) (w @ s) = w"
  by (cases s) (auto simp: list_all_iff stops_class_def)

lemma re_match_Lit [simp]:
  "re_match (Lit c # ps) [] = None"
  "re_match (Lit c # ps) (d # r) = (if c = d then re_match ps r else None)"
  by simp_all

lemma re_match_space_star [simp]:
  "re_match (Rep Space_Class 0 None # ps) [] = re_match ps []"
  "\<not> is_space c \<Longrightarrow> re_match (Rep Space_Class 0 None # ps) (c # s) = re_match ps (c # s)"
  by (simp_all add: max_run_def)

lemma max_run_stops:
  "list_all (in_class cl) w \<Longrightarrow> stops_class cl s \<Longrightarrow> within_max hi (length w) \<Longrightarrow>
     max_run cl hi (w @ s) = length w"
  by (auto simp: max_run_def takeWhile_stops within_max_def Let_def split: option.splits)

lemma re_match_rep:
  assumes "list_all (in_class cl) w" and "lo \<le> length w" and "within_max hi (length w)"
    and "stops_class cl s" and "re_match ps s = Some cs"
  shows "re_match (Rep cl lo hi # ps) (w @ s) = Some cs"
  using assms by (simp add: max_run_stops longest_first_top)

lemma re_match_group:
  assumes "list_all (in_class cl) w" and "lo \<le> length w" and "within_max hi (length w)"
    and "stops_class cl s" and "re_match ps s = Some cs"
  shows "re_match (Group cl lo hi # ps) (w @ s) = Some (w # cs)"
  using assms by (simp add: max_run_stops longest_first_top)

declare re_match.simps(2) [simp del]

text \<open>Printed digits start with a digit, so no white space is skipped before them.\<close>

lemma re_match_space_star_append [simp]:
  assumes "w \<noteq> []" and "\<not> is_space (hd w)"
  shows "re_match (Rep Space_Class 0 None # ps) (w @ s) = re_match ps (w @ s)"
  using assms by (cases w) simp_all

lemma json_punctuation_not_space [simp]:
  "\<not> is_space CHR ''{''" "\<not> is_space CHR ''}''" "\<not> is_space CHR '':''" "\<not> is_space CHR '',''"
  "\<not> is_space CHR 0x22"
  by (simp_all add: is_space_def char_code_def)

lemma json_punctuation_not_digit [simp]:
  "\<not> is_digit CHR ''}''" "\<not> is_digit CHR '',''" "\<not> is_hex_digit CHR 0x22"
  by (simp_all add: is_digit_def is_hex_digit_def char_code_def)

lemma dec_string_not_space [simp]: "\<not> is_space (hd (dec_string n))"
  using dec_string_digits [of "hd (dec_string n)" n] by simp

lemma dec_string_all_digits [simp]: "list_all is_digit (dec_string n)"
  using dec_string_digits by (auto simp: list_all_iff)

lemma in_class_fun:
  "in_class Digit_Class = is_digit"
  "in_class Hex_Class = is_hex_digit"
  "in_class Not_Quote_Class = (\<lambda>c. c \<noteq> CHR 0x22)"
  by (rule ext, simp)+

lemmas re_print_simps = in_class_fun re_literal_def re_space_star_def stops_class_def within_max_def Suc_le_eq

section \<open>Captures\<close>

definition is_group :: "re_item \<Rightarrow> bool" where
  "is_group p = (case p of Group _ _ _ \<Rightarrow> True | _ \<Rightarrow> False)"

lemma re_lang_captures: "re_lang ps s cs \<Longrightarrow> length cs = length (filter is_group ps)"
  by (induction rule: re_lang.induct) (simp_all add: is_group_def)

text \<open>A text in the language holds every character the pattern names literally.\<close>

lemma re_lang_literal: "re_lang ps s cs \<Longrightarrow> Lit c \<in> set ps \<Longrightarrow> c \<in> set s"
  by (induction rule: re_lang.induct) auto

lemma re_match_literal: "re_match ps s = Some cs \<Longrightarrow> Lit c \<in> set ps \<Longrightarrow> c \<in> set s"
  by (rule re_lang_literal [OF re_match_sound])

lemma re_match_iff_lang: "re_match ps s \<noteq> None \<longleftrightarrow> (\<exists>cs. re_lang ps s cs)"
  using re_match_sound re_match_complete by fastforce

lemma re_match_None_iff: "re_match ps s = None \<longleftrightarrow> \<not> (\<exists>cs. re_lang ps s cs)"
  using re_match_iff_lang by blast

section \<open>Tokens with white space between them\<close>

text \<open>
  What the patterns say of a line, without patterns: the line is a sequence of tokens, with any white space
  before, between and after them. The rules read a pattern as such a sequence, one token at a time.
\<close>

inductive spaced :: "string list \<Rightarrow> string \<Rightarrow> bool" where
  spaced_end: "list_all is_space w \<Longrightarrow> spaced [] w"
| spaced_token: "list_all is_space w \<Longrightarrow> spaced ts rest \<Longrightarrow> spaced (t # ts) (w @ t @ rest)"

inductive_simps spaced_simps: "spaced [] line" "spaced (t # ts) line"

lemma re_lang_Nil_iff: "re_lang [] s cs \<longleftrightarrow> s = [] \<and> cs = []"
  by (auto intro: re_lang.intros elim: re_lang_NilE)

lemma re_lang_literal_iff: "re_lang (re_literal t @ ps) s cs \<longleftrightarrow> (\<exists>r. s = t @ r \<and> re_lang ps r cs)"
proof (induction t arbitrary: s)
  case Nil
  then show ?case by (simp add: re_literal_def)
next
  case (Cons c t)
  have "re_lang (Lit c # (re_literal t @ ps)) s cs \<longleftrightarrow> (\<exists>r. s = c # r \<and> re_lang (re_literal t @ ps) r cs)"
    by (auto intro: re_lang.intros elim: re_lang_LitE)
  with Cons show ?case by (auto simp: re_literal_def)
qed

lemma re_lang_space_iff:
  "re_lang (re_space_star @ ps) s cs \<longleftrightarrow> (\<exists>w r. s = w @ r \<and> list_all is_space w \<and> re_lang ps r cs)"
proof -
  have space: "in_class Space_Class = is_space" by (rule ext) simp
  show ?thesis
    by (auto simp: re_space_star_def within_max_def space intro!: re_rep elim!: re_lang_RepE) blast
qed

lemma re_lang_group_iff:
  "re_lang (Group cl lo hi # ps) s (c # cs) \<longleftrightarrow>
     (\<exists>r. s = c @ r \<and> list_all (in_class cl) c \<and> lo \<le> length c \<and> within_max hi (length c) \<and> re_lang ps r cs)"
  by (auto intro: re_group elim: re_lang_GroupE)

lemma spaced_lang_end: "re_lang re_space_star r [] \<longleftrightarrow> spaced [] r"
  using re_lang_space_iff [of "[]" r "[]"] by (simp add: re_lang_Nil_iff spaced_simps)

lemma spaced_lang_literal:
  assumes "\<And>r. re_lang ps r cs \<longleftrightarrow> P \<and> spaced ts r"
  shows "re_lang (re_space_star @ re_literal t @ ps) line cs \<longleftrightarrow> P \<and> spaced (t # ts) line"
  by (auto simp: re_lang_space_iff re_lang_literal_iff spaced_simps assms)

lemma spaced_lang_group:
  assumes "\<And>r. re_lang ps r cs \<longleftrightarrow> P \<and> spaced ts r"
  shows "re_lang (re_space_star @ Group cl lo hi # ps) line (c # cs) \<longleftrightarrow>
    (list_all (in_class cl) c \<and> lo \<le> length c \<and> within_max hi (length c) \<and> P) \<and> spaced (c # ts) line"
  by (auto simp: re_lang_space_iff re_lang_group_iff spaced_simps assms)

lemma spaced_lang_quoted:
  assumes "\<And>r. re_lang ps r cs \<longleftrightarrow> P \<and> spaced ts r"
  shows "re_lang (re_space_star @ re_literal q @ Group cl lo hi # re_literal q' @ ps) line (c # cs) \<longleftrightarrow>
    (list_all (in_class cl) c \<and> lo \<le> length c \<and> within_max hi (length c) \<and> P) \<and> spaced ((q @ c @ q') # ts) line"
  by (simp add: re_lang_space_iff re_lang_literal_iff re_lang_group_iff spaced_simps assms) blast

text \<open>
  Where the first character after a run is outside its class, the matcher finds just these captures.
\<close>

lemma match_spaces: "list_all is_space w \<Longrightarrow> stops_class Space_Class r \<Longrightarrow> re_match ps r = Some cs \<Longrightarrow>
    re_match (re_space_star @ ps) (w @ r) = Some cs"
  using re_match_rep [of Space_Class w 0 None r ps cs]
  by (simp add: re_space_star_def within_max_def list_all_iff)

lemma match_literal: "re_match ps r = Some cs \<Longrightarrow> re_match (re_literal t @ ps) (t @ r) = Some cs"
  by (induction t) (simp_all add: re_literal_def)

lemma spaced_stops:
  assumes "spaced (t # ts) r" and "t \<noteq> []" and "\<not> in_class cl (hd t)"
    and "\<And>c. is_space c \<Longrightarrow> \<not> in_class cl c"
  shows "stops_class cl r"
proof -
  obtain w r' where "r = w @ t @ r'" "list_all is_space w" using assms(1) by (auto simp: spaced_simps)
  with assms(2-4) show ?thesis by (cases w; cases t) (simp_all add: stops_class_def)
qed

lemma spaced_match_end: "spaced [] r \<Longrightarrow> re_match re_space_star r = Some []"
  using match_spaces [of r "[]" "[]" "[]"] by (simp add: spaced_simps stops_class_def)

lemma spaced_match_literal:
  assumes "spaced (t # ts) line" and "t \<noteq> []" and "\<not> is_space (hd t)"
    and "\<And>r. spaced ts r \<Longrightarrow> re_match ps r = Some cs"
  shows "re_match (re_space_star @ re_literal t @ ps) line = Some cs"
proof -
  obtain w r where l: "line = w @ t @ r" "list_all is_space w" "spaced ts r"
    using assms(1) by (auto simp: spaced_simps)
  have "stops_class Space_Class (t @ r)" using assms(2,3) by (cases t) (simp_all add: stops_class_def)
  then show ?thesis
    unfolding l(1) by (intro match_spaces match_literal l(2) assms(4) l(3))
qed

lemma spaced_match_group:
  assumes "spaced (c # ts) line" and "c \<noteq> []" and "\<not> is_space (hd c)"
    and "list_all (in_class cl) c" and "lo \<le> length c" and "within_max hi (length c)"
    and "\<And>r. spaced ts r \<Longrightarrow> stops_class cl r"
    and "\<And>r. spaced ts r \<Longrightarrow> re_match ps r = Some cs"
  shows "re_match (re_space_star @ Group cl lo hi # ps) line = Some (c # cs)"
proof -
  obtain w r where l: "line = w @ c @ r" "list_all is_space w" "spaced ts r"
    using assms(1) by (auto simp: spaced_simps)
  have "stops_class Space_Class (c @ r)" using assms(2,3) by (cases c) (simp_all add: stops_class_def)
  then show ?thesis
    unfolding l(1) by (intro match_spaces re_match_group l(2) assms(4-8) l(3))
qed

lemma spaced_match_quoted:
  assumes "spaced ((q @ c @ q') # ts) line" and "q \<noteq> []" and "\<not> is_space (hd q)"
    and "list_all (in_class cl) c" and "lo \<le> length c" and "within_max hi (length c)"
    and "\<And>r. stops_class cl (q' @ r)"
    and "\<And>r. spaced ts r \<Longrightarrow> re_match ps r = Some cs"
  shows "re_match (re_space_star @ re_literal q @ Group cl lo hi # re_literal q' @ ps) line = Some (c # cs)"
proof -
  obtain w r where l: "line = w @ q @ c @ q' @ r" "list_all is_space w" "spaced ts r"
    using assms(1) by (auto simp: spaced_simps)
  have "stops_class Space_Class (q @ c @ q' @ r)" using assms(2,3) by (cases q) (simp_all add: stops_class_def)
  then show ?thesis
    unfolding l(1) by (intro match_spaces match_literal re_match_group l(2) assms(4-8) l(3))
qed

end
