(* ===== verification/Std_Time.thy ===== *)
theory Std_Time
  imports Std_Text
begin

text \<open>
  The calendar functions behind \<^verbatim>\<open>parse_utc_timestamp\<close>: \<^verbatim>\<open>std::get_time\<close>, which
  reads each field as POSIX \<^verbatim>\<open>strptime\<close> does (up to the field's width in digits, leading
  zeros not required, the value in the field's range, literal characters up to case, what follows the
  last directive left in the stream), and \<^verbatim>\<open>timegm\<close>, which counts seconds from 1970 in the
  proleptic Gregorian calendar and normalises a day past the end of its month. Implementations differ on
  fields written with fewer digits than their width; no property of the development rests on one.
\<close>

record tm =
  tm_year :: int
  tm_mon :: int
  tm_mday :: int
  tm_hour :: int
  tm_min :: int
  tm_sec :: int

definition tm_zero :: tm where
  "tm_zero = \<lparr>tm_year = 0, tm_mon = 0, tm_mday = 0, tm_hour = 0, tm_min = 0, tm_sec = 0\<rparr>"

section \<open>\<^verbatim>\<open>std::get_time\<close>\<close>

datatype time_directive = Year | Month | Day | Hour | Minute | Second | Lit_Char char

definition to_lower :: "char \<Rightarrow> char" where
  "to_lower c = (if 65 \<le> char_code c \<and> char_code c \<le> 90 then char_of (char_code c + 32) else c)"

definition read_number :: "nat \<Rightarrow> nat \<Rightarrow> nat \<Rightarrow> string \<Rightarrow> (nat \<times> string) option" where
  "read_number width lo hi s =
     (let ds = takeWhile is_digit (take width s); v = num_value 10 ds
      in if ds = [] \<or> v < lo \<or> hi < v then None else Some (v, drop (length ds) s))"

definition read_directive :: "time_directive \<Rightarrow> tm \<Rightarrow> string \<Rightarrow> (tm \<times> string) option" where
  "read_directive d t s = (case d of
     Year \<Rightarrow> map_option (map_prod (\<lambda>v. t\<lparr>tm_year := int v - 1900\<rparr>) id) (read_number 4 0 9999 s)
   | Month \<Rightarrow> map_option (map_prod (\<lambda>v. t\<lparr>tm_mon := int v - 1\<rparr>) id) (read_number 2 1 12 s)
   | Day \<Rightarrow> map_option (map_prod (\<lambda>v. t\<lparr>tm_mday := int v\<rparr>) id) (read_number 2 1 31 s)
   | Hour \<Rightarrow> map_option (map_prod (\<lambda>v. t\<lparr>tm_hour := int v\<rparr>) id) (read_number 2 0 23 s)
   | Minute \<Rightarrow> map_option (map_prod (\<lambda>v. t\<lparr>tm_min := int v\<rparr>) id) (read_number 2 0 59 s)
   | Second \<Rightarrow> map_option (map_prod (\<lambda>v. t\<lparr>tm_sec := int v\<rparr>) id) (read_number 2 0 60 s)
   | Lit_Char c \<Rightarrow> (case s of [] \<Rightarrow> None
                   | x # r \<Rightarrow> if to_lower x = to_lower c then Some (t, r) else None))"

primrec read_format :: "time_directive list \<Rightarrow> tm \<Rightarrow> string \<Rightarrow> tm option" where
  "read_format [] t s = Some t"
| "read_format (d # ds) t s =
     (case read_directive d t s of None \<Rightarrow> None | Some (t', r) \<Rightarrow> read_format ds t' r)"

text \<open>\<^verbatim>\<open>"%Y-%m-%dT%H:%M:%SZ"\<close>; the stream extraction skips leading white space first.\<close>

definition utc_format :: "time_directive list" where
  "utc_format = [Year, Lit_Char CHR ''-'', Month, Lit_Char CHR ''-'', Day, Lit_Char CHR ''T'',
     Hour, Lit_Char CHR '':'', Minute, Lit_Char CHR '':'', Second, Lit_Char CHR ''Z'']"

definition get_time_utc :: "string \<Rightarrow> tm option" where
  "get_time_utc text = read_format utc_format tm_zero (dropWhile is_space text)"

section \<open>\<^verbatim>\<open>timegm\<close>\<close>

definition is_leap :: "int \<Rightarrow> bool" where
  "is_leap y \<longleftrightarrow> y mod 4 = 0 \<and> (y mod 100 \<noteq> 0 \<or> y mod 400 = 0)"

text \<open>Days from 1 January of year 0 to 1 January of year \<open>y\<close>; 719528 of them before 1970.\<close>

definition days_before_year :: "int \<Rightarrow> int" where
  "days_before_year y = 365 * y + (y + 3) div 4 - (y + 99) div 100 + (y + 399) div 400"

definition month_offsets :: "int list" where
  "month_offsets = [0, 31, 59, 90, 120, 151, 181, 212, 243, 273, 304, 334]"

definition days_before_month :: "int \<Rightarrow> int \<Rightarrow> int" where
  "days_before_month y mon =
     month_offsets ! nat mon + (if is_leap y \<and> 2 \<le> mon then 1 else 0)"

definition day_number :: "int \<Rightarrow> int \<Rightarrow> int \<Rightarrow> int" where
  "day_number y mon mday = days_before_year y - 719528 + days_before_month y mon + (mday - 1)"

definition timegm :: "tm \<Rightarrow> int" where
  "timegm t = ((day_number (tm_year t + 1900) (tm_mon t) (tm_mday t) * 24 + tm_hour t) * 60
     + tm_min t) * 60 + tm_sec t"

section \<open>The calendar\<close>

lemma div_step:
  fixes y n m :: int
  assumes "0 < n" and m: "m = n - 1"
  shows "(y + 1 + m) div n = (y + m) div n + (if y mod n = 0 then 1 else 0)"
proof -
  define q r where "q = y div n" and "r = y mod n"
  have y: "y = n * q + r" and r: "0 \<le> r" "r < n"
    using assms(1) by (simp_all add: q_def r_def)
  have next_step: "(y + 1 + m) div n = q + 1"
  proof -
    have "y + 1 + m = n * (q + 1) + r" by (simp add: y m algebra_simps)
    then show ?thesis using assms(1) r by simp
  qed
  have this_step: "(y + m) div n = (if r = 0 then q else q + 1)"
  proof (cases "r = 0")
    case True
    then have "y + m = n * q + (n - 1)" by (simp add: y m)
    then show ?thesis using assms(1) True by simp
  next
    case False
    have "y + m = n * (q + 1) + (r - 1)" by (simp add: y m algebra_simps)
    then show ?thesis using assms(1) r False by simp
  qed
  show ?thesis unfolding next_step this_step r_def by simp
qed

lemma leap_moduli:
  "(y :: int) mod 400 = 0 \<Longrightarrow> y mod 100 = 0"
  "(y :: int) mod 100 = 0 \<Longrightarrow> y mod 4 = 0"
  using dvd_trans [of 100 400 y] dvd_trans [of 4 100 y] by (simp_all add: dvd_eq_mod_eq_0)

lemma leap_sum:
  fixes y :: int
  shows "(C \<Longrightarrow> B) \<Longrightarrow> (B \<Longrightarrow> A) \<Longrightarrow> a = a' + (if A then 1 else 0) \<Longrightarrow>
    b = b' + (if B then 1 else 0) \<Longrightarrow> c = c' + (if C then 1 else 0) \<Longrightarrow>
    365 * (y + 1) + a - b + c = 365 * y + a' - b' + c' + (if A \<and> (\<not> B \<or> C) then 366 else 365)"
  by (cases A; cases B; cases C) simp_all

lemma days_before_year_Suc:
  "days_before_year (y + 1) = days_before_year y + (if is_leap y then 366 else 365)"
proof -
  have "(y + 1 + 3) div 4 = (y + 3) div 4 + (if y mod 4 = 0 then 1 else 0)"
    and "(y + 1 + 99) div 100 = (y + 99) div 100 + (if y mod 100 = 0 then 1 else 0)"
    and "(y + 1 + 399) div 400 = (y + 399) div 400 + (if y mod 400 = 0 then 1 else 0)"
    by (rule div_step; simp)+
  note steps = this
  show ?thesis
    unfolding days_before_year_def is_leap_def
    by (rule leap_sum [OF leap_moduli steps])
qed

definition days_in_month :: "int \<Rightarrow> int \<Rightarrow> int" where
  "days_in_month y mon =
     (if mon = 1 then (if is_leap y then 29 else 28)
      else if mon \<in> {3, 5, 8, 10} then 30 else 31)"

lemma days_before_month_Suc:
  assumes "0 \<le> mon" and "mon < 11"
  shows "days_before_month y (mon + 1) = days_before_month y mon + days_in_month y mon"
proof -
  have "mon \<in> {0, 1, 2, 3, 4, 5, 6, 7, 8, 9, 10}" using assms by simp arith
  then show ?thesis
    by (auto simp: days_before_month_def days_in_month_def month_offsets_def)
qed

text \<open>The day after each day has the next number: over month ends and year ends too.\<close>

lemma day_number_next_day: "day_number y mon (mday + 1) = day_number y mon mday + 1"
  by (simp add: day_number_def)

lemma day_number_next_month:
  "0 \<le> mon \<Longrightarrow> mon < 11 \<Longrightarrow> day_number y (mon + 1) 1 = day_number y mon (days_in_month y mon) + 1"
  by (simp add: day_number_def days_before_month_Suc)

lemma day_number_next_year: "day_number (y + 1) 0 1 = day_number y 11 31 + 1"
  by (simp add: day_number_def days_before_year_Suc days_before_month_def month_offsets_def)

lemma day_number_epoch: "day_number 1970 0 1 = 0"
  by (simp add: day_number_def days_before_year_def days_before_month_def month_offsets_def)

lemma days_before_year_mono: "a \<le> b \<Longrightarrow> days_before_year a \<le> days_before_year b"
proof (induction b rule: int_ge_induct)
  case base
  then show ?case by simp
next
  case (step i)
  then show ?case by (simp add: days_before_year_Suc)
qed

lemma timegm_nonneg:
  assumes "70 \<le> tm_year t" and "0 \<le> tm_mon t" and "tm_mon t \<le> 11" and "1 \<le> tm_mday t"
    and "0 \<le> tm_hour t" and "0 \<le> tm_min t" and "0 \<le> tm_sec t"
  shows "0 \<le> timegm t"
proof -
  have "days_before_year 1970 = 719528" by (simp add: days_before_year_def)
  then have "719528 \<le> days_before_year (tm_year t + 1900)"
    using days_before_year_mono [of 1970 "tm_year t + 1900"] assms(1) by simp
  moreover have "tm_mon t \<in> {0, 1, 2, 3, 4, 5, 6, 7, 8, 9, 10, 11}"
    using assms(2,3) by simp arith
  then have "0 \<le> days_before_month (tm_year t + 1900) (tm_mon t)"
    by (auto simp: days_before_month_def month_offsets_def)
  ultimately have "0 \<le> day_number (tm_year t + 1900) (tm_mon t) (tm_mday t)"
    using assms(4) by (simp add: day_number_def)
  then show ?thesis using assms by (simp add: timegm_def)
qed

section \<open>Timestamps in canonical form\<close>

text \<open>\<open>pad_dec w n\<close> prints \<open>n\<close> with leading zeros; \<open>utc_text\<close> is the canonical form.\<close>

definition pad_dec :: "nat \<Rightarrow> nat \<Rightarrow> string" where
  "pad_dec w n = setw w (CHR ''0'') (dec_string n)"

definition utc_text :: "nat \<Rightarrow> nat \<Rightarrow> nat \<Rightarrow> nat \<Rightarrow> nat \<Rightarrow> nat \<Rightarrow> string" where
  "utc_text y mo d h mi s = pad_dec 4 y @ ''-'' @ pad_dec 2 mo @ ''-'' @ pad_dec 2 d @ ''T''
     @ pad_dec 2 h @ '':'' @ pad_dec 2 mi @ '':'' @ pad_dec 2 s @ ''Z''"

lemma num_string_length:
  "2 \<le> base \<Longrightarrow> 0 < w \<Longrightarrow> n < base ^ w \<Longrightarrow> length (num_string base n) \<le> w"
proof (induction base n arbitrary: w rule: num_string.induct)
  case (1 base n)
  show ?case
  proof (cases "n < base")
    case True
    with "1.prems" show ?thesis by (simp add: num_string.simps [of base n] Suc_le_eq)
  next
    case False
    with "1.prems" have "w \<noteq> 1" by auto
    with "1.prems"(2) obtain v where w: "w = Suc v" "0 < v" by (cases w) auto
    have "n div base < base ^ v"
      using "1.prems" w by (simp add: less_mult_imp_div_less mult.commute)
    then have "length (num_string base (n div base)) \<le> v"
      using "1.IH" False "1.prems"(1) w(2) by simp
    then show ?thesis using False "1.prems"(1) w by (simp add: num_string.simps [of base n])
  qed
qed

lemma num_value_zeros: "num_value b (replicate k (CHR ''0'') @ ds) = num_value b ds"
proof -
  have z: "digit_value (CHR ''0'') = 0" by code_simp
  have "foldl (\<lambda>v c. v * b + digit_value c) 0 (replicate k (CHR ''0'')) = 0"
    by (induction k) (simp_all add: z)
  then show ?thesis by (simp add: num_value_def)
qed

lemma pad_dec_facts:
  assumes "0 < w" and "n < 10 ^ w"
  shows "length (pad_dec w n) = w" and "list_all is_digit (pad_dec w n)" and "num_value 10 (pad_dec w n) = n"
proof -
  have "length (dec_string n) \<le> w"
    using num_string_length [of 10 w n] assms by (simp add: dec_string_def)
  then show "length (pad_dec w n) = w" by (simp add: pad_dec_def setw_def)
  have "is_digit (CHR ''0'')" by code_simp
  then show "list_all is_digit (pad_dec w n)"
    using dec_string_digits by (auto simp: pad_dec_def setw_def list_all_iff)
  show "num_value 10 (pad_dec w n) = n"
    by (simp add: pad_dec_def setw_def num_value_zeros)
qed

lemma read_number_pad_dec:
  assumes "0 < w" and "n < 10 ^ w" and "lo \<le> n" and "n \<le> hi"
  shows "read_number w lo hi (pad_dec w n @ s) = Some (n, s)"
proof -
  note f = pad_dec_facts [OF assms(1,2)]
  have tw: "takeWhile is_digit (pad_dec w n) = pad_dec w n"
    using f(2) by (simp add: takeWhile_eq_all_conv list_all_iff)
  have "pad_dec w n \<noteq> []" using f(1) assms(1) by auto
  then show ?thesis using f assms by (simp add: read_number_def Let_def tw)
qed

lemma pad_dec_no_space: "0 < w \<Longrightarrow> n < 10 ^ w \<Longrightarrow> dropWhile is_space (pad_dec w n @ s) = pad_dec w n @ s"
  using pad_dec_facts(1,2) [of w n] by (cases "pad_dec w n") auto

lemma get_time_utc_text:
  assumes "y \<le> 9999" and "1 \<le> mo" and "mo \<le> 12" and "1 \<le> d" and "d \<le> 31"
    and "h \<le> 23" and "mi \<le> 59" and "s \<le> 60"
  shows "get_time_utc (utc_text y mo d h mi s @ rest) =
    Some \<lparr>tm_year = int y - 1900, tm_mon = int mo - 1, tm_mday = int d,
          tm_hour = int h, tm_min = int mi, tm_sec = int s\<rparr>"
  using assms
  by (simp add: get_time_utc_def utc_text_def utc_format_def read_directive_def
      pad_dec_no_space read_number_pad_dec tm_zero_def)

end
