(* ===== verification/Event_Log.thy ===== *)
theory Event_Log
  imports Batch Std_Regex Std_Time
begin

text \<open>
  The event log: \<^verbatim>\<open>include/asm/event_log.hpp\<close> and \<^verbatim>\<open>src/asm/event_log.cpp\<close>.
  Event records, the two providers behind the \<^verbatim>\<open>EventLogStore\<close> interface (in memory, and
  read from a \<^verbatim>\<open>JSONL\<close> file), the XML rendering, and the \<^verbatim>\<open>GetEventList\<close> and
  \<^verbatim>\<open>GetEventID\<close> payload codecs. The interface is the record \<open>event_log_store\<close> (the
  virtual functions), its promises the locale \<open>event_log_contract\<close>.
\<close>

section \<open>Records and XML\<close>

datatype event_severity = sev_info | sev_warning | sev_error

definition event_severity_to_string :: "event_severity \<Rightarrow> string" where
  "event_severity_to_string severity =
     (case severity of sev_info \<Rightarrow> ''info'' | sev_warning \<Rightarrow> ''warning'' | sev_error \<Rightarrow> ''error'')"

record event_record =
  ev_id :: u32
  ev_severity :: event_severity
  ev_epoch :: u32
  ev_text :: string
  ev_summary :: string

definition severity_from_string :: "string \<Rightarrow> event_severity result" where
  "severity_from_string value =
     (if value = ''info'' then Inr sev_info
      else if value = ''warning'' then Inr sev_warning
      else if value = ''error'' then Inr sev_error
      else Inl (AsmError ''unsupported event severity in JSONL''))"

definition escape_char :: "char \<Rightarrow> string" where
  "escape_char ch =
     (if ch = CHR ''&'' then ''&amp;''
      else if ch = CHR ''<'' then ''&lt;''
      else if ch = CHR ''>'' then ''&gt;''
      else if ch = CHR 0x22 then ''&quot;''
      else if ch = CHR 0x27 then ''&apos;''
      else [ch])"

definition escape_xml :: "string \<Rightarrow> string" where
  "escape_xml value = foldl (\<lambda>out ch. out @ escape_char ch) [] value"

definition render_event_xml :: "event_record \<Rightarrow> string" where
  "render_event_xml event =
     ''<LogRecord>''
     @ ''<EventID>'' @ dec_string (unat (ev_id event)) @ ''</EventID>''
     @ ''<Timestamp>'' @ escape_xml (ev_text event) @ ''</Timestamp>''
     @ ''<Severity>'' @ escape_xml (event_severity_to_string (ev_severity event)) @ ''</Severity>''
     @ ''<Summary>'' @ escape_xml (ev_summary event) @ ''</Summary>''
     @ ''</LogRecord>''"

section \<open>Timestamps and JSONL lines\<close>

definition parse_utc_timestamp :: "string \<Rightarrow> u32 result" where
  "parse_utc_timestamp text =
     (case get_time_utc text of
        None \<Rightarrow> Inl (AsmError ''invalid timestamp format in event log'')
      | Some t \<Rightarrow>
          let epoch = timegm t in
          if epoch < 0 then Inl (AsmError ''timestamp conversion failed'')
          else Inr (word_of_int epoch))"

text \<open>
  The raw-string pattern of \<^verbatim>\<open>parse_jsonl_line\<close>; \<open>json_key\<close> is a quoted name, a colon and
  the white space the pattern allows around them.
\<close>

definition json_key :: "string \<Rightarrow> re_item list" where
  "json_key name = re_literal ([CHR 0x22] @ name @ [CHR 0x22]) @ re_space_star @ re_literal '':'' @ re_space_star"

definition json_comma :: "re_item list" where
  "json_comma = re_space_star @ re_literal '','' @ re_space_star"

definition json_quoted :: "re_item \<Rightarrow> re_item list" where
  "json_quoted g = re_literal [CHR 0x22] @ [g] @ re_literal [CHR 0x22]"

definition event_pattern :: "re_item list" where
  "event_pattern =
     re_space_star @ re_literal ''{'' @ re_space_star
     @ json_key ''event_id'' @ [Group Digit_Class 1 None] @ json_comma
     @ json_key ''severity'' @ json_quoted (Group Not_Quote_Class 1 None) @ json_comma
     @ json_key ''timestamp'' @ json_quoted (Group Not_Quote_Class 1 None) @ json_comma
     @ json_key ''summary'' @ json_quoted (Group Not_Quote_Class 0 None)
     @ re_space_star @ re_literal ''}'' @ re_space_star"

definition event_of_groups :: "string \<Rightarrow> string \<Rightarrow> string \<Rightarrow> string \<Rightarrow> event_record result" where
  "event_of_groups event_id severity timestamp summary =
     bindE (stoul 10 event_id) (\<lambda>i.
     bindE (severity_from_string severity) (\<lambda>sev.
     bindE (parse_utc_timestamp timestamp) (\<lambda>epoch.
       Inr \<lparr>ev_id = ucast i, ev_severity = sev, ev_epoch = epoch, ev_text = timestamp,
            ev_summary = summary\<rparr>)))"

definition parse_event_line :: "string \<Rightarrow> event_record result" where
  "parse_event_line line =
     (case re_match event_pattern line of
        Some [event_id, severity, timestamp, summary] \<Rightarrow> event_of_groups event_id severity timestamp summary
      | _ \<Rightarrow> Inl (AsmError ''invalid event JSONL line format''))"

section \<open>Providers\<close>

text \<open>The constructor's loop; the counter is the number of the line at the head of the list.\<close>

primrec load_event_lines :: "nat \<Rightarrow> string list \<Rightarrow> event_record list result" where
  "load_event_lines line_number [] = Inr []"
| "load_event_lines line_number (line # rest) =
     (if line = [] then load_event_lines (line_number + 1) rest
      else case parse_event_line line of
        Inl ex \<Rightarrow> Inl (AsmError (''failed to parse event JSONL line '' @ dec_string line_number
                                 @ '': '' @ what ex))
      | Inr event \<Rightarrow> mapE ((#) event) (load_event_lines (line_number + 1) rest))"

text \<open>The file is \<open>None\<close> when \<^verbatim>\<open>std::ifstream\<close> cannot open it.\<close>

definition jsonl_event_log_provider :: "string option \<Rightarrow> event_record list result" where
  "jsonl_event_log_provider file =
     (case file of
        None \<Rightarrow> Inl (AsmError ''failed to open JSONL event log file'')
      | Some content \<Rightarrow> load_event_lines 1 (getlines content))"

definition default_events :: "event_record list" where
  "default_events =
     [\<lparr>ev_id = 1001, ev_severity = sev_info, ev_epoch = 1776758400,
       ev_text = ''2026-04-21T08:00:00Z'', ev_summary = ''Responder started''\<rparr>,
      \<lparr>ev_id = 1002, ev_severity = sev_warning, ev_epoch = 1776758700,
       ev_text = ''2026-04-21T08:05:00Z'', ev_summary = ''TLS profile uses development CA''\<rparr>,
      \<lparr>ev_id = 1003, ev_severity = sev_error, ev_epoch = 1776759000,
       ev_text = ''2026-04-21T08:10:00Z'', ev_summary = ''Link encryption material not loaded''\<rparr>]"

definition in_memory_list_event_ids :: "event_record list \<Rightarrow> u32 \<Rightarrow> u32 \<Rightarrow> u32 list" where
  "in_memory_list_event_ids events time_start time_stop =
     foldl (\<lambda>event_ids event.
        if ev_epoch event \<ge> time_start \<and> ev_epoch event \<le> time_stop
        then event_ids @ [ev_id event] else event_ids) [] events"

primrec in_memory_get_event_xml :: "event_record list \<Rightarrow> u32 \<Rightarrow> string option" where
  "in_memory_get_event_xml [] event_id = None"
| "in_memory_get_event_xml (event # rest) event_id =
     (if ev_id event = event_id then Some (render_event_xml event)
      else in_memory_get_event_xml rest event_id)"

definition jsonl_list_event_ids :: "event_record list \<Rightarrow> u32 \<Rightarrow> u32 \<Rightarrow> u32 list" where
  "jsonl_list_event_ids events time_start time_stop =
     foldl (\<lambda>event_ids event.
        if ev_epoch event \<ge> time_start \<and> ev_epoch event \<le> time_stop
        then event_ids @ [ev_id event] else event_ids) [] events"

primrec jsonl_get_event_xml :: "event_record list \<Rightarrow> u32 \<Rightarrow> string option" where
  "jsonl_get_event_xml [] event_id = None"
| "jsonl_get_event_xml (event # rest) event_id =
     (if ev_id event = event_id then Some (render_event_xml event)
      else jsonl_get_event_xml rest event_id)"

text \<open>The virtual functions of \<^verbatim>\<open>EventLogStore\<close>.\<close>

record event_log_store =
  list_event_ids :: "u32 \<Rightarrow> u32 \<Rightarrow> u32 list"
  get_event_xml :: "u32 \<Rightarrow> string option"

definition in_memory_event_log_store :: "event_record list \<Rightarrow> event_log_store" where
  "in_memory_event_log_store events =
     \<lparr>list_event_ids = in_memory_list_event_ids events, get_event_xml = in_memory_get_event_xml events\<rparr>"

definition jsonl_event_log_store :: "event_record list \<Rightarrow> event_log_store" where
  "jsonl_event_log_store events =
     \<lparr>list_event_ids = jsonl_list_event_ids events, get_event_xml = jsonl_get_event_xml events\<rparr>"

section \<open>Payload codecs\<close>

definition event_encode_u32_batch :: "u32 list \<Rightarrow> byte_buffer" where
  "event_encode_u32_batch values =
     foldl append_be_u32
       (append_be_u32 (append_be_u32 [] (word_of_nat (length values))) 4) values"

definition event_decode_u32_batch :: "byte_buffer \<Rightarrow> u32 list result" where
  "event_decode_u32_batch bytes =
     (if length bytes < 8 then Inl (AsmError ''batch payload too short'')
      else bindE (decode_be_u32 bytes 0) (\<lambda>count.
        bindE (decode_be_u32 bytes 4) (\<lambda>item_length.
          if item_length \<noteq> 4 then Inl (AsmError ''unexpected batch item length'')
          else if length bytes \<noteq> 8 + unat count * 4 then Inl (AsmError ''batch payload size mismatch'')
          else traverseE (\<lambda>i. decode_be_u32 bytes (8 + i * 4)) [0..<unat count])))"

record get_event_list_request =
  time_start :: u32
  time_stop :: u32

definition event_list_encode_request :: "get_event_list_request \<Rightarrow> byte_buffer" where
  "event_list_encode_request p = append_be_u32 (append_be_u32 [] (time_start p)) (time_stop p)"

definition event_list_decode_request :: "byte_buffer \<Rightarrow> get_event_list_request result" where
  "event_list_decode_request bytes =
     (if length bytes \<noteq> 8 then Inl (AsmError ''GetEventList request payload must be 8 bytes'')
      else bindE (decode_be_u32 bytes 0) (\<lambda>a. bindE (decode_be_u32 bytes 4) (\<lambda>b.
        Inr \<lparr>time_start = a, time_stop = b\<rparr>)))"

record get_event_list_response =
  listed_event_ids :: "u32 list"

record get_event_id_request =
  asked_event_id :: u32

record get_event_id_response =
  log_record_xml :: string

definition event_list_encode_response :: "get_event_list_response \<Rightarrow> byte_buffer" where
  "event_list_encode_response payload = event_encode_u32_batch (listed_event_ids payload)"

definition event_list_decode_response :: "byte_buffer \<Rightarrow> get_event_list_response result" where
  "event_list_decode_response bytes = mapE (\<lambda>ids. \<lparr>listed_event_ids = ids\<rparr>) (event_decode_u32_batch bytes)"

definition event_id_encode_request :: "get_event_id_request \<Rightarrow> byte_buffer" where
  "event_id_encode_request payload = append_be_u32 [] (asked_event_id payload)"

definition event_id_decode_request :: "byte_buffer \<Rightarrow> get_event_id_request result" where
  "event_id_decode_request bytes =
     (if length bytes \<noteq> 4 then Inl (AsmError ''GetEventID request payload must be 4 bytes'')
      else mapE (\<lambda>i. \<lparr>asked_event_id = i\<rparr>) (decode_be_u32 bytes 0))"

definition event_id_encode_response :: "get_event_id_response \<Rightarrow> byte_buffer" where
  "event_id_encode_response payload = map byte_of_char (log_record_xml payload)"

definition event_id_decode_response :: "byte_buffer \<Rightarrow> get_event_id_response" where
  "event_id_decode_response bytes = \<lparr>log_record_xml = map char_of_byte bytes\<rparr>"

section \<open>Lists of events\<close>

definition in_window :: "u32 \<Rightarrow> u32 \<Rightarrow> event_record \<Rightarrow> bool" where
  "in_window a b e \<longleftrightarrow> a \<le> ev_epoch e \<and> ev_epoch e \<le> b"

lemma foldl_collect:
  "foldl (\<lambda>out x. if P x then out @ [f x] else out) acc xs = acc @ map f (filter P xs)"
  by (induction xs arbitrary: acc) simp_all

lemma in_memory_list_event_ids_eq:
  "in_memory_list_event_ids events a b = map ev_id (filter (in_window a b) events)"
  by (simp add: in_memory_list_event_ids_def foldl_collect in_window_def [abs_def])

lemma jsonl_list_event_ids_eq:
  "jsonl_list_event_ids events a b = map ev_id (filter (in_window a b) events)"
  by (simp add: jsonl_list_event_ids_def foldl_collect in_window_def [abs_def])

lemma in_memory_get_event_xml_eq:
  "in_memory_get_event_xml events i = map_option render_event_xml (find (\<lambda>e. ev_id e = i) events)"
  by (induction events) simp_all

lemma jsonl_get_event_xml_eq:
  "jsonl_get_event_xml events i = map_option render_event_xml (find (\<lambda>e. ev_id e = i) events)"
  by (induction events) simp_all

text \<open>What a client of \<^verbatim>\<open>EventLogStore\<close> may rely on.\<close>

locale event_log_contract =
  fixes store :: event_log_store and events :: "event_record list"
  assumes list_ids: "list_event_ids store a b = map ev_id (filter (in_window a b) events)"
    and get_xml: "get_event_xml store i = map_option render_event_xml (find (\<lambda>e. ev_id e = i) events)"
begin

lemma listed_iff:
  "i \<in> set (list_event_ids store a b) \<longleftrightarrow> (\<exists>e\<in>set events. ev_id e = i \<and> in_window a b e)"
  by (auto simp: list_ids)

lemma get_xml_None_iff: "get_event_xml store i = None \<longleftrightarrow> (\<forall>e\<in>set events. ev_id e \<noteq> i)"
  by (auto simp: get_xml find_None_iff)

lemma listed_has_xml:
  "i \<in> set (list_event_ids store a b) \<Longrightarrow> \<exists>e\<in>set events. ev_id e = i \<and> get_event_xml store i = Some (render_event_xml e)"
proof -
  assume "i \<in> set (list_event_ids store a b)"
  then have "find (\<lambda>e. ev_id e = i) events \<noteq> None" by (auto simp: listed_iff find_None_iff)
  then obtain e where e: "find (\<lambda>e. ev_id e = i) events = Some e" by blast
  then have "e \<in> set events" "ev_id e = i" by (auto simp: find_Some_iff)
  with e show ?thesis by (auto simp: get_xml)
qed

lemma length_list_ids: "length (list_event_ids store a b) \<le> length events"
  by (simp add: list_ids)

lemma list_ids_whole_range: "list_event_ids store 0 (-1) = map ev_id events"
  by (simp add: list_ids in_window_def [abs_def])

lemma list_ids_empty_window: "b < a \<Longrightarrow> list_event_ids store a b = []"
  by (auto simp: list_ids in_window_def filter_empty_conv)

end

interpretation memory_log: event_log_contract "in_memory_event_log_store events" events for events
  by unfold_locales
    (simp_all add: in_memory_event_log_store_def in_memory_list_event_ids_eq in_memory_get_event_xml_eq)

interpretation jsonl_log: event_log_contract "jsonl_event_log_store events" events for events
  by unfold_locales
    (simp_all add: jsonl_event_log_store_def jsonl_list_event_ids_eq jsonl_get_event_xml_eq)

section \<open>XML escaping\<close>

lemma foldl_append_concat: "foldl (\<lambda>out x. out @ f x) acc xs = acc @ concat (map f xs)"
  by (induction xs arbitrary: acc) simp_all

lemma escape_xml_concat: "escape_xml s = concat (map escape_char s)"
  by (simp add: escape_xml_def foldl_append_concat)

lemma escape_char_nonempty [simp]: "escape_char c \<noteq> []"
  by (simp add: escape_char_def)

lemma escape_char_no_markup:
  "x \<in> set (escape_char c) \<Longrightarrow> x \<noteq> CHR ''<'' \<and> x \<noteq> CHR ''>'' \<and> x \<noteq> CHR 0x22 \<and> x \<noteq> CHR 0x27"
  by (auto simp: escape_char_def split: if_splits)

lemma escape_xml_no_markup:
  "x \<in> set (escape_xml s) \<Longrightarrow> x \<noteq> CHR ''<'' \<and> x \<noteq> CHR ''>'' \<and> x \<noteq> CHR 0x22 \<and> x \<noteq> CHR 0x27"
  using escape_char_no_markup by (auto simp: escape_xml_concat)

lemma escape_char_prefix_free:
  "escape_char c @ x = escape_char d @ y \<Longrightarrow> c = d \<and> x = y"
  by (auto simp: escape_char_def split: if_splits)

lemma escape_xml_inject: "escape_xml s = escape_xml t \<longleftrightarrow> s = t"
proof (rule iffI)
  assume "escape_xml s = escape_xml t"
  then show "s = t"
    unfolding escape_xml_concat
  proof (induction s arbitrary: t)
    case Nil
    then show ?case by (cases t) auto
  next
    case (Cons c s)
    then obtain d u where t: "t = d # u" by (cases t) auto
    with Cons.prems have "c = d \<and> concat (map escape_char s) = concat (map escape_char u)"
      by (intro escape_char_prefix_free) simp
    with Cons.IH t show ?case by simp
  qed
qed simp

text \<open>Text up to the next tag is recovered from the rendering.\<close>

lemma split_at_tag:
  assumes "CHR ''<'' \<notin> set a" and "CHR ''<'' \<notin> set b" and "a @ CHR ''<'' # x = b @ CHR ''<'' # y"
  shows "a = b \<and> x = y"
proof -
  have "takeWhile (\<lambda>c. c \<noteq> CHR ''<'') (a @ CHR ''<'' # x) = a"
    and "takeWhile (\<lambda>c. c \<noteq> CHR ''<'') (b @ CHR ''<'' # y) = b"
    using assms(1,2) by (auto simp: takeWhile_append)
  then show ?thesis using assms(3) by auto
qed

lemma dec_string_no_tag: "CHR ''<'' \<notin> set (dec_string n)"
  using dec_string_digits [of "CHR ''<''" n] by (auto simp: is_digit_def char_code_def)

lemma escape_xml_no_tag: "CHR ''<'' \<notin> set (escape_xml s)"
  using escape_xml_no_markup by blast

lemma event_severity_to_string_inject [simp]:
  "event_severity_to_string a = event_severity_to_string b \<longleftrightarrow> a = b"
  by (cases a; cases b) (simp_all add: event_severity_to_string_def)

lemma severity_from_to_string [simp]:
  "severity_from_string (event_severity_to_string s) = Inr s"
  by (cases s) (simp_all add: severity_from_string_def event_severity_to_string_def)

lemma severity_from_string_Inr:
  "severity_from_string v = Inr s \<longleftrightarrow> v = event_severity_to_string s"
  by (cases s) (auto simp: severity_from_string_def event_severity_to_string_def)

lemma render_event_xml_fields:
  assumes "render_event_xml e = render_event_xml f"
  shows "ev_id e = ev_id f \<and> ev_text e = ev_text f \<and> ev_severity e = ev_severity f
    \<and> ev_summary e = ev_summary f"
proof -
  note tag = split_at_tag [OF dec_string_no_tag dec_string_no_tag]
    split_at_tag [OF escape_xml_no_tag escape_xml_no_tag]
  have "unat (ev_id e) = unat (ev_id f) \<and> ev_text e = ev_text f \<and> ev_severity e = ev_severity f
    \<and> ev_summary e = ev_summary f"
    using assms unfolding render_event_xml_def
    by (auto dest!: tag simp: escape_xml_inject)
  then show ?thesis by (simp add: unat_eq_iff)
qed

section \<open>Payload round trips\<close>

lemma event_encode_u32_batch_eq: "event_encode_u32_batch = encode_batch append_be_u32 4"
  by (rule ext) (simp add: event_encode_u32_batch_def encode_batch_def)

lemma event_decode_u32_batch_eq:
  "event_decode_u32_batch = decode_batch (AsmError ''batch payload too short'')
     (AsmError ''unexpected batch item length'') (AsmError ''batch payload size mismatch'') decode_be_u32 4"
  by (rule ext) (simp add: event_decode_u32_batch_def decode_batch_def)

lemma event_list_response_iff:
  "event_list_decode_response bs = Inr \<lparr>listed_event_ids = ids\<rparr> \<longleftrightarrow>
     length ids < 2 ^ 32 \<and> event_list_encode_response \<lparr>listed_event_ids = ids\<rparr> = bs"
  by (simp add: event_list_decode_response_def event_list_encode_response_def mapE_eq_Inr
      event_encode_u32_batch_eq event_decode_u32_batch_eq u32_items.decode_batch_iff)

lemma length_event_list_encode_response [codec_simps]:
  "length (event_list_encode_response \<lparr>listed_event_ids = ids\<rparr>) = 8 + 4 * length ids"
  by (simp add: event_list_encode_response_def event_encode_u32_batch_eq
      u32_items.length_encode_batch)

lemma decode_be_u32_pair:
  "decode_be_u32 (append_be_u32 (append_be_u32 [] a) b) 0 = Inr a"
  "decode_be_u32 (append_be_u32 (append_be_u32 [] a) b) 4 = Inr b"
  using decode_append_be_u32 [of "[]" a "append_be_u32 [] b"]
    decode_append_be_u32 [of "append_be_u32 [] a" b "[]"]
  by (simp_all add: append_be_u32_append [of "append_be_u32 [] a" b])

lemma event_list_request_iff:
  "event_list_decode_request bs = Inr p \<longleftrightarrow> event_list_encode_request p = bs"
proof
  assume "event_list_encode_request p = bs"
  then show "event_list_decode_request bs = Inr p"
    by (auto simp: event_list_decode_request_def event_list_encode_request_def decode_be_u32_pair)
next
  assume "event_list_decode_request bs = Inr p"
  then have len: "length bs = 8" and "decode_be_u32 bs 0 = Inr (time_start p)"
    and "decode_be_u32 bs 4 = Inr (time_stop p)"
    by (auto simp: event_list_decode_request_def bindE_eq_Inr split: if_splits)
  then show "event_list_encode_request p = bs"
    using batch_header_of_decode [of bs "time_start p" "time_stop p"]
    by (simp add: event_list_encode_request_def append_be_u32_append [of "append_be_u32 [] (time_start p)"])
qed

lemma event_id_request_iff:
  "event_id_decode_request bs = Inr \<lparr>asked_event_id = i\<rparr> \<longleftrightarrow> event_id_encode_request \<lparr>asked_event_id = i\<rparr> = bs"
  by (auto simp: event_id_decode_request_def event_id_encode_request_def decode_be_u32_whole mapE_eq_Inr)

lemma event_id_response_roundtrip [simp, roundtrip_simps]:
  "event_id_decode_response (event_id_encode_response payload) = payload"
  by (simp add: event_id_decode_response_def event_id_encode_response_def comp_def)

section \<open>Timestamps and lines\<close>

lemma parse_utc_timestamp_text:
  assumes "1970 \<le> y" and "y \<le> 9999" and "1 \<le> mo" and "mo \<le> 12" and "1 \<le> d" and "d \<le> 31"
    and "h \<le> 23" and "mi \<le> 59" and "s \<le> 60"
  shows "parse_utc_timestamp (utc_text y mo d h mi s @ rest) =
    Inr (word_of_int (((day_number (int y) (int mo - 1) (int d) * 24 + int h) * 60 + int mi) * 60 + int s))"
proof -
  let ?t = "\<lparr>tm_year = int y - 1900, tm_mon = int mo - 1, tm_mday = int d,
          tm_hour = int h, tm_min = int mi, tm_sec = int s\<rparr>"
  have "0 \<le> timegm ?t" using assms by (intro timegm_nonneg) simp_all
  then show ?thesis
    using get_time_utc_text [of y mo d h mi s rest] assms
    by (simp add: parse_utc_timestamp_def timegm_def Let_def)
qed

text \<open>The line format the README documents, one object per line.\<close>

definition event_jsonl_line :: "event_record \<Rightarrow> string" where
  \<open>event_jsonl_line e =
     ''{"event_id":'' @ dec_string (unat (ev_id e))
     @ '',"severity":"'' @ event_severity_to_string (ev_severity e)
     @ ''","timestamp":"'' @ ev_text e
     @ ''","summary":"'' @ ev_summary e @ ''"}''\<close>

definition quote_free :: "string \<Rightarrow> bool" where
  "quote_free s \<longleftrightarrow> list_all (\<lambda>c. c \<noteq> CHR 0x22) s"

lemma event_severity_string_facts:
  "quote_free (event_severity_to_string s)" "event_severity_to_string s \<noteq> []"
  by (cases s; simp add: event_severity_to_string_def quote_free_def)+

lemma match_event_jsonl_line:
  assumes "ev_text e \<noteq> []" and "quote_free (ev_text e)" and "quote_free (ev_summary e)"
  shows "re_match event_pattern (event_jsonl_line e) =
    Some [dec_string (unat (ev_id e)), event_severity_to_string (ev_severity e), ev_text e, ev_summary e]"
  using assms event_severity_string_facts [of "ev_severity e"]
  by (simp add: event_pattern_def event_jsonl_line_def json_key_def json_comma_def json_quoted_def
      re_print_simps re_match_group quote_free_def)

text \<open>An event that its line can carry, with the epoch its timestamp text stands for.\<close>

definition event_well_formed :: "event_record \<Rightarrow> bool" where
  "event_well_formed e \<longleftrightarrow> ev_text e \<noteq> [] \<and> quote_free (ev_text e) \<and> quote_free (ev_summary e)
     \<and> CHR ''\<newline>'' \<notin> set (ev_text e) \<and> CHR ''\<newline>'' \<notin> set (ev_summary e)
     \<and> parse_utc_timestamp (ev_text e) = Inr (ev_epoch e)"

lemma parse_event_jsonl_line:
  assumes "event_well_formed e"
  shows "parse_event_line (event_jsonl_line e) = Inr e"
  using assms match_event_jsonl_line [of e]
  by (simp add: event_well_formed_def parse_event_line_def event_of_groups_def stoul_def)

lemma load_event_lines_map:
  assumes "\<And>e. e \<in> set es \<Longrightarrow> event_well_formed e"
  shows "load_event_lines n (map event_jsonl_line es) = Inr es"
  using assms
proof (induction es arbitrary: n)
  case Nil
  then show ?case by simp
next
  case (Cons e es)
  have "event_jsonl_line e \<noteq> []" by (simp add: event_jsonl_line_def)
  with Cons show ?case by (simp add: parse_event_jsonl_line)
qed

definition events_file :: "event_record list \<Rightarrow> string" where
  "events_file es = concat (map (\<lambda>e. event_jsonl_line e @ [CHR ''\<newline>'']) es)"

lemma dec_string_no_newline [simp]: "CHR ''\<newline>'' \<notin> set (dec_string n)"
  using dec_string_digits [of "CHR ''\<newline>''" n] by (auto simp: is_digit_def char_code_def)

lemma event_severity_no_newline [simp]: "CHR ''\<newline>'' \<notin> set (event_severity_to_string s)"
  by (cases s) (simp_all add: event_severity_to_string_def)

lemma event_jsonl_line_no_newline:
  "event_well_formed e \<Longrightarrow> CHR ''\<newline>'' \<notin> set (event_jsonl_line e)"
  by (simp add: event_jsonl_line_def event_well_formed_def)

lemma load_events_file:
  assumes "\<And>e. e \<in> set es \<Longrightarrow> event_well_formed e"
  shows "jsonl_event_log_provider (Some (events_file es)) = Inr es"
proof -
  have "getlines (events_file es) = map event_jsonl_line es"
    using getlines_concat [of "map event_jsonl_line es"] assms event_jsonl_line_no_newline
    by (auto simp: events_file_def comp_def)
  then show ?thesis using load_event_lines_map [of es] assms
    by (simp add: jsonl_event_log_provider_def)
qed

lemma default_events_well_formed: "e \<in> set default_events \<Longrightarrow> event_well_formed e"
proof -
  have "parse_utc_timestamp ''2026-04-21T08:00:00Z'' = Inr 1776758400"
    and "parse_utc_timestamp ''2026-04-21T08:05:00Z'' = Inr 1776758700"
    and "parse_utc_timestamp ''2026-04-21T08:10:00Z'' = Inr 1776759000"
    by code_simp+
  then show "e \<in> set default_events \<Longrightarrow> event_well_formed e"
    by (auto simp: default_events_def event_well_formed_def quote_free_def)
qed

text \<open>A line that does not parse stops the constructor, with the number of that line.\<close>

lemma load_event_lines_error:
  assumes "load_event_lines n ls = Inl e"
  shows "\<exists>k < length ls. \<exists>ex. parse_event_line (ls ! k) = Inl ex \<and>
    e = AsmError (''failed to parse event JSONL line '' @ dec_string (n + k) @ '': '' @ what ex)"
  using assms
proof (induction ls arbitrary: n)
  case Nil
  then show ?case by simp
next
  case (Cons l ls)
  show ?case
  proof (cases "load_event_lines (n + 1) ls = Inl e \<and> (l = [] \<or> (\<exists>ev. parse_event_line l = Inr ev))")
    case True
    then obtain k ex where "k < length ls" "parse_event_line (ls ! k) = Inl ex"
      "e = AsmError (''failed to parse event JSONL line '' @ dec_string (n + 1 + k) @ '': '' @ what ex)"
      using Cons.IH by blast
    then show ?thesis by (intro exI [of _ "Suc k"]) simp
  next
    case False
    with Cons.prems show ?thesis
      by (intro exI [of _ 0]) (auto simp: mapE_def split: sum.splits if_splits)
  qed
qed

section \<open>Properties\<close>

lemma event_pattern_groups: "length (filter is_group event_pattern) = 4"
  by (simp add: event_pattern_def json_key_def json_comma_def json_quoted_def re_literal_def
      re_space_star_def is_group_def)

lemma four_elements: "length cs = 4 \<Longrightarrow> \<exists>a b c d. cs = [a, b, c, d]"
  by (auto simp: numeral_eq_Suc length_Suc_conv)

lemma event_pattern_captures:
  assumes "re_match event_pattern line = Some cs"
  obtains a b c d where "cs = [a, b, c, d]" "re_lang event_pattern line [a, b, c, d]"
  using re_match_sound [OF assms] re_lang_captures [OF re_match_sound [OF assms]]
    four_elements [of cs] event_pattern_groups by auto

lemma event_of_groups_format:
  "event_of_groups a b c d \<noteq> Inl (AsmError ''invalid event JSONL line format'')"
  by (auto simp: event_of_groups_def bindE_eq_Inl stoul_def sto_unsigned_def severity_from_string_def
      parse_utc_timestamp_def Let_def split: if_splits prod.splits option.splits)

text \<open>
  A line that shows an event object: the tokens of the four members, in this order, with any white space
  around them. The id is a run of decimal digits \<open>d\<close>, the severity \<open>s\<close> and the timestamp \<open>t\<close> are not
  empty, and none of the texts holds a quotation mark (there are no escapes).
\<close>

definition quoted :: "string \<Rightarrow> string" where
  "quoted s = [CHR 0x22] @ s @ [CHR 0x22]"

definition event_line :: "string \<Rightarrow> string \<Rightarrow> string \<Rightarrow> string \<Rightarrow> string \<Rightarrow> bool" where
  "event_line line d s t u \<longleftrightarrow>
     d \<noteq> [] \<and> list_all is_digit d \<and> s \<noteq> [] \<and> quote_free s \<and> t \<noteq> [] \<and> quote_free t \<and> quote_free u \<and>
     spaced [''{'', quoted ''event_id'', '':'', d, '','', quoted ''severity'', '':'', quoted s, '','',
       quoted ''timestamp'', '':'', quoted t, '','', quoted ''summary'', '':'', quoted u, ''}''] line"

abbreviation event_tokens :: "string \<Rightarrow> string \<Rightarrow> string \<Rightarrow> string \<Rightarrow> string list" where
  "event_tokens d s t u \<equiv>
     [''{'', quoted ''event_id'', '':'', d, '','', quoted ''severity'', '':'', [CHR 0x22] @ s @ [CHR 0x22], '','',
      quoted ''timestamp'', '':'', [CHR 0x22] @ t @ [CHR 0x22], '','',
      quoted ''summary'', '':'', [CHR 0x22] @ u @ [CHR 0x22], ''}'']"

lemma event_pattern_tokens:
  "event_pattern =
     re_space_star @ re_literal ''{'' @ re_space_star @ re_literal (quoted ''event_id'') @ re_space_star
     @ re_literal '':'' @ re_space_star @ Group Digit_Class 1 None # re_space_star @ re_literal '',''
     @ re_space_star @ re_literal (quoted ''severity'') @ re_space_star @ re_literal '':''
     @ re_space_star @ re_literal [CHR 0x22] @ Group Not_Quote_Class 1 None # re_literal [CHR 0x22]
     @ re_space_star @ re_literal '','' @ re_space_star @ re_literal (quoted ''timestamp'') @ re_space_star
     @ re_literal '':'' @ re_space_star @ re_literal [CHR 0x22] @ Group Not_Quote_Class 1 None
     # re_literal [CHR 0x22] @ re_space_star @ re_literal '','' @ re_space_star
     @ re_literal (quoted ''summary'') @ re_space_star
     @ re_literal '':'' @ re_space_star @ re_literal [CHR 0x22] @ Group Not_Quote_Class 0 None
     # re_literal [CHR 0x22] @ re_space_star @ re_literal ''}'' @ re_space_star"
  by (simp add: event_pattern_def json_key_def json_comma_def json_quoted_def quoted_def)

lemma event_line_tokens:
  "event_line line d s t u \<longleftrightarrow>
     d \<noteq> [] \<and> list_all is_digit d \<and> s \<noteq> [] \<and> quote_free s \<and> t \<noteq> [] \<and> quote_free t \<and> quote_free u \<and>
     spaced (event_tokens d s t u) line"
  by (simp add: event_line_def quoted_def)

lemma event_pattern_line:
  "re_lang event_pattern line [d, s, t, u] \<longleftrightarrow> event_line line d s t u"
proof -
  have "re_lang event_pattern line [d, s, t, u] \<longleftrightarrow>
    (list_all (in_class Digit_Class) d \<and> 1 \<le> length d \<and> within_max None (length d) \<and>
     list_all (in_class Not_Quote_Class) s \<and> 1 \<le> length s \<and> within_max None (length s) \<and>
     list_all (in_class Not_Quote_Class) t \<and> 1 \<le> length t \<and> within_max None (length t) \<and>
     list_all (in_class Not_Quote_Class) u \<and> 0 \<le> length u \<and> within_max None (length u) \<and> True) \<and>
    spaced (event_tokens d s t u) line"
    unfolding event_pattern_tokens
    by (intro spaced_lang_literal spaced_lang_group spaced_lang_quoted) (simp add: spaced_lang_end)
  then show ?thesis
    by (auto simp: event_line_tokens quote_free_def in_class_fun within_max_def Suc_le_eq)
qed

lemma digits_not_space: "list_all is_digit d \<Longrightarrow> d \<noteq> [] \<Longrightarrow> \<not> is_space (hd d)"
  by (cases d) (auto simp: is_digit_def is_space_def)

lemma event_line_match:
  assumes "event_line line d s t u"
  shows "re_match event_pattern line = Some [d, s, t, u]"
proof -
  have l: "spaced (event_tokens d s t u) line" and d: "d \<noteq> []" "list_all is_digit d"
    and q: "s \<noteq> []" "quote_free s" "t \<noteq> []" "quote_free t" "quote_free u"
    using assms by (simp_all add: event_line_tokens)
  have comma: "stops_class Digit_Class r" if "spaced ('','' # ts) r" for ts r
    using that by (rule spaced_stops) (auto simp: is_digit_def is_space_def char_code_def)
  note side = quoted_def quote_free_def in_class_fun within_max_def Suc_le_eq digits_not_space stops_class_def
  show ?thesis
    unfolding event_pattern_tokens
    by (insert l,
        ((erule spaced_match_literal, simp add: side, simp add: side)
         | (erule spaced_match_group, simp add: side d, simp add: side d, simp add: side d, simp add: side d,
            simp add: side, erule comma)
         | (erule spaced_match_quoted, simp add: side, simp add: side, use q in \<open>simp add: side\<close>,
            use q in \<open>simp add: side\<close>, simp add: side, simp add: side))+,
        erule spaced_match_end)
qed

lemma event_line_unique:
  "event_line line d s t u \<Longrightarrow> event_line line d' s' t' u' \<Longrightarrow> d = d' \<and> s = s' \<and> t = t' \<and> u = u'"
  by (auto dest!: event_line_match)

lemma stoul_digits_Inr:
  assumes "d \<noteq> []" and "list_all is_digit d"
  shows "stoul 10 d = Inr i \<longleftrightarrow> num_value 10 d < 2 ^ 64 \<and> i = word_of_nat (num_value 10 d)"
proof -
  have "strto_digits 10 d = (False, d)"
    using assms(2) by (intro strto_digits_of_digits) (simp add: is_base_digit_def list_all_iff)
  with assms(1) show ?thesis by (auto simp: stoul_def sto_unsigned_def)
qed

lemma event_of_groups_Inr:
  assumes "d \<noteq> []" and "list_all is_digit d"
  shows "event_of_groups d s t u = Inr e \<longleftrightarrow>
    num_value 10 d < 2 ^ 64 \<and> ev_id e = word_of_nat (num_value 10 d) \<and>
    event_severity_to_string (ev_severity e) = s \<and> parse_utc_timestamp t = Inr (ev_epoch e) \<and>
    ev_text e = t \<and> ev_summary e = u"
proof -
  have "ucast (word_of_nat n :: u64) = (word_of_nat n :: u32)" for n
    by (rule bit_word_eqI) (simp add: bit_simps)
  then show ?thesis
    by (cases e) (auto simp: event_of_groups_def bindE_eq_Inr stoul_digits_Inr [OF assms] severity_from_string_Inr)
qed

text \<open>C19: the line parser reads exactly the documented objects: it reports a bad format for the lines that
are not the tokens of the four members in order, and for no others; and it returns an event exactly for a line
that shows an id below \<open>2 ^ 64\<close> (cut to 32 bits), one of the three severities, a timestamp that can be
read, and a summary, each of which is what the event holds.\<close>

theorem event_line_language:
  "(parse_event_line line = Inl (AsmError ''invalid event JSONL line format'') \<longleftrightarrow>
      (\<nexists>d s t u. event_line line d s t u)) \<and>
   (parse_event_line line = Inr e \<longleftrightarrow>
      (\<exists>d. event_line line d (event_severity_to_string (ev_severity e)) (ev_text e) (ev_summary e) \<and>
         num_value 10 d < 2 ^ 64 \<and> ev_id e = word_of_nat (num_value 10 d) \<and>
         parse_utc_timestamp (ev_text e) = Inr (ev_epoch e)))"
proof (cases "re_match event_pattern line")
  case None
  then have no: "\<not> event_line line d s t u" for d s t u
    using re_match_None_iff event_pattern_line by blast
  with None show ?thesis by (simp add: parse_event_line_def)
next
  case (Some cs)
  obtain d s t u where cs: "cs = [d, s, t, u]" and l: "event_line line d s t u"
    by (rule event_pattern_captures [OF Some]) (simp add: event_pattern_line)
  have p: "parse_event_line line = event_of_groups d s t u" using Some cs by (simp add: parse_event_line_def)
  have d: "d \<noteq> []" "list_all is_digit d" using l by (simp_all add: event_line_def)
  have "(parse_event_line line = Inr e) \<longleftrightarrow>
      (\<exists>d. event_line line d (event_severity_to_string (ev_severity e)) (ev_text e) (ev_summary e) \<and>
         num_value 10 d < 2 ^ 64 \<and> ev_id e = word_of_nat (num_value 10 d) \<and>
         parse_utc_timestamp (ev_text e) = Inr (ev_epoch e))" (is "?l \<longleftrightarrow> ?r")
  proof
    assume ?l
    with l show ?r by (auto simp: p event_of_groups_Inr [OF d])
  next
    assume ?r
    then obtain d' where "event_line line d' (event_severity_to_string (ev_severity e)) (ev_text e) (ev_summary e)"
      and "num_value 10 d' < 2 ^ 64" "ev_id e = word_of_nat (num_value 10 d')"
        "parse_utc_timestamp (ev_text e) = Inr (ev_epoch e)" by blast
    with event_line_unique [OF l this(1)] show ?l unfolding p event_of_groups_Inr [OF d] by simp
  qed
  with l event_of_groups_format show ?thesis unfolding p by blast
qed

text \<open>C18: a log file written in the documented format, one object per line, is read back as exactly
the events it was written from; the built-in events are such events.\<close>

theorem events_file_read_back:
  assumes "\<And>e. e \<in> set es \<Longrightarrow> event_well_formed e"
  shows "jsonl_event_log_provider (Some (events_file es)) = Inr es"
  using assms by (rule load_events_file)

theorem events_file_read_back_witness:
  "jsonl_event_log_provider (Some (events_file default_events)) = Inr default_events"
  by (rule events_file_read_back) (rule default_events_well_formed)

text \<open>C20: a timestamp in the documented form gives the seconds of the proleptic Gregorian calendar
since 1970, reduced to 32 bits, for every year the form can write.\<close>

theorem timestamp_value:
  assumes "1970 \<le> y" and "y \<le> 9999" and "1 \<le> mo" and "mo \<le> 12" and "1 \<le> d" and "d \<le> 31"
    and "h \<le> 23" and "mi \<le> 59" and "s \<le> 59"
  shows "parse_utc_timestamp (utc_text y mo d h mi s) =
    Inr (word_of_int (86400 * day_number (int y) (int mo - 1) (int d)
                      + 3600 * int h + 60 * int mi + int s))"
  using parse_utc_timestamp_text [of y mo d h mi s "[]"] assms by (simp add: algebra_simps)

theorem timestamp_value_witness:
  "parse_utc_timestamp (utc_text 2026 4 21 8 5 0) = Inr (word_of_int (86400 * day_number 2026 3 21 + 29100))"
  using timestamp_value [of 2026 4 21 8 5 0] by simp

text \<open>What the timestamp parser lets through: text after the \<^verbatim>\<open>Z\<close>, a day the month does
not have (counted on into the next month), and a year past 2106, whose seconds wrap to 32 bits.\<close>

lemma timestamp_lenient:
  "parse_utc_timestamp ''2026-04-21T08:00:00Z and more'' = parse_utc_timestamp ''2026-04-21T08:00:00Z'' \<and>
   parse_utc_timestamp ''2026-02-31T08:00:00Z'' = parse_utc_timestamp ''2026-03-03T08:00:00Z'' \<and>
   parse_utc_timestamp ''2106-02-07T06:28:16Z'' = Inr 0"
  by code_simp

text \<open>C21: the rendered XML determines the event's id, timestamp text, severity and summary, and an
escaped text contains none of the characters that delimit markup: no field can inject an element.\<close>

theorem event_xml_faithful:
  "(render_event_xml e = render_event_xml f \<longleftrightarrow>
      (ev_id e, ev_text e, ev_severity e, ev_summary e) = (ev_id f, ev_text f, ev_severity f, ev_summary f)) \<and>
   CHR ''<'' \<notin> set (escape_xml s) \<and> CHR ''>'' \<notin> set (escape_xml s) \<and>
   CHR 0x22 \<notin> set (escape_xml s) \<and> CHR 0x27 \<notin> set (escape_xml s) \<and>
   (escape_xml s = escape_xml t \<longleftrightarrow> s = t)"
proof -
  have "(ev_id e, ev_text e, ev_severity e, ev_summary e) = (ev_id f, ev_text f, ev_severity f, ev_summary f)
      \<Longrightarrow> render_event_xml e = render_event_xml f"
    by (simp add: render_event_xml_def)
  then have "render_event_xml e = render_event_xml f \<longleftrightarrow>
      (ev_id e, ev_text e, ev_severity e, ev_summary e) = (ev_id f, ev_text f, ev_severity f, ev_summary f)"
    using render_event_xml_fields [of e f] by (intro iffI) simp_all
  moreover have "x \<in> {CHR ''<'', CHR ''>'', CHR 0x22, CHR 0x27} \<Longrightarrow> x \<notin> set (escape_xml s)" for x
    using escape_xml_no_markup [of x s] by blast
  ultimately show ?thesis
    by (simp only: escape_xml_inject) simp
qed

text \<open>The two providers answer alike over the same events: an id is listed for a window exactly
when some event with that id falls in it, ends included, and every listed id has an XML record.\<close>

lemma providers_agree:
  "list_event_ids (in_memory_event_log_store es) a b = list_event_ids (jsonl_event_log_store es) a b \<and>
   get_event_xml (in_memory_event_log_store es) i = get_event_xml (jsonl_event_log_store es) i \<and>
   (i \<in> set (list_event_ids (jsonl_event_log_store es) a b) \<longleftrightarrow>
      (\<exists>e\<in>set es. ev_id e = i \<and> a \<le> ev_epoch e \<and> ev_epoch e \<le> b)) \<and>
   (get_event_xml (jsonl_event_log_store es) i = None \<longleftrightarrow> i \<notin> ev_id ` set es)"
  using memory_log.list_ids [of es a b] jsonl_log.list_ids [of es a b] memory_log.get_xml [of es i]
    jsonl_log.get_xml [of es i] jsonl_log.listed_iff [of i es a b] jsonl_log.get_xml_None_iff [of es i]
  by (auto simp: in_window_def)

text \<open>The line of an event with another number written as its id.\<close>

definition event_line_with_id :: "nat \<Rightarrow> event_record \<Rightarrow> string" where
  \<open>event_line_with_id n e =
     ''{"event_id":'' @ dec_string n
     @ '',"severity":"'' @ event_severity_to_string (ev_severity e)
     @ ''","timestamp":"'' @ ev_text e
     @ ''","summary":"'' @ ev_summary e @ ''"}''\<close>

lemma match_event_line_with_id:
  assumes "ev_text e \<noteq> []" and "quote_free (ev_text e)" and "quote_free (ev_summary e)"
  shows "re_match event_pattern (event_line_with_id n e) =
    Some [dec_string n, event_severity_to_string (ev_severity e), ev_text e, ev_summary e]"
  using assms event_severity_string_facts [of "ev_severity e"]
  by (simp add: event_pattern_def event_line_with_id_def json_key_def json_comma_def json_quoted_def
      re_print_simps re_match_group quote_free_def)

text \<open>An event id is read as an unsigned long without a range check and cut to 32 bits: every
number below 2 to the 64 is accepted as an id, and only its value modulo 2 to the 32 counts.\<close>

lemma event_id_wraps:
  assumes "event_well_formed e" and "n < 2 ^ 64"
  shows "parse_event_line (event_line_with_id n e) = Inr (e\<lparr>ev_id := word_of_nat n\<rparr>)"
proof -
  have "ucast (word_of_nat n :: u64) = (word_of_nat n :: u32)"
    by (rule bit_word_eqI) (simp add: bit_simps)
  then show ?thesis
    using assms match_event_line_with_id [of e n]
    by (simp add: event_well_formed_def parse_event_line_def event_of_groups_def stoul_def)
qed

end
