(* ===== verification/Query_Spb.thy ===== *)
theory Query_Spb
  imports Asm_Prelude
begin

text \<open>
  The QuerySPB payload: \<^verbatim>\<open>include/asm/query_spb.hpp\<close> and
  \<^verbatim>\<open>src/asm/query_spb.cpp\<close>. The status is a scoped enumeration over
  \<^verbatim>\<open>std::uint8_t\<close>, and the decoder casts an unchecked byte to it, which C++ defines for all
  256 values; the model's status is therefore the underlying byte, with the three enumerators as
  named values.
\<close>

datatype query_spb_status = Query_Spb_Status (status_byte: byte)

definition not_playing :: query_spb_status where
  "not_playing = Query_Spb_Status 0x00"

definition playing :: query_spb_status where
  "playing = Query_Spb_Status 0x01"

definition security_alert :: query_spb_status where
  "security_alert = Query_Spb_Status 0x02"

record query_spb_response =
  protocol_version :: byte
  spb_status :: query_spb_status

definition query_spb_encode_response :: "query_spb_response \<Rightarrow> byte_buffer" where
  "query_spb_encode_response payload = [protocol_version payload, status_byte (spb_status payload)]"

definition query_spb_decode_response :: "byte_buffer \<Rightarrow> query_spb_response result" where
  "query_spb_decode_response bytes =
     (if length bytes \<noteq> 2 then Inl (AsmError ''QuerySPB response payload must be 2 bytes'')
      else Inr \<lparr>protocol_version = bytes ! 0, spb_status = Query_Spb_Status (bytes ! 1)\<rparr>)"

text \<open>\<^verbatim>\<open>StaticQuerySpbStatusProvider\<close>: the status given to the constructor, at every call.\<close>

record static_query_spb_status_provider =
  provider_status :: query_spb_status

definition static_current_status :: "static_query_spb_status_provider \<Rightarrow> query_spb_status" where
  "static_current_status provider = provider_status provider"

definition query_spb_status_to_string :: "query_spb_status \<Rightarrow> string" where
  "query_spb_status_to_string status =
     (if status = not_playing then ''not_playing''
      else if status = playing then ''playing''
      else if status = security_alert then ''security_alert''
      else ''unknown'')"

lemma length_query_spb_encode_response [simp, codec_simps]:
  "length (query_spb_encode_response p) = 2"
  by (simp add: query_spb_encode_response_def)

lemma query_spb_response_iff:
  "query_spb_decode_response bs = Inr p \<longleftrightarrow> query_spb_encode_response p = bs"
proof
  assume "query_spb_encode_response p = bs"
  then show "query_spb_decode_response bs = Inr p"
    by (auto simp: query_spb_decode_response_def query_spb_encode_response_def)
next
  assume "query_spb_decode_response bs = Inr p"
  then have "length bs = 2" and p: "p = \<lparr>protocol_version = bs ! 0, spb_status = Query_Spb_Status (bs ! 1)\<rparr>"
    by (auto simp: query_spb_decode_response_def split: if_splits)
  then obtain a b where "bs = [a, b]"
    by (auto simp: numeral_2_eq_2 length_Suc_conv)
  then show "query_spb_encode_response p = bs"
    by (simp add: p query_spb_encode_response_def)
qed

text \<open>The printed name is one of the three exactly for the three enumerators.\<close>

lemma query_spb_status_unknown_iff:
  "query_spb_status_to_string s = ''unknown'' \<longleftrightarrow> 2 < unat (status_byte s)"
proof (cases s)
  case (Query_Spb_Status b)
  have "b = 0 \<or> b = 1 \<or> b = 2 \<longleftrightarrow> unat b = 0 \<or> unat b = 1 \<or> unat b = 2"
    using unat_eq_iff [of b 0] unat_eq_iff [of b 1] unat_eq_iff [of b 2] by simp
  also have "\<dots> \<longleftrightarrow> \<not> 2 < unat b" by auto
  finally show ?thesis
    using Query_Spb_Status
    by (auto simp: query_spb_status_to_string_def not_playing_def playing_def security_alert_def)
qed

section \<open>The payload and the printed status\<close>

text \<open>QuerySPB payloads and their two bytes are in bijection, and the printed status is
''unknown'' exactly for the status bytes above 2.\<close>

lemma query_spb_payload:
  "(query_spb_decode_response bs = Inr p \<longleftrightarrow> query_spb_encode_response p = bs) \<and>
   (query_spb_status_to_string s = ''unknown'' \<longleftrightarrow> 2 < unat (status_byte s))"
  using query_spb_response_iff query_spb_status_unknown_iff by simp

end
