(* ===== verification/Le_Key.thy ===== *)
theory Le_Key
  imports Batch Std_Regex
begin

text \<open>
  Link-encryption keys on the wire and in text: the records and payload codecs of
  \<^verbatim>\<open>include/asm/le_key.hpp\<close> and \<^verbatim>\<open>src/asm/le_key.cpp\<close>, the hexadecimal form of a
  key and one line of the \<^verbatim>\<open>JSONL\<close> key file. The stores are in \<open>Le_Key_Store\<close>.
\<close>

section \<open>Records\<close>

record le_key_record =
  key_id :: u32
  key_bytes :: array16
  expire_time :: u32
  attribute_data :: u64

definition append_record :: "byte_buffer \<Rightarrow> le_key_record \<Rightarrow> byte_buffer" where
  "append_record out key =
     append_be_u64
       (append_be_u32 (append_be_u32 out (key_id key) @ bytes16 (key_bytes key)) (expire_time key))
       (attribute_data key)"

definition decode_record :: "byte_buffer \<Rightarrow> nat \<Rightarrow> le_key_record result" where
  "decode_record bytes offset =
     (if length bytes < offset + 32 then Inl (AsmError ''LE key batch item truncated'')
      else bindE (decode_be_u32 bytes offset) (\<lambda>i.
        bindE (decode_be_u32 bytes (offset + 4 + 16)) (\<lambda>expire.
          bindE (decode_be_u64 bytes (offset + 4 + 16 + 4)) (\<lambda>attr.
            Inr \<lparr>key_id = i, key_bytes = array16_of (take 16 (drop (offset + 4) bytes)),
                 expire_time = expire, attribute_data = attr\<rparr>))))"

section \<open>Payload codecs\<close>

definition key_encode_u32_batch :: "u32 list \<Rightarrow> byte_buffer" where
  "key_encode_u32_batch values =
     foldl append_be_u32
       (append_be_u32 (append_be_u32 [] (word_of_nat (length values))) 4) values"

definition key_decode_u32_batch :: "byte_buffer \<Rightarrow> u32 list result" where
  "key_decode_u32_batch bytes =
     (if length bytes < 8 then Inl (AsmError ''LEKeyID batch too short'')
      else bindE (decode_be_u32 bytes 0) (\<lambda>count.
        bindE (decode_be_u32 bytes 4) (\<lambda>item_length.
          if item_length \<noteq> 4 then Inl (AsmError ''LEKeyID batch item length must be 4'')
          else if length bytes \<noteq> 8 + unat count * 4 then Inl (AsmError ''LEKeyID batch size mismatch'')
          else traverseE (\<lambda>i. decode_be_u32 bytes (8 + i * 4)) [0..<unat count])))"

record le_key_load_request_payload =
  load_request_keys :: "le_key_record list"

record le_key_load_response_payload =
  load_overflow :: bool

record le_key_query_id_request_payload =
  query_id_key_id :: u32

record le_key_query_id_response_payload =
  query_id_key_present :: bool

record le_key_query_all_response_payload =
  query_all_key_ids :: "u32 list"

record le_key_purge_id_request_payload =
  purge_id_key_id :: u32

record le_key_purge_id_response_payload =
  purge_id_no_key_id :: bool

definition encode_load_request :: "le_key_load_request_payload \<Rightarrow> byte_buffer" where
  "encode_load_request payload =
     foldl append_record
       (append_be_u32 (append_be_u32 [] (word_of_nat (length (load_request_keys payload)))) 32)
       (load_request_keys payload)"

definition decode_load_request :: "byte_buffer \<Rightarrow> le_key_load_request_payload result" where
  "decode_load_request bytes =
     (if length bytes < 8 then Inl (AsmError ''LEKeyLoad payload too short'')
      else bindE (decode_be_u32 bytes 0) (\<lambda>count.
        bindE (decode_be_u32 bytes 4) (\<lambda>item_length.
          if item_length \<noteq> 32 then Inl (AsmError ''LEKeyLoad item length must be 32'')
          else if length bytes \<noteq> 8 + unat count * 32 then Inl (AsmError ''LEKeyLoad payload size mismatch'')
          else mapE (\<lambda>keys. \<lparr>load_request_keys = keys\<rparr>)
            (traverseE (\<lambda>i. decode_record bytes (8 + i * 32)) [0..<unat count]))))"

definition encode_flag :: "bool \<Rightarrow> byte_buffer" where
  "encode_flag flag = [if flag then 1 else 0]"

definition encode_load_response :: "le_key_load_response_payload \<Rightarrow> byte_buffer" where
  "encode_load_response payload = encode_flag (load_overflow payload)"

definition decode_load_response :: "byte_buffer \<Rightarrow> le_key_load_response_payload result" where
  "decode_load_response bytes =
     (if length bytes \<noteq> 1 then Inl (AsmError ''LEKeyLoad response payload must be 1 byte'')
      else Inr \<lparr>load_overflow = (bytes ! 0 \<noteq> 0)\<rparr>)"

definition encode_query_id_request :: "le_key_query_id_request_payload \<Rightarrow> byte_buffer" where
  "encode_query_id_request payload = append_be_u32 [] (query_id_key_id payload)"

definition decode_query_id_request :: "byte_buffer \<Rightarrow> le_key_query_id_request_payload result" where
  "decode_query_id_request bytes =
     (if length bytes \<noteq> 4 then Inl (AsmError ''LEKeyQueryID request payload must be 4 bytes'')
      else mapE (\<lambda>i. \<lparr>query_id_key_id = i\<rparr>) (decode_be_u32 bytes 0))"

definition encode_query_id_response :: "le_key_query_id_response_payload \<Rightarrow> byte_buffer" where
  "encode_query_id_response payload = encode_flag (query_id_key_present payload)"

definition decode_query_id_response :: "byte_buffer \<Rightarrow> le_key_query_id_response_payload result" where
  "decode_query_id_response bytes =
     (if length bytes \<noteq> 1 then Inl (AsmError ''LEKeyQueryID response payload must be 1 byte'')
      else Inr \<lparr>query_id_key_present = (bytes ! 0 \<noteq> 0)\<rparr>)"

definition encode_query_all_response :: "le_key_query_all_response_payload \<Rightarrow> byte_buffer" where
  "encode_query_all_response payload = key_encode_u32_batch (query_all_key_ids payload)"

definition decode_query_all_response :: "byte_buffer \<Rightarrow> le_key_query_all_response_payload result" where
  "decode_query_all_response bytes =
     mapE (\<lambda>ids. \<lparr>query_all_key_ids = ids\<rparr>) (key_decode_u32_batch bytes)"

definition encode_purge_id_request :: "le_key_purge_id_request_payload \<Rightarrow> byte_buffer" where
  "encode_purge_id_request payload = append_be_u32 [] (purge_id_key_id payload)"

definition decode_purge_id_request :: "byte_buffer \<Rightarrow> le_key_purge_id_request_payload result" where
  "decode_purge_id_request bytes =
     (if length bytes \<noteq> 4 then Inl (AsmError ''LEKeyPurgeID request payload must be 4 bytes'')
      else mapE (\<lambda>i. \<lparr>purge_id_key_id = i\<rparr>) (decode_be_u32 bytes 0))"

definition encode_purge_id_response :: "le_key_purge_id_response_payload \<Rightarrow> byte_buffer" where
  "encode_purge_id_response payload = encode_flag (purge_id_no_key_id payload)"

definition decode_purge_id_response :: "byte_buffer \<Rightarrow> le_key_purge_id_response_payload result" where
  "decode_purge_id_response bytes =
     (if length bytes \<noteq> 1 then Inl (AsmError ''LEKeyPurgeID response payload must be 1 byte'')
      else Inr \<lparr>purge_id_no_key_id = (bytes ! 0 \<noteq> 0)\<rparr>)"

section \<open>Keys in hexadecimal, keys in JSONL lines\<close>

definition bytes_to_hex :: "byte_buffer \<Rightarrow> string" where
  "bytes_to_hex bytes = foldl (\<lambda>out b. out @ hex_byte b) [] bytes"

definition hex_to_key :: "string \<Rightarrow> array16 result" where
  "hex_to_key hex =
     (if length hex \<noteq> 32 then Inl (AsmError ''LE key hex string must be 32 characters'')
      else mapE array16_of
        (traverseE (\<lambda>i. mapE ucast (stoul 16 (take 2 (drop (i * 2) hex)))) [0..<16]))"

definition key_json_name :: "string \<Rightarrow> re_item list" where
  "key_json_name name =
     re_literal ([CHR 0x22] @ name @ [CHR 0x22]) @ re_space_star @ re_literal '':'' @ re_space_star"

definition key_json_comma :: "re_item list" where
  "key_json_comma = re_space_star @ re_literal '','' @ re_space_star"

definition key_pattern :: "re_item list" where
  "key_pattern =
     re_space_star @ re_literal ''{'' @ re_space_star
     @ key_json_name ''key_id'' @ [Group Digit_Class 1 None] @ key_json_comma
     @ key_json_name ''key'' @ re_literal [CHR 0x22] @ [Group Hex_Class 32 (Some 32)]
     @ re_literal [CHR 0x22] @ key_json_comma
     @ key_json_name ''expire_time'' @ [Group Digit_Class 1 None] @ key_json_comma
     @ key_json_name ''attribute_data'' @ [Group Digit_Class 1 None]
     @ re_space_star @ re_literal ''}'' @ re_space_star"

definition key_of_groups :: "string \<Rightarrow> string \<Rightarrow> string \<Rightarrow> string \<Rightarrow> le_key_record result" where
  "key_of_groups i key expire attr =
     bindE (stoul 10 i) (\<lambda>i'.
     bindE (hex_to_key key) (\<lambda>k.
     bindE (stoul 10 expire) (\<lambda>e.
     bindE (stoull 10 attr) (\<lambda>a.
       Inr \<lparr>key_id = ucast i', key_bytes = k, expire_time = ucast e, attribute_data = a\<rparr>))))"

definition parse_key_line :: "string \<Rightarrow> le_key_record result" where
  "parse_key_line line =
     (case re_match key_pattern line of
        Some [i, key, expire, attr] \<Rightarrow> key_of_groups i key expire attr
      | _ \<Rightarrow> Inl (AsmError ''invalid LEKey JSONL line format''))"

text \<open>The line \<^verbatim>\<open>persist\<close> writes for one key, without its newline.\<close>

definition key_jsonl_line :: "le_key_record \<Rightarrow> string" where
  \<open>key_jsonl_line key =
     ''{"key_id":'' @ dec_string (unat (key_id key))
     @ '',"key":"'' @ bytes_to_hex (bytes16 (key_bytes key))
     @ ''","expire_time":'' @ dec_string (unat (expire_time key))
     @ '',"attribute_data":'' @ dec_string (unat (attribute_data key)) @ ''}''\<close>

section \<open>The thirty-two bytes of a record\<close>

lemma append_record_bytes:
  "append_record out key = out @ append_be_u32 [] (key_id key) @ bytes16 (key_bytes key)
     @ append_be_u32 [] (expire_time key) @ append_be_u64 [] (attribute_data key)"
proof -
  have "append_be_u32 (append_be_u32 out (key_id key) @ bytes16 (key_bytes key)) (expire_time key)
      = out @ append_be_u32 [] (key_id key) @ bytes16 (key_bytes key) @ append_be_u32 [] (expire_time key)"
    using append_be_u32_append [of out "key_id key"]
      append_be_u32_append [of "append_be_u32 out (key_id key) @ bytes16 (key_bytes key)" "expire_time key"]
    by simp
  then show ?thesis
    unfolding append_record_def by (subst append_be_u64_append) simp
qed

lemma length_append_record [simp, codec_simps]: "length (append_record out key) = length out + 32"
  by (simp add: append_record_bytes)

lemma decode_append_record:
  "decode_record (pre @ append_record [] key @ post) (length pre) = Inr key"
proof -
  let ?i = "append_be_u32 [] (key_id key)" and ?k = "bytes16 (key_bytes key)"
    and ?e = "append_be_u32 [] (expire_time key)" and ?a = "append_be_u64 [] (attribute_data key)"
  let ?bs = "pre @ append_record [] key @ post"
  have "decode_be_u32 ?bs (length pre) = Inr (key_id key)"
    using decode_append_be_u32 [of pre "key_id key" "?k @ ?e @ ?a @ post"]
    by (simp add: append_record_bytes)
  moreover have "decode_be_u32 ?bs (length pre + 4 + 16) = Inr (expire_time key)"
    using decode_append_be_u32 [of "pre @ ?i @ ?k" "expire_time key" "?a @ post"]
    by (simp add: append_record_bytes add.assoc)
  moreover have "decode_be_u64 ?bs (length pre + 4 + 16 + 4) = Inr (attribute_data key)"
    using decode_append_be_u64 [of "pre @ ?i @ ?k @ ?e" "attribute_data key" post]
    by (simp add: append_record_bytes add.assoc)
  moreover have "take 16 (drop (length pre + 4) ?bs) = ?k"
    by (simp add: append_record_bytes)
  ultimately show ?thesis by (simp add: decode_record_def)
qed

lemma append_decode_record:
  assumes "decode_record bs off = Inr key"
  shows "append_record [] key = take 32 (drop off bs)"
proof -
  from assms have len: "off + 32 \<le> length bs"
    and i: "decode_be_u32 bs off = Inr (key_id key)"
    and k: "key_bytes key = array16_of (take 16 (drop (off + 4) bs))"
    and e: "decode_be_u32 bs (off + 20) = Inr (expire_time key)"
    and a: "decode_be_u64 bs (off + 24) = Inr (attribute_data key)"
    by (auto simp: decode_record_def bindE_eq_Inr add.assoc split: if_splits)
  have "bytes16 (key_bytes key) = take 16 (drop (off + 4) bs)"
    using len by (simp add: k)
  then show ?thesis
    using append_decode_be_u32 [OF i] append_decode_be_u32 [OF e] append_decode_be_u64 [OF a]
      take_drop_concat_step [of 4 28 off bs] take_drop_concat_step [of 16 12 "off + 4" bs]
      take_drop_concat_step [of 4 8 "off + 20" bs]
    by (simp add: append_record_bytes add.commute)
qed

interpretation key_items: item_codec append_record decode_record 32
proof unfold_locales
  fix out x show "append_record out x = out @ append_record [] x" by (simp add: append_record_bytes)
next
  fix x show "length (append_record [] x) = 32" by simp
next
  fix pre x post show "decode_record (pre @ append_record [] x @ post) (length pre) = Inr x"
    by (rule decode_append_record)
next
  fix bs off x assume "decode_record bs off = Inr x"
  then show "append_record [] x = take 32 (drop off bs)" by (rule append_decode_record)
next
  fix off bs assume "off + 32 \<le> length (bs :: byte_buffer)"
  then show "\<exists>x. decode_record bs off = Inr x"
    by (simp add: decode_record_def decode_be_u32_def decode_be_u64_def)
qed

section \<open>Payload round trips\<close>

lemma encode_load_request_eq: "encode_load_request p = encode_batch append_record 32 (load_request_keys p)"
  by (simp add: encode_load_request_def encode_batch_def)

lemma decode_load_request_eq:
  "decode_load_request bs = mapE (\<lambda>keys. \<lparr>load_request_keys = keys\<rparr>)
     (decode_batch (AsmError ''LEKeyLoad payload too short'') (AsmError ''LEKeyLoad item length must be 32'')
       (AsmError ''LEKeyLoad payload size mismatch'') decode_record 32 bs)"
  by (simp add: decode_load_request_def decode_batch_def mapE_if mapE_bindE cong: if_cong)

lemma key_encode_u32_batch_eq: "key_encode_u32_batch = encode_batch append_be_u32 4"
  by (rule ext) (simp add: key_encode_u32_batch_def encode_batch_def)

lemma key_decode_u32_batch_eq:
  "key_decode_u32_batch = decode_batch (AsmError ''LEKeyID batch too short'')
     (AsmError ''LEKeyID batch item length must be 4'') (AsmError ''LEKeyID batch size mismatch'') decode_be_u32 4"
  by (rule ext) (simp add: key_decode_u32_batch_def decode_batch_def)

lemma load_request_iff:
  "decode_load_request bs = Inr \<lparr>load_request_keys = keys\<rparr> \<longleftrightarrow>
     length keys < 2 ^ 32 \<and> encode_load_request \<lparr>load_request_keys = keys\<rparr> = bs"
  by (simp add: decode_load_request_eq encode_load_request_eq mapE_eq_Inr key_items.decode_batch_iff)

lemma load_request_errors:
  "decode_load_request bs = Inl e \<Longrightarrow> \<exists>m. e = AsmError m"
  using key_items.decode_batch_errors by (fastforce simp: decode_load_request_eq mapE_eq_Inl)

lemma length_encode_load_request [codec_simps]:
  "length (encode_load_request \<lparr>load_request_keys = keys\<rparr>) = 8 + 32 * length keys"
  by (simp add: encode_load_request_eq key_items.length_encode_batch)

lemma query_all_response_iff:
  "decode_query_all_response bs = Inr \<lparr>query_all_key_ids = ids\<rparr> \<longleftrightarrow>
     length ids < 2 ^ 32 \<and> encode_query_all_response \<lparr>query_all_key_ids = ids\<rparr> = bs"
  by (simp add: decode_query_all_response_def encode_query_all_response_def mapE_eq_Inr
      key_encode_u32_batch_eq key_decode_u32_batch_eq u32_items.decode_batch_iff)

lemma length_encode_query_all_response [codec_simps]:
  "length (encode_query_all_response \<lparr>query_all_key_ids = ids\<rparr>) = 8 + 4 * length ids"
  by (simp add: encode_query_all_response_def key_encode_u32_batch_eq u32_items.length_encode_batch)

lemma length_encode_flag [simp, codec_simps]: "length (encode_flag b) = 1"
  by (simp add: encode_flag_def)

lemma flag_responses [simp, roundtrip_simps]:
  "decode_load_response (encode_load_response \<lparr>load_overflow = b\<rparr>) = Inr \<lparr>load_overflow = b\<rparr>"
  "decode_query_id_response (encode_query_id_response \<lparr>query_id_key_present = b\<rparr>) = Inr \<lparr>query_id_key_present = b\<rparr>"
  "decode_purge_id_response (encode_purge_id_response \<lparr>purge_id_no_key_id = b\<rparr>) = Inr \<lparr>purge_id_no_key_id = b\<rparr>"
  by (simp_all add: decode_load_response_def encode_load_response_def decode_query_id_response_def
      encode_query_id_response_def decode_purge_id_response_def encode_purge_id_response_def encode_flag_def)

lemma query_id_request_iff:
  "decode_query_id_request bs = Inr \<lparr>query_id_key_id = i\<rparr> \<longleftrightarrow>
     encode_query_id_request \<lparr>query_id_key_id = i\<rparr> = bs"
  by (auto simp: decode_query_id_request_def encode_query_id_request_def decode_be_u32_whole mapE_eq_Inr)

lemma purge_id_request_iff:
  "decode_purge_id_request bs = Inr \<lparr>purge_id_key_id = i\<rparr> \<longleftrightarrow>
     encode_purge_id_request \<lparr>purge_id_key_id = i\<rparr> = bs"
  by (auto simp: decode_purge_id_request_def encode_purge_id_request_def decode_be_u32_whole mapE_eq_Inr)

section \<open>Text round trips\<close>

lemma bytes_to_hex_concat: "bytes_to_hex bs = concat (map hex_byte bs)"
proof -
  have "foldl (\<lambda>out b. out @ hex_byte b) acc bs = acc @ concat (map hex_byte bs)" for acc
    by (induction bs arbitrary: acc) simp_all
  then show ?thesis by (simp add: bytes_to_hex_def)
qed

lemma length_bytes_to_hex [simp, codec_simps]: "length (bytes_to_hex bs) = 2 * length bs"
  unfolding bytes_to_hex_concat by (induction bs) simp_all

lemma bytes_to_hex_digits [simp]: "list_all is_hex_digit (bytes_to_hex bs)"
  using hex_byte_digits by (auto simp: bytes_to_hex_concat list_all_iff)

lemma bytes_to_hex_pair:
  "i < length bs \<Longrightarrow> take 2 (drop (i * 2) (bytes_to_hex bs)) = hex_byte (bs ! i)"
  unfolding bytes_to_hex_concat
proof (induction bs arbitrary: i)
  case Nil
  then show ?case by simp
next
  case (Cons b bs)
  then show ?case by (cases i) simp_all
qed

lemma bytes_to_hex_inject: "bytes_to_hex a = bytes_to_hex b \<Longrightarrow> length a = length b \<Longrightarrow> a = b"
proof (rule nth_equalityI)
  fix i assume eq: "bytes_to_hex a = bytes_to_hex b" "length a = length b" and i: "i < length a"
  then have "hex_byte (a ! i) = hex_byte (b ! i)"
    using bytes_to_hex_pair [of i a] bytes_to_hex_pair [of i b] by simp
  then show "a ! i = b ! i" by (metis num_value_hex_byte unat_eq_iff)
qed

lemma hex_to_key_bytes_to_hex [simp, roundtrip_simps]:
  "hex_to_key (bytes_to_hex (bytes16 a)) = Inr a"
proof -
  have "traverseE (\<lambda>i. mapE ucast (stoul 16 (take 2 (drop (i * 2) (bytes_to_hex (bytes16 a)))))) [0..<16]
      = Inr (map (\<lambda>i. bytes16 a ! i) [0..<16])"
    by (rule traverseE_all_Inr) (simp add: bytes_to_hex_pair stoul_def)
  moreover have "map (\<lambda>i. bytes16 a ! i) [0..<16] = bytes16 a"
    using map_nth [of "bytes16 a"] by simp
  ultimately show ?thesis by (simp add: hex_to_key_def)
qed

lemma match_key_jsonl_line:
  "re_match key_pattern (key_jsonl_line k) =
    Some [dec_string (unat (key_id k)), bytes_to_hex (bytes16 (key_bytes k)),
          dec_string (unat (expire_time k)), dec_string (unat (attribute_data k))]"
  by (simp add: key_pattern_def key_jsonl_line_def key_json_name_def key_json_comma_def
      re_print_simps re_match_group)

lemma parse_key_jsonl_line [simp, roundtrip_simps]: "parse_key_line (key_jsonl_line k) = Inr k"
  by (simp add: parse_key_line_def match_key_jsonl_line key_of_groups_def stoul_def stoull_def
      unat_u64_less)

lemma key_jsonl_line_no_newline: "CHR ''\<newline>'' \<notin> set (key_jsonl_line k)"
proof -
  have "\<not> is_hex_digit CHR ''\<newline>''" by (simp add: is_hex_digit_def is_digit_def char_code_def)
  then have "CHR ''\<newline>'' \<notin> set (bytes_to_hex bs)" for bs
    using bytes_to_hex_digits [of bs] by (auto simp: list_all_iff)
  moreover have "\<not> is_digit CHR ''\<newline>''" by (simp add: is_digit_def char_code_def)
  then have "CHR ''\<newline>'' \<notin> set (dec_string n)" for n
    using dec_string_digits by blast
  ultimately show ?thesis by (simp add: key_jsonl_line_def)
qed

lemma key_jsonl_line_nonempty [simp]: "key_jsonl_line k \<noteq> []"
  by (simp add: key_jsonl_line_def)

text \<open>The brace that ends a line is nowhere else in it, and no line is accepted without one.\<close>

lemma key_jsonl_line_brace: "n < length (key_jsonl_line k) \<Longrightarrow> CHR ''}'' \<notin> set (take n (key_jsonl_line k))"
proof -
  assume n: "n < length (key_jsonl_line k)"
  define body where \<open>body = ''{"key_id":'' @ dec_string (unat (key_id k))
     @ '',"key":"'' @ bytes_to_hex (bytes16 (key_bytes k))
     @ ''","expire_time":'' @ dec_string (unat (expire_time k))
     @ '',"attribute_data":'' @ dec_string (unat (attribute_data k))\<close>
  have line: "key_jsonl_line k = body @ ''}''" by (simp add: key_jsonl_line_def body_def)
  have "\<not> is_hex_digit CHR ''}''" by (simp add: is_hex_digit_def is_digit_def char_code_def)
  then have "CHR ''}'' \<notin> set (bytes_to_hex bs)" for bs
    using bytes_to_hex_digits [of bs] by (auto simp: list_all_iff)
  moreover have "\<not> is_digit CHR ''}''" by (simp add: is_digit_def char_code_def)
  then have "CHR ''}'' \<notin> set (dec_string m)" for m
    using dec_string_digits by blast
  ultimately have "CHR ''}'' \<notin> set body" by (simp add: body_def)
  moreover have "take n (key_jsonl_line k) = take n body" using n by (simp add: line)
  ultimately show ?thesis by (auto dest: in_set_takeD)
qed

lemma parse_key_line_brace:
  assumes "parse_key_line l = Inr k"
  shows "CHR ''}'' \<in> set l"
proof -
  from assms obtain cs where "re_match key_pattern l = Some cs"
    by (auto simp: parse_key_line_def split: option.splits)
  then show ?thesis
    by (rule re_match_literal) (simp add: key_pattern_def re_literal_def)
qed

lemma parse_key_line_truncated:
  assumes "n < length (key_jsonl_line k)"
  shows "\<exists>e. parse_key_line (take n (key_jsonl_line k)) = Inl e"
  using parse_key_line_brace key_jsonl_line_brace [OF assms]
  by (cases "parse_key_line (take n (key_jsonl_line k))") auto

text \<open>How long a line can be: ten digits for each 32-bit field, twenty for the 64-bit one.\<close>

lemma length_key_jsonl_line: "length (key_jsonl_line k) \<le> 125"
proof -
  have u32: "length (dec_string (unat w)) \<le> 10" for w :: u32
    using length_dec_string [of "unat w" 10] unat_u32_less [of w] by simp
  have u64: "length (dec_string (unat w)) \<le> 20" for w :: u64
    using length_dec_string [of "unat w" 20] unat_u64_less [of w] by simp
  show ?thesis
    using u32 [of "key_id k"] u32 [of "expire_time k"] u64 [of "attribute_data k"]
    by (simp add: key_jsonl_line_def)
qed

section \<open>Properties\<close>

text \<open>C16: an LEKeyLoad payload decodes to a list of keys exactly when it is that list's encoding, of
eight bytes and thirty-two more for each key; a payload that decodes to nothing is refused with an
\<^verbatim>\<open>AsmError\<close>.\<close>

theorem load_request_roundtrip:
  "(decode_load_request bs = Inr \<lparr>load_request_keys = ks\<rparr> \<longleftrightarrow>
      length ks < 2 ^ 32 \<and> encode_load_request \<lparr>load_request_keys = ks\<rparr> = bs) \<and>
   length (encode_load_request \<lparr>load_request_keys = ks\<rparr>) = 8 + 32 * length ks \<and>
   (decode_load_request bs = Inl e \<longrightarrow> (\<exists>m. e = AsmError m))"
  using load_request_iff [of bs ks] length_encode_load_request [of ks] load_request_errors [of bs e]
  by blast

theorem load_request_roundtrip_witness:
  "let k = \<lparr>key_id = 7, key_bytes = array16_of [1, 2, 3], expire_time = 3600, attribute_data = 9\<rparr>;
       payload = encode_load_request \<lparr>load_request_keys = [k]\<rparr> in
   decode_load_request payload = Inr \<lparr>load_request_keys = [k]\<rparr> \<and> length payload = 40 \<and>
   (\<exists>m. decode_load_request (take 39 payload) = Inl (AsmError m))"
proof -
  let ?k = "\<lparr>key_id = 7, key_bytes = array16_of [1, 2, 3], expire_time = 3600, attribute_data = 9\<rparr>"
  let ?payload = "encode_load_request \<lparr>load_request_keys = [?k]\<rparr>"
  have p: "decode_load_request ?payload = Inr \<lparr>load_request_keys = [?k]\<rparr>" "length ?payload = 40"
    using load_request_roundtrip [of ?payload "[?k]"] by simp_all
  have "\<exists>m. decode_load_request (take 39 ?payload) = Inl (AsmError m)"
  proof (cases "decode_load_request (take 39 ?payload)")
    case (Inl e)
    with load_request_roundtrip [of "take 39 ?payload" "[]" e] show ?thesis by auto
  next
    case (Inr r)
    obtain ks where "r = \<lparr>load_request_keys = ks\<rparr>" by (cases r) simp
    with Inr have "length (take 39 ?payload) = 8 + 32 * length ks"
      using load_request_roundtrip [of "take 39 ?payload" ks] by metis
    then have "39 = 8 + 32 * length ks" using p(2) by simp
    then have False by presburger
    then show ?thesis ..
  qed
  with p show ?thesis by (simp only: Let_def)
qed

text \<open>C17: the line the store writes for a key is one line, and reads back as that key: every field,
whatever its bytes.\<close>

theorem key_line_roundtrip:
  "parse_key_line (key_jsonl_line k) = Inr k \<and> CHR ''\<newline>'' \<notin> set (key_jsonl_line k)"
  using parse_key_jsonl_line key_jsonl_line_no_newline by simp

end
