(* ===== verification/Le_Key_Store.thy ===== *)
theory Le_Key_Store
  imports Le_Key
begin

text \<open>
  The key stores of \<^verbatim>\<open>src/asm/le_key.cpp\<close>: \<^verbatim>\<open>InMemoryLeKeyStore\<close> and
  \<^verbatim>\<open>JsonlLeKeyStore\<close>, which writes the whole store back to its file after each change.
  The virtual functions of \<^verbatim>\<open>LeKeyStore\<close> are the record \<open>le_key_store\<close>; the locale
  \<open>le_key_store_contract\<close> says what a client may rely on, over the finite map from key ids to
  keys that a store stands for. Both stores interpret it.
\<close>

section \<open>The shared list operations\<close>

definition kCapacity :: nat where
  "kCapacity = 16"

definition would_overflow :: "le_key_record list \<Rightarrow> le_key_record list \<Rightarrow> nat \<Rightarrow> bool" where
  "would_overflow incoming existing capacity =
     (foldl (\<lambda>unique_count key.
        if find (\<lambda>current. key_id current = key_id key) existing = None
        then unique_count + 1 else unique_count) (length existing) incoming > capacity)"

text \<open>Overwrite the first key with the same id, or push the new one back.\<close>

primrec upsert :: "le_key_record list \<Rightarrow> le_key_record \<Rightarrow> le_key_record list" where
  "upsert [] incoming = [incoming]"
| "upsert (current # rest) incoming =
     (if key_id current = key_id incoming then incoming # rest else current # upsert rest incoming)"

section \<open>The in-memory store\<close>

record in_memory_le_key_store =
  mem_keys :: "le_key_record list"

definition in_memory_load_keys :: "le_key_record list \<Rightarrow> (in_memory_le_key_store, bool) op" where
  "in_memory_load_keys keys st =
     (if would_overflow keys (mem_keys st) kCapacity then (Inr True, st)
      else (Inr False, st\<lparr>mem_keys := foldl upsert (mem_keys st) keys\<rparr>))"

definition in_memory_contains_key :: "u32 \<Rightarrow> in_memory_le_key_store \<Rightarrow> bool" where
  "in_memory_contains_key i st = list_ex (\<lambda>key. key_id key = i) (mem_keys st)"

definition in_memory_list_key_ids :: "in_memory_le_key_store \<Rightarrow> u32 list" where
  "in_memory_list_key_ids st = map key_id (mem_keys st)"

definition in_memory_purge_key :: "u32 \<Rightarrow> (in_memory_le_key_store, bool) op" where
  "in_memory_purge_key i st =
     (let before = length (mem_keys st); keys = filter (\<lambda>key. key_id key \<noteq> i) (mem_keys st)
      in (Inr (length keys \<noteq> before), st\<lparr>mem_keys := keys\<rparr>))"

definition in_memory_purge_all :: "(in_memory_le_key_store, unit) op" where
  "in_memory_purge_all st = (Inr (), st\<lparr>mem_keys := []\<rparr>)"

section \<open>The store behind a file\<close>

text \<open>
  The file the store owns: its content (\<open>None\<close> when it does not exist), whether opening it for
  reading and for writing succeeds, and how many characters the device takes for it.
\<close>

record key_file =
  file_content :: "string option"
  file_readable :: bool
  file_writable :: bool
  file_room :: nat

record jsonl_le_key_store =
  js_file :: key_file
  js_keys :: "le_key_record list"

primrec load_key_lines :: "nat \<Rightarrow> string list \<Rightarrow> le_key_record list result" where
  "load_key_lines line_number [] = Inr []"
| "load_key_lines line_number (line # rest) =
     (if line = [] then load_key_lines (line_number + 1) rest
      else case parse_key_line line of
        Inl ex \<Rightarrow> Inl (AsmError (''failed to parse LEKey JSONL line '' @ dec_string line_number
                                 @ '': '' @ what ex))
      | Inr key \<Rightarrow> mapE ((#) key) (load_key_lines (line_number + 1) rest))"

definition open_jsonl_le_key_store :: "key_file \<Rightarrow> jsonl_le_key_store result" where
  "open_jsonl_le_key_store file =
     (case file_content file of
        None \<Rightarrow>
          if \<not> file_writable file then Inl (AsmError ''failed to create LEKey JSONL store'')
          else Inr \<lparr>js_file = file\<lparr>file_content := Some []\<rparr>, js_keys = []\<rparr>
      | Some content \<Rightarrow>
          if \<not> file_readable file then Inl (AsmError ''failed to open LEKey JSONL store'')
          else mapE (\<lambda>keys. \<lparr>js_file = file, js_keys = keys\<rparr>) (load_key_lines 1 (getlines content)))"

definition keys_file :: "le_key_record list \<Rightarrow> string" where
  "keys_file keys = concat (map (\<lambda>key. key_jsonl_line key @ [CHR ''\<newline>'']) keys)"

text \<open>
  Opening truncates the file; then the stream writes what the device has room for. A write that fails sets
  a flag of the stream, and \<^verbatim>\<open>persist\<close> asks for it neither after a line nor at the end.
\<close>

definition persist :: "(jsonl_le_key_store, unit) op" where
  "persist st =
     (let f = js_file st in
      if \<not> file_writable f then (Inl (AsmError ''failed to persist LEKey JSONL store''), st)
      else (Inr (), st\<lparr>js_file := f\<lparr>file_content := Some (take (file_room f) (keys_file (js_keys st)))\<rparr>\<rparr>))"

definition jsonl_load_keys :: "le_key_record list \<Rightarrow> (jsonl_le_key_store, bool) op" where
  "jsonl_load_keys keys st =
     (if would_overflow keys (js_keys st) kCapacity then (Inr True, st)
      else bindO persist (\<lambda>_. returnO False) (st\<lparr>js_keys := foldl upsert (js_keys st) keys\<rparr>))"

definition jsonl_contains_key :: "u32 \<Rightarrow> jsonl_le_key_store \<Rightarrow> bool" where
  "jsonl_contains_key i st = list_ex (\<lambda>key. key_id key = i) (js_keys st)"

definition jsonl_list_key_ids :: "jsonl_le_key_store \<Rightarrow> u32 list" where
  "jsonl_list_key_ids st = map key_id (js_keys st)"

definition jsonl_purge_key :: "u32 \<Rightarrow> (jsonl_le_key_store, bool) op" where
  "jsonl_purge_key i st =
     (let before = length (js_keys st); keys = filter (\<lambda>key. key_id key \<noteq> i) (js_keys st);
          removed = (length keys \<noteq> before); st' = st\<lparr>js_keys := keys\<rparr>
      in if removed then bindO persist (\<lambda>_. returnO removed) st' else (Inr removed, st'))"

definition jsonl_purge_all :: "(jsonl_le_key_store, unit) op" where
  "jsonl_purge_all st = persist (st\<lparr>js_keys := []\<rparr>)"

section \<open>The interface\<close>

record 's le_key_store =
  load_keys :: "le_key_record list \<Rightarrow> ('s, bool) op"
  contains_key :: "u32 \<Rightarrow> 's \<Rightarrow> bool"
  list_key_ids :: "'s \<Rightarrow> u32 list"
  purge_key :: "u32 \<Rightarrow> ('s, bool) op"
  purge_all :: "('s, unit) op"

definition in_memory_store :: "in_memory_le_key_store le_key_store" where
  "in_memory_store = \<lparr>load_keys = in_memory_load_keys, contains_key = in_memory_contains_key,
     list_key_ids = in_memory_list_key_ids, purge_key = in_memory_purge_key,
     purge_all = in_memory_purge_all\<rparr>"

definition jsonl_store :: "jsonl_le_key_store le_key_store" where
  "jsonl_store = \<lparr>load_keys = jsonl_load_keys, contains_key = jsonl_contains_key,
     list_key_ids = jsonl_list_key_ids, purge_key = jsonl_purge_key, purge_all = jsonl_purge_all\<rparr>"

section \<open>The map a list of keys stands for\<close>

definition key_map :: "le_key_record list \<Rightarrow> u32 \<Rightarrow> le_key_record option" where
  "key_map keys i = find (\<lambda>key. key_id key = i) keys"

definition load_map :: "(u32 \<Rightarrow> le_key_record option) \<Rightarrow> le_key_record list \<Rightarrow> u32 \<Rightarrow> le_key_record option" where
  "load_map m keys = foldl (\<lambda>m key. m(key_id key \<mapsto> key)) m keys"

definition keys_ok :: "le_key_record list \<Rightarrow> bool" where
  "keys_ok keys \<longleftrightarrow> distinct (map key_id keys) \<and> length keys \<le> kCapacity"

lemma dom_key_map: "dom (key_map keys) = key_id ` set keys"
  by (auto simp: key_map_def dom_def find_None_iff simp del: not_None_eq)

lemma key_map_Nil [simp]: "key_map [] = Map.empty"
  by (rule ext) (simp add: key_map_def)

lemma key_map_upsert: "key_map (upsert keys k) = (key_map keys)(key_id k \<mapsto> k)"
  by (rule ext) (induction keys, auto simp: key_map_def)

lemma dom_load_map: "dom (load_map m ks) = dom m \<union> key_id ` set ks"
  unfolding load_map_def by (induction ks arbitrary: m) auto

lemma key_map_loads: "key_map (foldl upsert keys ks) = load_map (key_map keys) ks"
  unfolding load_map_def by (induction ks arbitrary: keys) (simp_all add: key_map_upsert)

lemma key_map_purge: "key_map (filter (\<lambda>key. key_id key \<noteq> i) keys) = (key_map keys)(i := None)"
  by (rule ext) (induction keys, auto simp: key_map_def)

lemma ids_upsert:
  "map key_id (upsert keys k) =
     (if key_id k \<in> key_id ` set keys then map key_id keys else map key_id keys @ [key_id k])"
  by (induction keys) auto

lemma set_ids_upsert: "key_id ` set (upsert keys k) = insert (key_id k) (key_id ` set keys)"
  using arg_cong [OF ids_upsert [of keys k], of set] by (auto split: if_splits)

lemma set_ids_loads: "key_id ` set (foldl upsert keys ks) = key_id ` set keys \<union> key_id ` set ks"
  by (induction ks arbitrary: keys) (auto simp: set_ids_upsert)

lemma distinct_upsert: "distinct (map key_id keys) \<Longrightarrow> distinct (map key_id (upsert keys k))"
  by (simp add: ids_upsert)

lemma distinct_loads: "distinct (map key_id keys) \<Longrightarrow> distinct (map key_id (foldl upsert keys ks))"
  by (induction ks arbitrary: keys) (simp_all add: distinct_upsert)

lemma length_distinct_ids: "distinct (map key_id keys) \<Longrightarrow> length keys = card (key_id ` set keys)"
  by (metis distinct_card length_map list.set_map)

section \<open>Capacity\<close>

text \<open>The keys of a batch that are new to a set of ids, and whether a store refuses the batch.\<close>

definition new_keys :: "u32 set \<Rightarrow> le_key_record list \<Rightarrow> le_key_record list" where
  "new_keys ids incoming = filter (\<lambda>key. key_id key \<notin> ids) incoming"

definition refuses :: "(u32 \<Rightarrow> le_key_record option) \<Rightarrow> le_key_record list \<Rightarrow> bool" where
  "refuses m incoming \<longleftrightarrow> kCapacity < card (dom m) + length (new_keys (dom m) incoming)"

lemma would_overflow_count:
  "would_overflow incoming existing capacity \<longleftrightarrow>
     length existing + length (new_keys (key_id ` set existing) incoming) > capacity"
proof -
  have none: "find (\<lambda>current. key_id current = key_id key) existing = None \<longleftrightarrow>
      key_id key \<notin> key_id ` set existing" for key
    by (force simp: find_None_iff image_iff)
  have "foldl (\<lambda>n key. if find (\<lambda>current. key_id current = key_id key) existing = None then n + 1 else n) c incoming
      = c + length (new_keys (key_id ` set existing) incoming)" for c
    unfolding none new_keys_def by (induction incoming arbitrary: c) simp_all
  then show ?thesis by (simp add: would_overflow_def)
qed

lemma union_new_keys: "ids \<union> key_id ` set incoming = ids \<union> key_id ` set (new_keys ids incoming)"
  by (auto simp: new_keys_def)

lemma card_load_le:
  "card (ids \<union> key_id ` set incoming) \<le> card ids + length (new_keys ids incoming)"
proof -
  have "card (ids \<union> key_id ` set incoming) \<le> card ids + card (key_id ` set (new_keys ids incoming))"
    by (subst union_new_keys) (rule card_Un_le)
  also have "card (key_id ` set (new_keys ids incoming)) \<le> length (new_keys ids incoming)"
    by (metis card_length length_map list.set_map)
  finally show ?thesis by simp
qed

lemma card_load_eq:
  assumes "finite ids" and "distinct (map key_id incoming)"
  shows "card (ids \<union> key_id ` set incoming) = card ids + length (new_keys ids incoming)"
proof -
  have "distinct (map key_id (new_keys ids incoming))"
    using assms(2) by (simp add: new_keys_def distinct_map_filter)
  then have "length (new_keys ids incoming) = card (key_id ` set (new_keys ids incoming))"
    by (rule length_distinct_ids)
  moreover have "ids \<inter> key_id ` set (new_keys ids incoming) = {}"
    by (auto simp: new_keys_def)
  ultimately show ?thesis
    using assms(1) by (subst union_new_keys) (simp add: card_Un_disjoint)
qed

lemma would_overflow_refuses:
  assumes "keys_ok keys"
  shows "would_overflow ks keys kCapacity \<longleftrightarrow> refuses (key_map keys) ks"
proof -
  have "length keys = card (key_id ` set keys)"
    using assms length_distinct_ids [of keys] by (simp add: keys_ok_def)
  then show ?thesis by (simp add: would_overflow_count refuses_def dom_key_map)
qed

lemma refuses_when_full:
  "kCapacity < card (dom m \<union> key_id ` set ks) \<Longrightarrow> refuses m ks"
  using card_load_le [of "dom m" ks] by (simp add: refuses_def)

lemma accepts_when_fits:
  "finite (dom m) \<Longrightarrow> distinct (map key_id ks) \<Longrightarrow>
     refuses m ks \<longleftrightarrow> kCapacity < card (dom m \<union> key_id ` set ks)"
  using card_load_eq [of "dom m" ks] by (simp add: refuses_def)

lemma keys_ok_loads:
  assumes "keys_ok keys" and "\<not> refuses (key_map keys) ks"
  shows "keys_ok (foldl upsert keys ks)"
proof -
  have d: "distinct (map key_id (foldl upsert keys ks))"
    using assms(1) by (simp add: keys_ok_def distinct_loads)
  have "length (foldl upsert keys ks) = card (dom (key_map keys) \<union> key_id ` set ks)"
    using length_distinct_ids [OF d] by (simp add: set_ids_loads dom_key_map)
  also have "\<dots> \<le> kCapacity"
    using refuses_when_full [of "key_map keys" ks] assms(2) by linarith
  finally show ?thesis using d by (simp add: keys_ok_def)
qed

lemma keys_ok_purge: "keys_ok keys \<Longrightarrow> keys_ok (filter P keys)"
  by (auto simp: keys_ok_def distinct_map_filter intro: order_trans [OF length_filter_le])

lemma keys_ok_Nil [simp]: "keys_ok []"
  by (simp add: keys_ok_def)

lemma removed_iff: "length (filter (\<lambda>key. key_id key \<noteq> i) keys) \<noteq> length keys \<longleftrightarrow> key_map keys i \<noteq> None"
proof -
  have "length (filter (\<lambda>key. key_id key \<noteq> i) keys) = length keys \<longleftrightarrow> (\<forall>k\<in>set keys. key_id k \<noteq> i)"
    by (metis (mono_tags, lifting) filter_True length_filter_less nat_less_le)
  then show ?thesis by (auto simp: key_map_def find_None_iff simp del: not_None_eq)
qed

lemma contains_iff: "list_ex (\<lambda>key. key_id key = i) keys \<longleftrightarrow> key_map keys i \<noteq> None"
  by (auto simp: key_map_def find_None_iff list_ex_iff simp del: not_None_eq)

section \<open>What a client of \<^verbatim>\<open>LeKeyStore\<close> may rely on\<close>

text \<open>
  \<open>held s\<close> is the map the store holds and \<open>ok s\<close> its invariant. A load either reports overflow
  and leaves the map alone, or stores every key, later ones winning; it reports overflow exactly
  when the keys it holds and the entries of the batch with a new id are more than sixteen.
\<close>

locale le_key_store_contract =
  fixes store :: "'s le_key_store"
    and held :: "'s \<Rightarrow> u32 \<Rightarrow> le_key_record option"
    and ok :: "'s \<Rightarrow> bool"
  assumes load: "ok s \<Longrightarrow> \<exists>s'. load_keys store ks s = (Inr (refuses (held s) ks), s') \<and> ok s' \<and>
      held s' = (if refuses (held s) ks then held s else load_map (held s) ks)"
    and contains: "ok s \<Longrightarrow> contains_key store i s \<longleftrightarrow> held s i \<noteq> None"
    and list_ids: "ok s \<Longrightarrow> distinct (list_key_ids store s) \<and> set (list_key_ids store s) = dom (held s)"
    and purge: "ok s \<Longrightarrow> \<exists>s'. purge_key store i s = (Inr (held s i \<noteq> None), s') \<and> ok s' \<and>
      held s' = (held s)(i := None)"
    and purge_everything: "ok s \<Longrightarrow> \<exists>s'. purge_all store s = (Inr (), s') \<and> ok s' \<and> held s' = Map.empty"
    and capacity: "ok s \<Longrightarrow> card (dom (held s)) \<le> kCapacity"
begin

lemma load_cases:
  assumes "ok s" and "load_keys store ks s = (r, s')"
  obtains (overflow) "r = Inr True" "refuses (held s) ks" "ok s'" "held s' = held s"
    | (stored) "r = Inr False" "\<not> refuses (held s) ks" "ok s'" "held s' = load_map (held s) ks"
  using load [OF assms(1), of ks] assms(2) by (cases "refuses (held s) ks") auto

lemma finite_dom: "ok s \<Longrightarrow> finite (dom (held s))"
  using list_ids [of s] by (metis List.finite_set)

lemma load_full:
  assumes "ok s" and "kCapacity < card (dom (held s) \<union> key_id ` set ks)"
  shows "fst (load_keys store ks s) = Inr True"
  using load [OF assms(1), of ks] refuses_when_full [OF assms(2)] by auto

lemma load_fits:
  assumes "ok s" and "distinct (map key_id ks)" and "card (dom (held s) \<union> key_id ` set ks) \<le> kCapacity"
  shows "fst (load_keys store ks s) = Inr False"
  using load [OF assms(1), of ks] accepts_when_fits [OF finite_dom [OF assms(1)] assms(2)] assms(3) by auto

lemma list_length: "ok s \<Longrightarrow> length (list_key_ids store s) \<le> kCapacity"
  using list_ids capacity distinct_card by fastforce

lemma loaded_contains:
  assumes "ok s" and "load_keys store ks s = (Inr False, s')"
  shows "contains_key store i s' \<longleftrightarrow> contains_key store i s \<or> i \<in> key_id ` set ks"
proof (rule load_cases [OF assms])
  assume st: "ok s'" "held s' = load_map (held s) ks"
  then have "dom (held s') = dom (held s) \<union> key_id ` set ks" by (simp add: dom_load_map)
  then show ?thesis
    unfolding contains [OF st(1)] contains [OF assms(1)] domIff [symmetric] by simp
qed simp

lemma purged_not_contained:
  assumes "ok s" and "purge_key store i s = (r, s')"
  shows "\<not> contains_key store i s'"
    and "j \<noteq> i \<Longrightarrow> contains_key store j s' \<longleftrightarrow> contains_key store j s"
  using purge [OF assms(1), of i] assms contains by auto

lemma purge_twice:
  assumes "ok s" and "purge_key store i s = (r, s')"
  shows "fst (purge_key store i s') = Inr False"
  using purge [OF assms(1), of i] purge [of s' i] assms(2) by auto

lemma purged_all_empty:
  assumes "ok s" and "purge_all store s = (r, s')"
  shows "list_key_ids store s' = []"
  using purge_everything [OF assms(1)] list_ids [of s'] assms(2) by auto

end

section \<open>The in-memory store keeps the contract\<close>

definition memory_ok :: "in_memory_le_key_store \<Rightarrow> bool" where
  "memory_ok st \<longleftrightarrow> keys_ok (mem_keys st)"

definition memory_map :: "in_memory_le_key_store \<Rightarrow> u32 \<Rightarrow> le_key_record option" where
  "memory_map st = key_map (mem_keys st)"

lemmas in_memory_defs = in_memory_store_def in_memory_load_keys_def in_memory_contains_key_def
  in_memory_list_key_ids_def in_memory_purge_key_def in_memory_purge_all_def memory_ok_def memory_map_def

lemmas key_list_facts = key_map_loads key_map_purge dom_key_map keys_ok_loads keys_ok_purge
  would_overflow_refuses contains_iff

lemma keys_ok_card: "keys_ok keys \<Longrightarrow> card (dom (key_map keys)) \<le> kCapacity"
  using length_distinct_ids [of keys] by (simp add: keys_ok_def dom_key_map)

lemma keys_ok_ids: "keys_ok keys \<Longrightarrow> distinct (map key_id keys)"
  by (simp add: keys_ok_def)

interpretation memory_keys: le_key_store_contract in_memory_store memory_map memory_ok
proof unfold_locales
  fix s :: in_memory_le_key_store and ks :: "le_key_record list" and i :: u32
  assume ok: "memory_ok s"
  show "\<exists>s'. load_keys in_memory_store ks s = (Inr (refuses (memory_map s) ks), s') \<and> memory_ok s' \<and>
      memory_map s' = (if refuses (memory_map s) ks then memory_map s else load_map (memory_map s) ks)"
    using ok by (cases "refuses (key_map (mem_keys s)) ks")
      (simp_all add: in_memory_defs would_overflow_refuses keys_ok_loads key_map_loads)
  show "contains_key in_memory_store i s \<longleftrightarrow> memory_map s i \<noteq> None"
    by (simp add: in_memory_defs key_list_facts)
  show "distinct (list_key_ids in_memory_store s) \<and> set (list_key_ids in_memory_store s) = dom (memory_map s)"
    using ok by (simp add: in_memory_defs key_list_facts keys_ok_ids)
  show "\<exists>s'. purge_key in_memory_store i s = (Inr (memory_map s i \<noteq> None), s') \<and> memory_ok s' \<and>
      memory_map s' = (memory_map s)(i := None)"
    using ok removed_iff [of i "mem_keys s"] by (simp add: in_memory_defs key_list_facts Let_def)
  show "\<exists>s'. purge_all in_memory_store s = (Inr (), s') \<and> memory_ok s' \<and> memory_map s' = Map.empty"
    by (simp add: in_memory_defs)
  show "card (dom (memory_map s)) \<le> kCapacity"
    using ok by (simp add: in_memory_defs keys_ok_card)
qed

section \<open>The file store: what is written is read back\<close>

lemma getlines_keys_file: "getlines (keys_file keys) = map key_jsonl_line keys"
  using getlines_concat [of "map key_jsonl_line keys"] key_jsonl_line_no_newline
  by (auto simp: keys_file_def comp_def)

lemma load_key_lines_map: "load_key_lines n (map key_jsonl_line keys) = Inr keys"
  by (induction keys arbitrary: n) simp_all

lemma load_keys_file [simp, roundtrip_simps]:
  "load_key_lines n (getlines (keys_file keys)) = Inr keys"
  by (simp add: getlines_keys_file load_key_lines_map)

lemma open_keys_file:
  "file_content f = Some (keys_file keys) \<Longrightarrow> file_readable f \<Longrightarrow>
     open_jsonl_le_key_store f = Inr \<lparr>js_file = f, js_keys = keys\<rparr>"
  by (simp add: open_jsonl_le_key_store_def)

text \<open>\<open>durable st\<close>: reopening the file would give exactly the keys in memory.\<close>

definition durable :: "jsonl_le_key_store \<Rightarrow> bool" where
  "durable st \<longleftrightarrow> (case file_content (js_file st) of None \<Rightarrow> False
     | Some content \<Rightarrow> load_key_lines 1 (getlines content) = Inr (js_keys st))"

text \<open>
  \<open>roomy f\<close>: the device has room for a full store, sixteen lines of at most 125 characters and their
  newlines.
\<close>

definition roomy :: "key_file \<Rightarrow> bool" where
  "roomy f \<longleftrightarrow> kCapacity * 126 \<le> file_room f"

definition file_ok :: "jsonl_le_key_store \<Rightarrow> bool" where
  "file_ok st \<longleftrightarrow> file_writable (js_file st) \<and> roomy (js_file st) \<and> durable st \<and> keys_ok (js_keys st)"

lemma length_keys_file: "length (keys_file keys) \<le> length keys * 126"
proof (induction keys)
  case Nil
  then show ?case by (simp add: keys_file_def)
next
  case (Cons k keys)
  then show ?case using length_key_jsonl_line [of k] by (simp add: keys_file_def)
qed

lemma roomy_fits:
  assumes "roomy f" and "keys_ok keys"
  shows "length (keys_file keys) \<le> file_room f"
proof -
  have "length keys * 126 \<le> kCapacity * 126" using assms(2) by (simp add: keys_ok_def)
  with assms(1) length_keys_file [of keys] show ?thesis unfolding roomy_def by linarith
qed

definition file_map :: "jsonl_le_key_store \<Rightarrow> u32 \<Rightarrow> le_key_record option" where
  "file_map st = key_map (js_keys st)"

lemma open_durable: "open_jsonl_le_key_store f = Inr st \<Longrightarrow> durable st"
  by (auto simp: open_jsonl_le_key_store_def durable_def mapE_eq_Inr split: option.splits if_splits)

lemma durable_reopen:
  "durable st \<Longrightarrow> file_readable (js_file st) \<Longrightarrow> open_jsonl_le_key_store (js_file st) = Inr st"
  by (auto simp: open_jsonl_le_key_store_def durable_def split: option.splits)

lemma persist_file_ok:
  assumes "file_writable (js_file st)" and "roomy (js_file st)" and "keys_ok (js_keys st)"
  shows "\<exists>st'. persist st = (Inr (), st') \<and> file_ok st' \<and> js_keys st' = js_keys st"
  using assms roomy_fits [OF assms(2,3)]
  by (simp add: persist_def durable_def file_ok_def roomy_def Let_def)

lemma persist_then:
  assumes "file_writable (js_file st)" and "roomy (js_file st)" and "keys_ok (js_keys st)"
  shows "\<exists>st'. bindO persist (\<lambda>_. returnO x) st = (Inr x, st') \<and> file_ok st' \<and> js_keys st' = js_keys st"
  using persist_file_ok [OF assms] by (auto simp: bindO_def)

lemmas jsonl_defs = jsonl_store_def jsonl_load_keys_def jsonl_contains_key_def
  jsonl_list_key_ids_def jsonl_purge_key_def jsonl_purge_all_def file_map_def

interpretation file_keys: le_key_store_contract jsonl_store file_map file_ok
proof unfold_locales
  fix s :: jsonl_le_key_store and ks :: "le_key_record list" and i :: u32
  assume ok: "file_ok s"
  have wo: "would_overflow ks (js_keys s) kCapacity \<longleftrightarrow> refuses (file_map s) ks"
    using ok by (simp add: file_ok_def file_map_def would_overflow_refuses)
  show "\<exists>s'. load_keys jsonl_store ks s = (Inr (refuses (file_map s) ks), s') \<and> file_ok s' \<and>
      file_map s' = (if refuses (file_map s) ks then file_map s else load_map (file_map s) ks)"
  proof (cases "refuses (file_map s) ks")
    case True
    with ok wo show ?thesis by (simp add: jsonl_store_def jsonl_load_keys_def)
  next
    case False
    then have fits: "keys_ok (foldl upsert (js_keys s) ks)"
      using ok by (simp add: file_ok_def file_map_def keys_ok_loads)
    with ok False wo show ?thesis
      using persist_then [of "s\<lparr>js_keys := foldl upsert (js_keys s) ks\<rparr>" False]
      by (auto simp: jsonl_defs file_ok_def key_map_loads)
  qed
  show "contains_key jsonl_store i s \<longleftrightarrow> file_map s i \<noteq> None"
    by (simp add: jsonl_defs key_list_facts)
  show "distinct (list_key_ids jsonl_store s) \<and> set (list_key_ids jsonl_store s) = dom (file_map s)"
    using ok by (simp add: jsonl_defs file_ok_def key_list_facts keys_ok_ids)
  show "\<exists>s'. purge_key jsonl_store i s = (Inr (file_map s i \<noteq> None), s') \<and> file_ok s' \<and>
      file_map s' = (file_map s)(i := None)"
  proof (cases "file_map s i = None")
    case True
    then have same: "filter (\<lambda>key. key_id key \<noteq> i) (js_keys s) = js_keys s"
      by (auto simp: file_map_def key_map_def find_None_iff intro: filter_True)
    with ok True show ?thesis by (simp add: jsonl_defs Let_def fun_upd_idem)
  next
    case False
    then show ?thesis
      using ok removed_iff [of i "js_keys s"]
        persist_then [of "s\<lparr>js_keys := filter (\<lambda>key. key_id key \<noteq> i) (js_keys s)\<rparr>" True]
      by (auto simp: jsonl_defs file_ok_def key_list_facts Let_def)
  qed
  show "\<exists>s'. purge_all jsonl_store s = (Inr (), s') \<and> file_ok s' \<and> file_map s' = Map.empty"
    using ok persist_file_ok [of "s\<lparr>js_keys := []\<rparr>"] by (auto simp: jsonl_defs file_ok_def)
  show "card (dom (file_map s)) \<le> kCapacity"
    using ok by (simp add: file_map_def file_ok_def keys_ok_card)
qed

section \<open>Properties\<close>

lemma load_map_apply:
  "load_map m ks i = (case find (\<lambda>k. key_id k = i) (rev ks) of None \<Rightarrow> m i | Some k \<Rightarrow> Some k)"
  unfolding load_map_def
  by (induction ks rule: rev_induct) (auto split: option.splits)

text \<open>C6: loading a batch into the in-memory store is refused, changing nothing, exactly when the keys
held and the entries with a new id are more than sixteen; otherwise each id of the batch holds its last
entry, every other id what it held, and there are still at most sixteen keys under distinct ids.\<close>

theorem memory_load_exact:
  assumes "memory_ok s"
  shows "\<exists>s'. in_memory_load_keys ks s = (Inr (refuses (memory_map s) ks), s') \<and> memory_ok s' \<and>
     (if refuses (memory_map s) ks then s' = s
      else \<forall>i. memory_map s' i =
        (case find (\<lambda>k. key_id k = i) (rev ks) of None \<Rightarrow> memory_map s i | Some k \<Rightarrow> Some k))"
proof -
  have wo: "would_overflow ks (mem_keys s) kCapacity \<longleftrightarrow> refuses (memory_map s) ks"
    using assms by (simp add: memory_ok_def memory_map_def would_overflow_refuses)
  show ?thesis
  proof (cases "refuses (memory_map s) ks")
    case True
    with wo assms show ?thesis by (simp add: in_memory_load_keys_def)
  next
    case False
    with assms have "keys_ok (foldl upsert (mem_keys s) ks)"
      by (simp add: memory_ok_def memory_map_def keys_ok_loads)
    with False wo show ?thesis
      unfolding memory_map_def by (simp add: in_memory_load_keys_def memory_ok_def key_map_loads load_map_apply)
  qed
qed

definition sample_key :: "u32 \<Rightarrow> le_key_record" where
  "sample_key i = \<lparr>key_id = i, key_bytes = array16_of (replicate 16 0), expire_time = 3600, attribute_data = 0\<rparr>"

theorem memory_load_exact_witness:
  "\<exists>s'. in_memory_load_keys [sample_key 7, sample_key 8] \<lparr>mem_keys = [sample_key 7]\<rparr> = (Inr False, s') \<and>
     memory_ok s' \<and> memory_map s' 8 = Some (sample_key 8)"
proof -
  have nr: "\<not> refuses (memory_map \<lparr>mem_keys = [sample_key 7]\<rparr>) [sample_key 7, sample_key 8]"
    by (simp add: refuses_def memory_map_def dom_key_map new_keys_def kCapacity_def sample_key_def)
  have "memory_ok \<lparr>mem_keys = [sample_key 7]\<rparr>"
    by (simp add: memory_ok_def keys_ok_def kCapacity_def)
  from memory_load_exact [OF this, of "[sample_key 7, sample_key 8]"] nr
  show ?thesis by (auto simp: sample_key_def)
qed

lemma persist_durable:
  "persist st = (Inr (), st') \<Longrightarrow> roomy (js_file st) \<Longrightarrow> keys_ok (js_keys st) \<Longrightarrow>
     durable st' \<and> file_readable (js_file st') = file_readable (js_file st)"
  by (auto simp: persist_def durable_def Let_def roomy_fits split: if_splits)

lemma load_durable:
  assumes "durable st" and "roomy (js_file st)" and "keys_ok (js_keys st)"
    and "jsonl_load_keys ks st = (Inr b, st')"
  shows "durable st' \<and> file_readable (js_file st') = file_readable (js_file st)"
proof (cases "would_overflow ks (js_keys st) kCapacity")
  case True
  with assms show ?thesis by (simp add: jsonl_load_keys_def)
next
  case False
  let ?st = "st\<lparr>js_keys := foldl upsert (js_keys st) ks\<rparr>"
  have "keys_ok (js_keys ?st)"
    using False assms(3) by (simp add: would_overflow_refuses keys_ok_loads)
  moreover have "persist ?st = (Inr (), st')"
    using False assms(4) by (auto simp: jsonl_load_keys_def bindO_def split: prod.splits sum.splits)
  ultimately show ?thesis using persist_durable [of ?st st'] assms(2) by simp
qed

lemma purge_durable:
  assumes "durable st" and "roomy (js_file st)" and "keys_ok (js_keys st)"
    and "jsonl_purge_key i st = (Inr b, st')"
  shows "durable st' \<and> file_readable (js_file st') = file_readable (js_file st)"
proof (cases "length (filter (\<lambda>key. key_id key \<noteq> i) (js_keys st)) = length (js_keys st)")
  case True
  then have "filter (\<lambda>key. key_id key \<noteq> i) (js_keys st) = js_keys st"
    by (metis (mono_tags, lifting) filter_True length_filter_less nat_less_le)
  with assms show ?thesis by (auto simp: jsonl_purge_key_def durable_def)
next
  case False
  let ?st = "st\<lparr>js_keys := filter (\<lambda>key. key_id key \<noteq> i) (js_keys st)\<rparr>"
  have "persist ?st = (Inr (), st')"
    using False assms(4) by (auto simp: jsonl_purge_key_def bindO_def Let_def split: prod.splits sum.splits)
  from persist_durable [OF this] assms(2,3) show ?thesis by (simp add: keys_ok_purge)
qed

text \<open>C7: while the device has room for a full store (2016 characters), whenever a change to the file
store returns, it is on disk: constructing a store from the file again gives exactly the state the store
is in. Nothing is lost by a restart.\<close>

theorem file_changes_durable:
  assumes "durable st" and "file_readable (js_file st)" and "roomy (js_file st)" and "keys_ok (js_keys st)"
  shows "(jsonl_load_keys ks st = (Inr b, st1) \<longrightarrow> open_jsonl_le_key_store (js_file st1) = Inr st1) \<and>
    (jsonl_purge_key i st = (Inr c, st2) \<longrightarrow> open_jsonl_le_key_store (js_file st2) = Inr st2) \<and>
    (jsonl_purge_all st = (Inr (), st3) \<longrightarrow> open_jsonl_le_key_store (js_file st3) = Inr st3)"
proof (intro conjI impI)
  assume "jsonl_load_keys ks st = (Inr b, st1)"
  from load_durable [OF assms(1,3,4) this] show "open_jsonl_le_key_store (js_file st1) = Inr st1"
    using assms(2) by (simp add: durable_reopen)
next
  assume "jsonl_purge_key i st = (Inr c, st2)"
  from purge_durable [OF assms(1,3,4) this] show "open_jsonl_le_key_store (js_file st2) = Inr st2"
    using assms(2) by (simp add: durable_reopen)
next
  assume "jsonl_purge_all st = (Inr (), st3)"
  then have "persist (st\<lparr>js_keys := []\<rparr>) = (Inr (), st3)" by (simp add: jsonl_purge_all_def)
  from persist_durable [OF this] show "open_jsonl_le_key_store (js_file st3) = Inr st3"
    using assms(2,3) by (simp add: durable_reopen)
qed

definition sample_file :: key_file where
  "sample_file = \<lparr>file_content = Some [], file_readable = True, file_writable = True, file_room = 4096\<rparr>"

lemma sample_file_simps [simp]:
  "file_content sample_file = Some []" "file_readable sample_file" "file_writable sample_file"
  "file_room sample_file = 4096" "roomy sample_file"
  by (simp_all add: sample_file_def roomy_def kCapacity_def)

lemma sample_room: "length keys \<le> 16 \<Longrightarrow> take 4096 (keys_file keys) = keys_file keys"
  using length_keys_file [of keys] by simp

theorem file_changes_durable_witness:
  "open_jsonl_le_key_store (sample_file\<lparr>file_content := Some (keys_file [sample_key 7])\<rparr>)
     = Inr \<lparr>js_file = sample_file\<lparr>file_content := Some (keys_file [sample_key 7])\<rparr>, js_keys = [sample_key 7]\<rparr>"
proof -
  let ?st = "\<lparr>js_file = sample_file, js_keys = []\<rparr>"
  have "durable ?st" by (simp add: durable_def)
  moreover have "file_readable (js_file ?st)" "roomy (js_file ?st)" "keys_ok (js_keys ?st)" by simp_all
  moreover have "jsonl_load_keys [sample_key 7] ?st =
      (Inr False, \<lparr>js_file = sample_file\<lparr>file_content := Some (keys_file [sample_key 7])\<rparr>, js_keys = [sample_key 7]\<rparr>)"
    by (simp add: jsonl_load_keys_def would_overflow_def kCapacity_def bindO_def persist_def sample_room)
  ultimately show ?thesis
    using file_changes_durable [of ?st "[sample_key 7]" False
        "\<lparr>js_file = sample_file\<lparr>file_content := Some (keys_file [sample_key 7])\<rparr>, js_keys = [sample_key 7]\<rparr>"]
    by simp
qed

text \<open>A batch that names one id seventeen times is refused by an empty store, though it would
occupy a single place: the check counts every entry of the batch whose id is new.\<close>

lemma duplicates_overflow:
  "in_memory_load_keys (replicate 17 k) \<lparr>mem_keys = []\<rparr> = (Inr True, \<lparr>mem_keys = []\<rparr>) \<and>
   foldl upsert [] (replicate 17 k) = [k]"
proof -
  have "new_keys {} (replicate 17 k) = replicate 17 k" by (simp add: new_keys_def)
  then have "would_overflow (replicate 17 k) [] kCapacity"
    by (simp add: would_overflow_count kCapacity_def)
  moreover have "foldl upsert [k] (replicate n k) = [k]" for n by (induction n) simp_all
  from this [of 16] have "foldl upsert [] (replicate 17 k) = [k]"
    by (simp add: numeral_eq_Suc)
  ultimately show ?thesis by (simp add: in_memory_load_keys_def)
qed

text \<open>C30: when the file cannot be written, an accepted load throws after it has changed the keys in
memory: the store then answers for the new keys, the file still holds the old ones, and reopening it
gives them back.\<close>

theorem persist_failure_diverges:
  assumes "durable st" and "file_readable (js_file st)" and "\<not> file_writable (js_file st)"
    and "\<not> would_overflow ks (js_keys st) kCapacity"
  shows "\<exists>st'. jsonl_load_keys ks st = (Inl (AsmError ''failed to persist LEKey JSONL store''), st') \<and>
     (\<forall>k\<in>set ks. jsonl_contains_key (key_id k) st') \<and>
     open_jsonl_le_key_store (js_file st') = Inr st"
proof -
  let ?st = "st\<lparr>js_keys := foldl upsert (js_keys st) ks\<rparr>"
  have "jsonl_load_keys ks st = (Inl (AsmError ''failed to persist LEKey JSONL store''), ?st)"
    using assms(3,4) by (simp add: jsonl_load_keys_def bindO_def persist_def)
  moreover have "jsonl_contains_key (key_id k) ?st" if "k \<in> set ks" for k
  proof -
    have "key_id k \<in> dom (key_map (foldl upsert (js_keys st) ks))"
      using that by (simp add: dom_key_map set_ids_loads)
    then show ?thesis by (simp add: jsonl_contains_key_def contains_iff domIff)
  qed
  moreover have "open_jsonl_le_key_store (js_file ?st) = Inr st"
    using durable_reopen [OF assms(1,2)] by simp
  ultimately show ?thesis by blast
qed

theorem persist_failure_diverges_witness:
  "\<exists>st'. jsonl_load_keys [sample_key 7] \<lparr>js_file = sample_file\<lparr>file_writable := False\<rparr>, js_keys = []\<rparr>
       = (Inl (AsmError ''failed to persist LEKey JSONL store''), st') \<and> jsonl_contains_key 7 st' \<and>
     open_jsonl_le_key_store (js_file st') =
       Inr \<lparr>js_file = sample_file\<lparr>file_writable := False\<rparr>, js_keys = []\<rparr>"
  using persist_failure_diverges [of "\<lparr>js_file = sample_file\<lparr>file_writable := False\<rparr>, js_keys = []\<rparr>" "[sample_key 7]"]
  by (simp add: durable_def would_overflow_def kCapacity_def sample_key_def)

text \<open>A file cut short: whole lines, then a part of the next one.\<close>

lemma take_keys_file:
  "n < length (keys_file keys) \<Longrightarrow> \<exists>j m. j < length keys \<and> m \<le> length (key_jsonl_line (keys ! j)) \<and>
     n = length (keys_file (take j keys)) + m \<and>
     take n (keys_file keys) = keys_file (take j keys) @ take m (key_jsonl_line (keys ! j))"
proof (induction keys arbitrary: n)
  case Nil
  then show ?case by (simp add: keys_file_def)
next
  case (Cons k keys)
  let ?line = "key_jsonl_line k"
  have out: "keys_file (k # keys) = ?line @ [CHR ''\<newline>''] @ keys_file keys" by (simp add: keys_file_def)
  show ?case
  proof (cases "n \<le> length ?line")
    case True
    then show ?thesis by (intro exI [of _ 0] exI [of _ n]) (simp add: out keys_file_def)
  next
    case False
    then obtain n' where n: "n = Suc (length ?line) + n'" by (metis Suc_leI add_diff_inverse_nat not_le)
    with Cons.prems have "n' < length (keys_file keys)" by (simp add: out)
    from Cons.IH [OF this] obtain j m where "j < length keys" "m \<le> length (key_jsonl_line (keys ! j))"
      "n' = length (keys_file (take j keys)) + m"
      "take n' (keys_file keys) = keys_file (take j keys) @ take m (key_jsonl_line (keys ! j))"
      by blast
    then show ?thesis by (intro exI [of _ "Suc j"] exI [of _ m]) (simp add: out n keys_file_def)
  qed
qed

lemma load_key_lines_append:
  "load_key_lines n (map key_jsonl_line keys @ ls) = mapE ((@) keys) (load_key_lines (n + length keys) ls)"
proof (induction keys arbitrary: n)
  case Nil
  then show ?case by (cases "load_key_lines n ls") simp_all
next
  case (Cons k keys)
  then show ?case by (cases "load_key_lines (n + length (k # keys)) ls") simp_all
qed

lemma load_cut_file:
  assumes "Suc n < length (keys_file keys)"
  shows "case load_key_lines 1 (getlines (take n (keys_file keys))) of
      Inl e \<Rightarrow> \<exists>m. e = AsmError m
    | Inr keys' \<Rightarrow> \<exists>j < length keys. keys' = take j keys"
proof -
  obtain j m where jm: "j < length keys" "m \<le> length (key_jsonl_line (keys ! j))"
    and n: "n = length (keys_file (take j keys)) + m"
    and cut: "take n (keys_file keys) = keys_file (take j keys) @ take m (key_jsonl_line (keys ! j))"
    using take_keys_file [of n keys] assms by auto
  let ?t = "take m (key_jsonl_line (keys ! j))"
  have "CHR ''\<newline>'' \<notin> set l" if "l \<in> set (map key_jsonl_line (take j keys))" for l
    using that key_jsonl_line_no_newline by auto
  moreover have "CHR ''\<newline>'' \<notin> set ?t" using key_jsonl_line_no_newline by (metis in_set_takeD)
  ultimately have "getlines (keys_file (take j keys) @ ?t) =
      map key_jsonl_line (take j keys) @ (if ?t = [] then [] else [?t])"
    using getlines_concat_last [of "map key_jsonl_line (take j keys)" ?t] by (simp add: keys_file_def comp_def)
  then have load: "load_key_lines 1 (getlines (take n (keys_file keys))) =
      mapE ((@) (take j keys)) (load_key_lines (1 + j) (if ?t = [] then [] else [?t]))"
    using jm(1) by (simp only: cut load_key_lines_append length_take min_absorb2 less_imp_le)
  consider "m = 0" | "0 < m" "m < length (key_jsonl_line (keys ! j))" | "m = length (key_jsonl_line (keys ! j))"
    using jm(2) by linarith
  then show ?thesis
  proof cases
    case 1
    with load jm(1) show ?thesis by auto
  next
    case 2
    then obtain e where "parse_key_line ?t = Inl e" using parse_key_line_truncated by blast
    with load 2 show ?thesis by simp
  next
    case 3
    have "length (keys_file (take (Suc j) keys)) = Suc n"
      using jm(1) by (simp add: n 3 take_Suc_conv_app_nth keys_file_def)
    then have "Suc j \<noteq> length keys" using assms by auto
    with load jm(1) 3 show ?thesis
      by (auto simp: take_Suc_conv_app_nth intro!: exI [of _ "Suc j"])
  qed
qed

text \<open>C31: a device that is full when the keys are written goes unnoticed: the load answers that the keys
are stored, the file holds only a part of them, and when the store is opened again it is refused with an
\<^verbatim>\<open>AsmError\<close>, or gives just the first keys and not the others.\<close>

theorem full_device_unnoticed:
  assumes "file_writable (js_file st)" and "file_readable (js_file st)"
    and "\<not> would_overflow ks (js_keys st) kCapacity"
    and "Suc (file_room (js_file st)) < length (keys_file (foldl upsert (js_keys st) ks))"
  shows "\<exists>st'. jsonl_load_keys ks st = (Inr False, st') \<and> js_keys st' = foldl upsert (js_keys st) ks \<and>
    (case open_jsonl_le_key_store (js_file st') of
       Inl e \<Rightarrow> \<exists>m. e = AsmError m
     | Inr reopened \<Rightarrow> \<exists>n < length (js_keys st'). js_keys reopened = take n (js_keys st'))"
proof -
  let ?keys = "foldl upsert (js_keys st) ks"
  let ?file = "(js_file st)\<lparr>file_content := Some (take (file_room (js_file st)) (keys_file ?keys))\<rparr>"
  let ?st = "st\<lparr>js_keys := ?keys, js_file := ?file\<rparr>"
  have "jsonl_load_keys ks st = (Inr False, ?st)"
    using assms(1,3) by (simp add: jsonl_load_keys_def bindO_def persist_def Let_def)
  moreover have "open_jsonl_le_key_store (js_file ?st) = mapE (\<lambda>keys. \<lparr>js_file = ?file, js_keys = keys\<rparr>)
      (load_key_lines 1 (getlines (take (file_room (js_file st)) (keys_file ?keys))))"
    using assms(2) by (simp add: open_jsonl_le_key_store_def)
  ultimately show ?thesis
    using load_cut_file [OF assms(4)] by (intro exI [of _ ?st]) (auto split: sum.splits)
qed

theorem full_device_unnoticed_witness:
  "\<exists>st'. jsonl_load_keys [sample_key 7] \<lparr>js_file = sample_file\<lparr>file_room := 50\<rparr>, js_keys = []\<rparr> = (Inr False, st') \<and>
     (\<forall>reopened. open_jsonl_le_key_store (js_file st') = Inr reopened \<longrightarrow> js_keys reopened = [])"
proof -
  let ?st = "\<lparr>js_file = sample_file\<lparr>file_room := 50\<rparr>, js_keys = []\<rparr>"
  have "Suc (file_room (js_file ?st)) < length (keys_file (foldl upsert (js_keys ?st) [sample_key 7]))"
    by (simp add: keys_file_def key_jsonl_line_def)
  moreover have "\<not> would_overflow [sample_key 7] (js_keys ?st) kCapacity"
    by (simp add: would_overflow_def kCapacity_def)
  ultimately obtain st' where "jsonl_load_keys [sample_key 7] ?st = (Inr False, st')" "length (js_keys st') = 1"
    and "case open_jsonl_le_key_store (js_file st') of Inl e \<Rightarrow> \<exists>m. e = AsmError m
      | Inr reopened \<Rightarrow> \<exists>n < length (js_keys st'). js_keys reopened = take n (js_keys st')"
    using full_device_unnoticed [of ?st "[sample_key 7]"] by auto
  then show ?thesis by (intro exI [of _ st'] conjI allI impI) simp_all
qed

text \<open>Opening a file checks neither the capacity nor that ids are distinct: any list of keys
written out is loaded as it stands. With more than sixteen the documented limit does not hold.\<close>

lemma open_is_unchecked:
  assumes "file_content f = Some (keys_file keys)" and "file_readable f"
  shows "\<exists>st. open_jsonl_le_key_store f = Inr st \<and> jsonl_list_key_ids st = map key_id keys"
  using open_keys_file [OF assms] by (simp add: jsonl_list_key_ids_def)

lemma open_unchecked_example:
  "\<exists>st. open_jsonl_le_key_store (sample_file\<lparr>file_content := Some (keys_file (map sample_key [1,2,3,4,5,6,7,8,9,10,11,12,13,14,15,16,17]))\<rparr>) = Inr st
     \<and> kCapacity < length (jsonl_list_key_ids st) \<and> distinct (jsonl_list_key_ids st)"
proof -
  let ?ks = "map sample_key [1,2,3,4,5,6,7,8,9,10,11,12,13,14,15,16,17]"
  obtain st where "open_jsonl_le_key_store (sample_file\<lparr>file_content := Some (keys_file ?ks)\<rparr>) = Inr st"
    and "jsonl_list_key_ids st = map key_id ?ks"
    using open_is_unchecked [of "sample_file\<lparr>file_content := Some (keys_file ?ks)\<rparr>" ?ks]
    by (auto simp: sample_file_def)
  moreover have "map key_id ?ks = [1,2,3,4,5,6,7,8,9,10,11,12,13,14,15,16,17]"
    by (simp add: sample_key_def)
  ultimately show ?thesis by (simp add: kCapacity_def)
qed

end
