(* ===== verification/Service.thy ===== *)
theory Service
  imports Codec Event_Log Query_Spb Le_Key_Store "HOL-Library.Signed_Division"
begin

text \<open>
  The service: \<^verbatim>\<open>include/asm/service.hpp\<close> and \<^verbatim>\<open>src/asm/service.cpp\<close>. One
  handler per command over the three stores the service is built from, the dispatch on the command,
  and the answer to what cannot be served. The key store is the only state; a handler that throws
  returns the state its calls left. The abstract specification \<open>serves\<close> says what an answer may be
  over the finite map of keys, and the handlers refine it for every key store that keeps
  \<open>le_key_store_contract\<close>.
\<close>

section \<open>Contexts, results and the service object\<close>

record peer_identity =
  peer_subject :: string
  peer_issuer :: string
  peer_thumbprint :: string

text \<open>A \<^verbatim>\<open>system_clock\<close> time point is its count of nanoseconds since the epoch.\<close>

record request_context =
  ctx_peer :: "peer_identity option"
  ctx_received_at :: int

record service_result =
  sr_response :: standard_response
  sr_note :: string

record 's asm_service =
  event_log :: event_log_store
  key_store :: "'s le_key_store"
  spb_provider :: static_query_spb_status_provider

definition asm_service_default :: "in_memory_le_key_store asm_service" where
  "asm_service_default =
     \<lparr>event_log = in_memory_event_log_store default_events, key_store = in_memory_store,
      spb_provider = \<lparr>provider_status = not_playing\<rparr>\<rparr>"

definition asm_service_with_log :: "event_log_store \<Rightarrow> in_memory_le_key_store asm_service" where
  "asm_service_with_log log =
     \<lparr>event_log = log, key_store = in_memory_store,
      spb_provider = \<lparr>provider_status = not_playing\<rparr>\<rparr>"

definition asm_service_with_stores ::
    "event_log_store \<Rightarrow> 's le_key_store \<Rightarrow> static_query_spb_status_provider \<Rightarrow> 's asm_service" where
  "asm_service_with_stores log keys spb = \<lparr>event_log = log, key_store = keys, spb_provider = spb\<rparr>"

text \<open>The clock's count is a parameter; \<^verbatim>\<open>duration_cast\<close> truncates towards zero.\<close>

definition current_utc_epoch_seconds :: "int \<Rightarrow> u64" where
  "current_utc_epoch_seconds now = word_of_int (now sdiv 1000000000)"

section \<open>Handlers\<close>

definition bad_request_result :: "byte_buffer \<Rightarrow> string \<Rightarrow> service_result" where
  "bad_request_result raw_request reason =
     \<lparr>sr_response = \<lparr>resp_command = bad_request, resp_id = None, resp_payload = raw_request,
                     resp_code = invalid\<rparr>,
      sr_note = reason\<rparr>"

definition reply :: "command \<Rightarrow> standard_request \<Rightarrow> byte_buffer \<Rightarrow> general_response \<Rightarrow> string \<Rightarrow> service_result" where
  "reply command request payload code note =
     \<lparr>sr_response = \<lparr>resp_command = command, resp_id = Some (req_id request),
                     resp_payload = payload, resp_code = code\<rparr>,
      sr_note = note\<rparr>"

definition handle_get_time :: "int \<Rightarrow> standard_request \<Rightarrow> service_result result" where
  "handle_get_time now request =
     Inr (reply get_time request (append_be_u64 [] (current_utc_epoch_seconds now)) successful
            ''GetTime handled'')"

definition handle_get_event_list :: "'s asm_service \<Rightarrow> standard_request \<Rightarrow> service_result result" where
  "handle_get_event_list svc request =
     bindE (event_list_decode_request (req_payload request)) (\<lambda>payload.
       if time_start payload > time_stop payload
       then Inr (reply get_event_list request [] invalid
                   ''GetEventList rejected because time_start > time_stop'')
       else Inr (reply get_event_list request
                   (event_list_encode_response
                      \<lparr>listed_event_ids = list_event_ids (event_log svc) (time_start payload) (time_stop payload)\<rparr>)
                   successful ''GetEventList handled''))"

definition handle_get_event_id :: "'s asm_service \<Rightarrow> standard_request \<Rightarrow> service_result result" where
  "handle_get_event_id svc request =
     bindE (event_id_decode_request (req_payload request)) (\<lambda>payload.
       case get_event_xml (event_log svc) (asked_event_id payload) of
         None \<Rightarrow> Inr (reply get_event_id request [] invalid
                        ''GetEventID rejected because event id was not found'')
       | Some xml \<Rightarrow> Inr (reply get_event_id request (event_id_encode_response \<lparr>log_record_xml = xml\<rparr>) successful
                        ''GetEventID handled''))"

definition handle_query_spb :: "'s asm_service \<Rightarrow> standard_request \<Rightarrow> service_result result" where
  "handle_query_spb svc request =
     (if req_payload request \<noteq> []
      then Inr (reply query_spb request [] invalid ''QuerySPB rejected because payload was not empty'')
      else Inr (reply query_spb request
                  (query_spb_encode_response
                     \<lparr>protocol_version = 0x01, spb_status = static_current_status (spb_provider svc)\<rparr>)
                  successful ''QuerySPB handled''))"

definition handle_le_key_load :: "'s asm_service \<Rightarrow> standard_request \<Rightarrow> ('s, service_result) op" where
  "handle_le_key_load svc request =
     bindO (liftO (decode_load_request (req_payload request))) (\<lambda>payload.
     bindO (load_keys (key_store svc) (load_request_keys payload)) (\<lambda>overflow.
     returnO (reply le_key_load request (encode_load_response \<lparr>load_overflow = overflow\<rparr>)
       (if overflow then failed else successful)
       (if overflow then ''LEKeyLoad rejected because key buffer would overflow''
        else ''LEKeyLoad handled''))))"

definition handle_le_key_query_id :: "'s asm_service \<Rightarrow> standard_request \<Rightarrow> ('s, service_result) op" where
  "handle_le_key_query_id svc request st =
     (bindE (decode_query_id_request (req_payload request)) (\<lambda>payload.
        Inr (reply le_key_query_id request
          (encode_query_id_response \<lparr>query_id_key_present =
              contains_key (key_store svc) (query_id_key_id payload) st\<rparr>) successful
          ''LEKeyQueryID handled'')), st)"

definition handle_le_key_query_all :: "'s asm_service \<Rightarrow> standard_request \<Rightarrow> ('s, service_result) op" where
  "handle_le_key_query_all svc request st =
     (if req_payload request \<noteq> []
      then Inr (reply le_key_query_all request [] invalid
                  ''LEKeyQueryAll rejected because payload was not empty'')
      else Inr (reply le_key_query_all request
                  (encode_query_all_response \<lparr>query_all_key_ids = list_key_ids (key_store svc) st\<rparr>) successful
                  ''LEKeyQueryAll handled''), st)"

definition handle_le_key_purge_id :: "'s asm_service \<Rightarrow> standard_request \<Rightarrow> ('s, service_result) op" where
  "handle_le_key_purge_id svc request =
     bindO (liftO (decode_purge_id_request (req_payload request))) (\<lambda>payload.
     bindO (purge_key (key_store svc) (purge_id_key_id payload)) (\<lambda>removed.
     returnO (reply le_key_purge_id request (encode_purge_id_response \<lparr>purge_id_no_key_id = \<not> removed\<rparr>) successful
       (if removed then ''LEKeyPurgeID handled''
        else ''LEKeyPurgeID handled with missing key id''))))"

definition handle_le_key_purge_all :: "'s asm_service \<Rightarrow> standard_request \<Rightarrow> ('s, service_result) op" where
  "handle_le_key_purge_all svc request =
     (if req_payload request \<noteq> []
      then returnO (reply le_key_purge_all request [] invalid
                      ''LEKeyPurgeAll rejected because payload was not empty'')
      else bindO (purge_all (key_store svc)) (\<lambda>_.
        returnO (reply le_key_purge_all request [] successful ''LEKeyPurgeAll handled'')))"

definition handle_request ::
    "'s asm_service \<Rightarrow> int \<Rightarrow> standard_request \<Rightarrow> byte_buffer \<Rightarrow> request_context \<Rightarrow> ('s, service_result) op" where
  "handle_request svc now request raw_request context =
     (if req_id request = 0
      then returnO (bad_request_result raw_request ''request id must be non-zero'')
      else case req_command request of
        get_time \<Rightarrow> liftO (handle_get_time now request)
      | get_event_list \<Rightarrow> liftO (handle_get_event_list svc request)
      | get_event_id \<Rightarrow> liftO (handle_get_event_id svc request)
      | query_spb \<Rightarrow> liftO (handle_query_spb svc request)
      | le_key_load \<Rightarrow> handle_le_key_load svc request
      | le_key_query_id \<Rightarrow> handle_le_key_query_id svc request
      | le_key_query_all \<Rightarrow> handle_le_key_query_all svc request
      | le_key_purge_id \<Rightarrow> handle_le_key_purge_id svc request
      | le_key_purge_all \<Rightarrow> handle_le_key_purge_all svc request
      | bad_request \<Rightarrow> returnO (bad_request_result raw_request ''unsupported request command''))"

definition handle_decode_failure :: "byte_buffer \<Rightarrow> string \<Rightarrow> service_result" where
  "handle_decode_failure raw_request reason = bad_request_result raw_request reason"

section \<open>Every answer can be encoded\<close>

lemmas handler_defs = handle_get_time_def handle_get_event_list_def handle_get_event_id_def
  handle_query_spb_def handle_le_key_load_def handle_le_key_query_id_def handle_le_key_query_all_def
  handle_le_key_purge_id_def handle_le_key_purge_all_def

lemma bad_request_result_response [simp]:
  "sr_response (bad_request_result raw reason) =
     \<lparr>resp_command = bad_request, resp_id = None, resp_payload = raw, resp_code = invalid\<rparr>"
  "sr_note (bad_request_result raw reason) = reason"
  by (simp_all add: bad_request_result_def)

text \<open>The answer to a request: its command and id, a payload and a code.\<close>

definition answer :: "standard_request \<Rightarrow> byte_buffer \<Rightarrow> general_response \<Rightarrow> standard_response" where
  "answer r payload code =
     \<lparr>resp_command = req_command r, resp_id = Some (req_id r), resp_payload = payload, resp_code = code\<rparr>"

definition rejected :: "byte_buffer \<Rightarrow> standard_response" where
  "rejected raw = \<lparr>resp_command = bad_request, resp_id = None, resp_payload = raw, resp_code = invalid\<rparr>"

lemma reply_answer [simp]:
  "req_command r = c \<Longrightarrow> sr_response (reply c r payload code note) = answer r payload code"
  by (auto simp: reply_def answer_def)

lemma answer_simps [simp]:
  "resp_command (answer r p c) = req_command r" "resp_id (answer r p c) = Some (req_id r)"
  "resp_payload (answer r p c) = p" "resp_code (answer r p c) = c"
  by (simp_all add: answer_def)

lemma rejected_simps [simp]:
  "resp_command (rejected raw) = bad_request" "resp_id (rejected raw) = None"
  "resp_payload (rejected raw) = raw" "resp_code (rejected raw) = invalid"
  by (simp_all add: rejected_def)

lemma response_wf_answer: "response_wf (answer r p c) \<longleftrightarrow> req_command r \<noteq> bad_request"
  by (simp add: response_wf_def)

lemma response_wf_rejected [simp]: "response_wf (rejected raw)"
  by (simp add: response_wf_def)

section \<open>The abstract service\<close>

text \<open>
  What a well-formed request may be answered, over the events, the playback status, the clock's
  seconds and the map of keys. The payload is described by what it encodes; the only freedom left
  to an implementation is the order in which the key ids are listed.
\<close>

record world =
  w_events :: "event_record list"
  w_status :: query_spb_status
  w_seconds :: u64

type_synonym keys = "u32 \<Rightarrow> le_key_record option"

inductive serves :: "world \<Rightarrow> keys \<Rightarrow> standard_request \<Rightarrow> byte_buffer \<Rightarrow> standard_response \<Rightarrow> keys \<Rightarrow> bool"
  for w :: world where
  zero_id: "req_id r = 0 \<Longrightarrow> serves w m r raw (rejected raw) m"
| unsupported: "req_id r \<noteq> 0 \<Longrightarrow> req_command r = bad_request \<Longrightarrow> serves w m r raw (rejected raw) m"
| time: "req_id r \<noteq> 0 \<Longrightarrow> req_command r = get_time \<Longrightarrow>
    serves w m r raw (answer r (append_be_u64 [] (w_seconds w)) successful) m"
| window: "req_id r \<noteq> 0 \<Longrightarrow> req_command r = get_event_list \<Longrightarrow>
    req_payload r = event_list_encode_request q \<Longrightarrow> time_start q \<le> time_stop q \<Longrightarrow>
    serves w m r raw (answer r (event_list_encode_response
      \<lparr>listed_event_ids = map ev_id (filter (in_window (time_start q) (time_stop q)) (w_events w))\<rparr>) successful) m"
| window_reversed: "req_id r \<noteq> 0 \<Longrightarrow> req_command r = get_event_list \<Longrightarrow>
    req_payload r = event_list_encode_request q \<Longrightarrow> time_stop q < time_start q \<Longrightarrow>
    serves w m r raw (answer r [] invalid) m"
| event: "req_id r \<noteq> 0 \<Longrightarrow> req_command r = get_event_id \<Longrightarrow>
    req_payload r = event_id_encode_request \<lparr>asked_event_id = i\<rparr> \<Longrightarrow> find (\<lambda>e. ev_id e = i) (w_events w) = Some e \<Longrightarrow>
    serves w m r raw (answer r (event_id_encode_response \<lparr>log_record_xml = render_event_xml e\<rparr>) successful) m"
| event_missing: "req_id r \<noteq> 0 \<Longrightarrow> req_command r = get_event_id \<Longrightarrow>
    req_payload r = event_id_encode_request \<lparr>asked_event_id = i\<rparr> \<Longrightarrow> i \<notin> ev_id ` set (w_events w) \<Longrightarrow>
    serves w m r raw (answer r [] invalid) m"
| status: "req_id r \<noteq> 0 \<Longrightarrow> req_command r = query_spb \<Longrightarrow> req_payload r = [] \<Longrightarrow>
    serves w m r raw (answer r (query_spb_encode_response
      \<lparr>protocol_version = 1, spb_status = w_status w\<rparr>) successful) m"
| status_payload: "req_id r \<noteq> 0 \<Longrightarrow> req_command r = query_spb \<Longrightarrow> req_payload r \<noteq> [] \<Longrightarrow>
    serves w m r raw (answer r [] invalid) m"
| load: "req_id r \<noteq> 0 \<Longrightarrow> req_command r = le_key_load \<Longrightarrow> length ks < 2 ^ 32 \<Longrightarrow>
    req_payload r = encode_load_request \<lparr>load_request_keys = ks\<rparr> \<Longrightarrow> \<not> refuses m ks \<Longrightarrow>
    serves w m r raw (answer r (encode_load_response \<lparr>load_overflow = False\<rparr>) successful) (load_map m ks)"
| load_refused: "req_id r \<noteq> 0 \<Longrightarrow> req_command r = le_key_load \<Longrightarrow> length ks < 2 ^ 32 \<Longrightarrow>
    req_payload r = encode_load_request \<lparr>load_request_keys = ks\<rparr> \<Longrightarrow> refuses m ks \<Longrightarrow>
    serves w m r raw (answer r (encode_load_response \<lparr>load_overflow = True\<rparr>) failed) m"
| query: "req_id r \<noteq> 0 \<Longrightarrow> req_command r = le_key_query_id \<Longrightarrow>
    req_payload r = encode_query_id_request \<lparr>query_id_key_id = i\<rparr> \<Longrightarrow>
    serves w m r raw (answer r (encode_query_id_response \<lparr>query_id_key_present = i \<in> dom m\<rparr>) successful) m"
| query_all: "req_id r \<noteq> 0 \<Longrightarrow> req_command r = le_key_query_all \<Longrightarrow> req_payload r = [] \<Longrightarrow>
    distinct ids \<Longrightarrow> set ids = dom m \<Longrightarrow>
    serves w m r raw (answer r (encode_query_all_response \<lparr>query_all_key_ids = ids\<rparr>) successful) m"
| query_all_payload: "req_id r \<noteq> 0 \<Longrightarrow> req_command r = le_key_query_all \<Longrightarrow> req_payload r \<noteq> [] \<Longrightarrow>
    serves w m r raw (answer r [] invalid) m"
| purge: "req_id r \<noteq> 0 \<Longrightarrow> req_command r = le_key_purge_id \<Longrightarrow>
    req_payload r = encode_purge_id_request \<lparr>purge_id_key_id = i\<rparr> \<Longrightarrow>
    serves w m r raw (answer r (encode_purge_id_response \<lparr>purge_id_no_key_id = i \<notin> dom m\<rparr>) successful) (m(i := None))"
| purge_all: "req_id r \<noteq> 0 \<Longrightarrow> req_command r = le_key_purge_all \<Longrightarrow> req_payload r = [] \<Longrightarrow>
    serves w m r raw (answer r [] successful) Map.empty"
| purge_all_payload: "req_id r \<noteq> 0 \<Longrightarrow> req_command r = le_key_purge_all \<Longrightarrow> req_payload r \<noteq> [] \<Longrightarrow>
    serves w m r raw (answer r [] invalid) m"

text \<open>A payload that no value of the command's request type encodes to.\<close>

definition malformed :: "standard_request \<Rightarrow> bool" where
  "malformed r \<longleftrightarrow> req_id r \<noteq> 0 \<and>
     (case req_command r of
        get_event_list \<Rightarrow> \<forall>q. req_payload r \<noteq> event_list_encode_request q
      | get_event_id \<Rightarrow> \<forall>i. req_payload r \<noteq> event_id_encode_request \<lparr>asked_event_id = i\<rparr>
      | le_key_load \<Rightarrow> \<forall>ks. length ks < 2 ^ 32 \<longrightarrow> req_payload r \<noteq> encode_load_request \<lparr>load_request_keys = ks\<rparr>
      | le_key_query_id \<Rightarrow> \<forall>i. req_payload r \<noteq> encode_query_id_request \<lparr>query_id_key_id = i\<rparr>
      | le_key_purge_id \<Rightarrow> \<forall>i. req_payload r \<noteq> encode_purge_id_request \<lparr>purge_id_key_id = i\<rparr>
      | _ \<Rightarrow> False)"

lemma serves_response_wf: "serves w m r raw resp m' \<Longrightarrow> response_wf resp"
  by (erule serves.cases) (simp_all add: response_wf_answer)

lemma serves_shape:
  "serves w m r raw resp m' \<Longrightarrow>
     resp = rejected raw \<and> m' = m \<and> (req_id r = 0 \<or> req_command r = bad_request) \<or>
     resp = answer r (resp_payload resp) (resp_code resp) \<and> req_id r \<noteq> 0 \<and> req_command r \<noteq> bad_request"
  by (erule serves.cases) simp_all

text \<open>Only a successful load or purge changes the keys.\<close>

lemma serves_changes:
  "serves w m r raw resp m' \<Longrightarrow> m' \<noteq> m \<Longrightarrow>
     resp_code resp = successful \<and> req_command r \<in> {le_key_load, le_key_purge_id, le_key_purge_all}"
  by (erule serves.cases) simp_all

lemma serves_not_malformed: "serves w m r raw resp m' \<Longrightarrow> \<not> malformed r"
  by (erule serves.cases) (fastforce simp: malformed_def)+

section \<open>The handlers refine the abstract service\<close>

text \<open>
  The outcome of a request in a state \<open>s\<close>: an answer the abstract service allows, or an
  \<^verbatim>\<open>AsmError\<close> for a malformed payload, thrown before anything is changed.
\<close>

definition outcome ::
    "('s \<Rightarrow> keys) \<Rightarrow> ('s \<Rightarrow> bool) \<Rightarrow> world \<Rightarrow> 's \<Rightarrow> standard_request \<Rightarrow> byte_buffer
       \<Rightarrow> service_result result \<times> 's \<Rightarrow> bool" where
  "outcome held ok w s r raw res \<longleftrightarrow> ok (snd res) \<and>
     (case fst res of
        Inr sr \<Rightarrow> serves w (held s) r raw (sr_response sr) (held (snd res))
      | Inl e \<Rightarrow> malformed r \<and> snd res = s \<and> (\<exists>m. e = AsmError m))"

definition world_of :: "'s asm_service \<Rightarrow> event_record list \<Rightarrow> int \<Rightarrow> world" where
  "world_of svc events now = \<lparr>w_events = events, w_status = static_current_status (spb_provider svc),
     w_seconds = current_utc_epoch_seconds now\<rparr>"

lemma world_of_simps [simp]:
  "w_events (world_of svc events now) = events"
  "w_status (world_of svc events now) = static_current_status (spb_provider svc)"
  "w_seconds (world_of svc events now) = current_utc_epoch_seconds now"
  by (simp_all add: world_of_def)

lemma outcome_answer:
  "ok s' \<Longrightarrow> serves w (held s) r raw (sr_response sr) (held s') \<Longrightarrow> outcome held ok w s r raw (Inr sr, s')"
  by (simp add: outcome_def)

lemma outcome_error: "ok s \<Longrightarrow> malformed r \<Longrightarrow> outcome held ok w s r raw (Inl (AsmError m), s)"
  by (simp add: outcome_def)

text \<open>A decoder of requests fails exactly on what encodes nothing, with an \<^verbatim>\<open>AsmError\<close>.\<close>

lemma decode_be_u32_four: "length bs = 4 \<Longrightarrow> \<exists>i. decode_be_u32 bs 0 = Inr i"
  using decode_be_u32_total [of 0 bs] by simp

lemma request_decode_errors:
  "event_list_decode_request bs = Inl e \<Longrightarrow> \<exists>m. e = AsmError m"
  "event_id_decode_request bs = Inl e \<Longrightarrow> \<exists>m. e = AsmError m"
  "decode_query_id_request bs = Inl e \<Longrightarrow> \<exists>m. e = AsmError m"
  "decode_purge_id_request bs = Inl e \<Longrightarrow> \<exists>m. e = AsmError m"
  using decode_be_u32_total [of 0 bs] decode_be_u32_total [of 4 bs]
  by (auto simp: event_list_decode_request_def event_id_decode_request_def bindE_eq_Inl mapE_eq_Inl
      decode_query_id_request_def decode_purge_id_request_def split: if_splits)

lemma decode_encode_requests [roundtrip_simps]:
  "event_list_decode_request (event_list_encode_request q) = Inr q"
  "event_id_decode_request (event_id_encode_request \<lparr>asked_event_id = i\<rparr>) = Inr \<lparr>asked_event_id = i\<rparr>"
  "decode_query_id_request (encode_query_id_request \<lparr>query_id_key_id = i\<rparr>) = Inr \<lparr>query_id_key_id = i\<rparr>"
  "decode_purge_id_request (encode_purge_id_request \<lparr>purge_id_key_id = i\<rparr>) = Inr \<lparr>purge_id_key_id = i\<rparr>"
  "length ks < 2 ^ 32 \<Longrightarrow> decode_load_request (encode_load_request \<lparr>load_request_keys = ks\<rparr>) = Inr \<lparr>load_request_keys = ks\<rparr>"
  by (simp_all add: event_list_request_iff event_id_request_iff query_id_request_iff
      purge_id_request_iff load_request_iff)

lemma decode_fails_malformed:
  "req_id r \<noteq> 0 \<Longrightarrow> req_command r = get_event_list \<Longrightarrow>
     event_list_decode_request (req_payload r) = Inl e \<Longrightarrow> malformed r"
  "req_id r \<noteq> 0 \<Longrightarrow> req_command r = get_event_id \<Longrightarrow>
     event_id_decode_request (req_payload r) = Inl e \<Longrightarrow> malformed r"
  "req_id r \<noteq> 0 \<Longrightarrow> req_command r = le_key_query_id \<Longrightarrow>
     decode_query_id_request (req_payload r) = Inl e \<Longrightarrow> malformed r"
  "req_id r \<noteq> 0 \<Longrightarrow> req_command r = le_key_purge_id \<Longrightarrow>
     decode_purge_id_request (req_payload r) = Inl e \<Longrightarrow> malformed r"
  "req_id r \<noteq> 0 \<Longrightarrow> req_command r = le_key_load \<Longrightarrow>
     decode_load_request (req_payload r) = Inl e \<Longrightarrow> malformed r"
  by (auto simp: malformed_def roundtrip_simps)

locale service_contract =
  keys: le_key_store_contract "key_store svc" held ok + log: event_log_contract "event_log svc" events
  for svc :: "'s asm_service" and held :: "'s \<Rightarrow> keys" and ok :: "'s \<Rightarrow> bool" and events :: "event_record list"
begin

abbreviation out :: "int \<Rightarrow> 's \<Rightarrow> standard_request \<Rightarrow> byte_buffer \<Rightarrow> service_result result \<times> 's \<Rightarrow> bool" where
  "out now \<equiv> outcome held ok (world_of svc events now)"

lemma event_list_outcome:
  assumes "ok s" and "req_id r \<noteq> 0" and c: "req_command r = get_event_list"
  shows "out now s r raw (handle_get_event_list svc r, s)"
proof (cases "event_list_decode_request (req_payload r)")
  case (Inl e)
  then have "malformed r" using assms(2) c by (simp add: decode_fails_malformed)
  with Inl assms(1) show ?thesis
    using request_decode_errors(1) [OF Inl] by (auto simp: handle_get_event_list_def outcome_error)
next
  case (Inr q)
  then have q: "req_payload r = event_list_encode_request q" by (simp add: event_list_request_iff)
  show ?thesis
  proof (cases "time_start q > time_stop q")
    case True
    with Inr q assms show ?thesis
      by (auto simp: handle_get_event_list_def intro!: outcome_answer serves.window_reversed)
  next
    case False
    with Inr q assms serves.window [of r q "world_of svc events now"] show ?thesis
      by (auto simp: handle_get_event_list_def log.list_ids intro!: outcome_answer)
  qed
qed

lemma event_id_outcome:
  assumes "ok s" and "req_id r \<noteq> 0" and c: "req_command r = get_event_id"
  shows "out now s r raw (handle_get_event_id svc r, s)"
proof (cases "event_id_decode_request (req_payload r)")
  case (Inl e)
  then have "malformed r" using assms(2) c by (simp add: decode_fails_malformed)
  with Inl assms(1) show ?thesis
    using request_decode_errors(2) [OF Inl] by (auto simp: handle_get_event_id_def outcome_error)
next
  case (Inr p)
  then obtain i where Inr: "event_id_decode_request (req_payload r) = Inr \<lparr>asked_event_id = i\<rparr>" by (cases p) simp
  then have i: "req_payload r = event_id_encode_request \<lparr>asked_event_id = i\<rparr>" by (simp add: event_id_request_iff)
  show ?thesis
  proof (cases "find (\<lambda>e. ev_id e = i) events")
    case None
    then have "i \<notin> ev_id ` set (w_events (world_of svc events now))" by (auto simp: find_None_iff)
    with None Inr i assms show ?thesis
      by (auto simp: handle_get_event_id_def log.get_xml intro!: outcome_answer serves.event_missing)
  next
    case (Some e)
    with Inr i assms show ?thesis
      by (auto simp: handle_get_event_id_def log.get_xml intro!: outcome_answer serves.event)
  qed
qed

lemma load_outcome:
  assumes "ok s" and "req_id r \<noteq> 0" and c: "req_command r = le_key_load"
  shows "out now s r raw (handle_le_key_load svc r s)"
proof (cases "decode_load_request (req_payload r)")
  case (Inl e)
  then have "malformed r" using assms(2) c by (simp add: decode_fails_malformed)
  with Inl assms(1) show ?thesis
    using load_request_errors [OF Inl] by (auto simp: handle_le_key_load_def outcome_error)
next
  case (Inr p)
  then obtain ks where Inr: "decode_load_request (req_payload r) = Inr \<lparr>load_request_keys = ks\<rparr>" by (cases p) simp
  then have ks: "length ks < 2 ^ 32" "req_payload r = encode_load_request \<lparr>load_request_keys = ks\<rparr>"
    by (auto simp: load_request_iff)
  obtain b s' where l: "load_keys (key_store svc) ks s = (b, s')" by (cases "load_keys (key_store svc) ks s")
  show ?thesis
    using assms(1) l
  proof (cases rule: keys.load_cases)
    case overflow
    with Inr ks assms l show ?thesis
      by (auto simp: handle_le_key_load_def bindO_Inr intro!: outcome_answer serves.load_refused)
  next
    case stored
    with Inr ks assms l show ?thesis
      by (auto simp: handle_le_key_load_def bindO_Inr intro!: outcome_answer serves.load)
  qed
qed

lemma query_id_outcome:
  assumes "ok s" and "req_id r \<noteq> 0" and c: "req_command r = le_key_query_id"
  shows "out now s r raw (handle_le_key_query_id svc r s)"
proof (cases "decode_query_id_request (req_payload r)")
  case (Inl e)
  then have "malformed r" using assms(2) c by (simp add: decode_fails_malformed)
  with Inl assms(1) show ?thesis
    using request_decode_errors(3) [OF Inl] by (auto simp: handle_le_key_query_id_def outcome_error)
next
  case (Inr p)
  then obtain i where Inr: "decode_query_id_request (req_payload r) = Inr \<lparr>query_id_key_id = i\<rparr>" by (cases p) simp
  then have i: "req_payload r = encode_query_id_request \<lparr>query_id_key_id = i\<rparr>" by (simp add: query_id_request_iff)
  show ?thesis
    using serves.query [OF assms(2) c i, of "world_of svc events now" "held s" raw] Inr assms(1) c
    by (simp add: handle_le_key_query_id_def keys.contains outcome_def domIff)
qed

lemma query_all_outcome:
  assumes "ok s" and "req_id r \<noteq> 0" and "req_command r = le_key_query_all"
  shows "out now s r raw (handle_le_key_query_all svc r s)"
  using assms keys.list_ids [OF assms(1)]
  by (auto simp: handle_le_key_query_all_def intro!: outcome_answer serves.query_all serves.query_all_payload)

lemma purge_id_outcome:
  assumes "ok s" and "req_id r \<noteq> 0" and c: "req_command r = le_key_purge_id"
  shows "out now s r raw (handle_le_key_purge_id svc r s)"
proof (cases "decode_purge_id_request (req_payload r)")
  case (Inl e)
  then have "malformed r" using assms(2) c by (simp add: decode_fails_malformed)
  with Inl assms(1) show ?thesis
    using request_decode_errors(4) [OF Inl] by (auto simp: handle_le_key_purge_id_def outcome_error)
next
  case (Inr p)
  then obtain i where Inr: "decode_purge_id_request (req_payload r) = Inr \<lparr>purge_id_key_id = i\<rparr>" by (cases p) simp
  then have i: "req_payload r = encode_purge_id_request \<lparr>purge_id_key_id = i\<rparr>" by (simp add: purge_id_request_iff)
  obtain s' where s': "purge_key (key_store svc) i s = (Inr (held s i \<noteq> None), s')" "ok s'"
    "held s' = (held s)(i := None)"
    using keys.purge [OF assms(1)] by blast
  show ?thesis
    using serves.purge [OF assms(2) c i, of "world_of svc events now" "held s" raw] Inr s' c
    by (simp add: handle_le_key_purge_id_def bindO_Inr [of "purge_key (key_store svc) i"] outcome_def domIff)
qed

lemma purge_all_outcome:
  assumes "ok s" and "req_id r \<noteq> 0" and c: "req_command r = le_key_purge_all"
  shows "out now s r raw (handle_le_key_purge_all svc r s)"
proof (cases "req_payload r = []")
  case True
  obtain s' where s': "purge_all (key_store svc) s = (Inr (), s')" "ok s'" "held s' = Map.empty"
    using keys.purge_everything [OF assms(1)] by blast
  with True assms show ?thesis
    by (auto simp: handle_le_key_purge_all_def bindO_Inr intro!: outcome_answer serves.purge_all)
next
  case False
  with assms show ?thesis
    by (auto simp: handle_le_key_purge_all_def intro!: outcome_answer serves.purge_all_payload)
qed

lemma handle_request_outcome:
  assumes ok: "ok s"
  shows "out now s r raw (handle_request svc now r raw ctx s)"
proof (cases "req_id r = 0")
  case True
  then show ?thesis
    using ok serves.zero_id [of r "world_of svc events now" "held s" raw]
    by (simp add: handle_request_def outcome_def rejected_def)
next
  case False
  show ?thesis
  proof (cases "req_command r")
    case bad_request
    with False ok serves.unsupported [of r "world_of svc events now" "held s" raw] show ?thesis
      by (simp add: handle_request_def outcome_def rejected_def)
  next
    case get_time
    with False ok serves.time [of r "world_of svc events now" "held s" raw] show ?thesis
      by (simp add: handle_request_def handle_get_time_def outcome_def)
  next
    case query_spb
    with False ok serves.status [of r "world_of svc events now" "held s" raw] show ?thesis
      by (auto simp: handle_request_def handle_query_spb_def intro!: outcome_answer serves.status_payload)
  qed (use False ok in \<open>simp_all add: handle_request_def event_list_outcome event_id_outcome
      load_outcome query_id_outcome query_all_outcome purge_id_outcome purge_all_outcome\<close>)
qed

end

section \<open>The services the constructors build\<close>

interpretation default_service: service_contract asm_service_default memory_map memory_ok default_events
  by (intro service_contract.intro)
    (simp_all add: asm_service_default_def memory_keys.le_key_store_contract_axioms
      memory_log.event_log_contract_axioms)

interpretation log_service: service_contract "asm_service_with_log (jsonl_event_log_store events)"
  memory_map memory_ok events for events
  by (intro service_contract.intro)
    (simp_all add: asm_service_with_log_def memory_keys.le_key_store_contract_axioms
      jsonl_log.event_log_contract_axioms)

interpretation file_service: service_contract
  "asm_service_with_stores (jsonl_event_log_store events) jsonl_store spb" file_map file_ok events for events spb
  by (intro service_contract.intro)
    (simp_all add: asm_service_with_stores_def file_keys.le_key_store_contract_axioms
      jsonl_log.event_log_contract_axioms)

end
