(* ===== verification/Openssl_Init.thy ===== *)
theory Openssl_Init
  imports Asm_Prelude
begin

text \<open>
  \<^verbatim>\<open>src/security/openssl_init.cpp\<close>: the library is initialised under a once flag, wherever a
  context is about to be made. The flag is a static variable of the process; beside it the state keeps a log
  of the calls that concern the library as a whole and its contexts, so that their order can be stated.
\<close>

section \<open>The once flag\<close>

datatype init_option = OPENSSL_INIT_LOAD_SSL_STRINGS | OPENSSL_INIT_LOAD_CRYPTO_STRINGS

text \<open>
  \<open>Ctx_New b\<close> is a call of \<^verbatim>\<open>SSL_CTX_new\<close> and whether it gave a context, \<open>Ctx_Free\<close> a call of
  \<^verbatim>\<open>SSL_CTX_free\<close>. The options are or-ed in the code and a list here.
\<close>

datatype openssl_call =
    OPENSSL_init_ssl "init_option list"
  | OPENSSL_init_crypto "init_option list"
  | Ctx_New bool
  | Ctx_Free

record openssl_state =
  once_done :: bool
  openssl_log :: "openssl_call list"

definition openssl_fresh :: openssl_state where
  "openssl_fresh = \<lparr>once_done = False, openssl_log = []\<rparr>"

definition log_call :: "openssl_call \<Rightarrow> openssl_state \<Rightarrow> openssl_state" where
  "log_call c ossl = ossl\<lparr>openssl_log := openssl_log ossl @ [c]\<rparr>"

text \<open>\<^verbatim>\<open>std::call_once\<close> with a callable that does not throw.\<close>

definition call_once :: "(openssl_state \<Rightarrow> openssl_state) \<Rightarrow> openssl_state \<Rightarrow> openssl_state" where
  "call_once f ossl = (if once_done ossl then ossl else (f ossl)\<lparr>once_done := True\<rparr>)"

definition ensure_openssl_initialized :: "openssl_state \<Rightarrow> openssl_state" where
  "ensure_openssl_initialized =
     call_once (\<lambda>ossl.
       log_call (OPENSSL_init_crypto [OPENSSL_INIT_LOAD_CRYPTO_STRINGS])
         (log_call (OPENSSL_init_ssl [OPENSSL_INIT_LOAD_SSL_STRINGS, OPENSSL_INIT_LOAD_CRYPTO_STRINGS]) ossl))"

section \<open>What the log may look like\<close>

definition init_log :: "openssl_call list" where
  "init_log = [OPENSSL_init_ssl [OPENSSL_INIT_LOAD_SSL_STRINGS, OPENSSL_INIT_LOAD_CRYPTO_STRINGS],
     OPENSSL_init_crypto [OPENSSL_INIT_LOAD_CRYPTO_STRINGS]]"

primrec is_ctx_call :: "openssl_call \<Rightarrow> bool" where
  "is_ctx_call (OPENSSL_init_ssl _) = False"
| "is_ctx_call (OPENSSL_init_crypto _) = False"
| "is_ctx_call (Ctx_New _) = True"
| "is_ctx_call Ctx_Free = True"

text \<open>
  The invariant: before the first use nothing was called; afterwards the log is the two calls that
  initialise the library, and then only calls on contexts.
\<close>

definition openssl_ok :: "openssl_state \<Rightarrow> bool" where
  "openssl_ok ossl \<longleftrightarrow>
     (if once_done ossl then \<exists>calls. openssl_log ossl = init_log @ calls \<and> list_all is_ctx_call calls
      else openssl_log ossl = [])"

text \<open>The contexts made and not yet freed.\<close>

definition live_contexts :: "openssl_state \<Rightarrow> int" where
  "live_contexts ossl =
     int (count_list (openssl_log ossl) (Ctx_New True)) - int (count_list (openssl_log ossl) Ctx_Free)"

lemma openssl_fresh_ok [simp]: "openssl_ok openssl_fresh" "live_contexts openssl_fresh = 0"
  by (simp_all add: openssl_fresh_def openssl_ok_def live_contexts_def)

lemma ensure_done [simp]: "once_done (ensure_openssl_initialized ossl)"
  by (simp add: ensure_openssl_initialized_def call_once_def)

lemma ensure_idem [simp]: "once_done ossl \<Longrightarrow> ensure_openssl_initialized ossl = ossl"
  by (simp add: ensure_openssl_initialized_def call_once_def)

lemma ensure_ok: "openssl_ok ossl \<Longrightarrow> openssl_ok (ensure_openssl_initialized ossl)"
  by (cases "once_done ossl")
    (simp_all add: openssl_ok_def ensure_openssl_initialized_def call_once_def log_call_def init_log_def)

lemma log_call_once [simp]: "once_done (log_call c ossl) = once_done ossl"
  by (simp add: log_call_def)

lemma log_call_ok: "openssl_ok ossl \<Longrightarrow> once_done ossl \<Longrightarrow> is_ctx_call c \<Longrightarrow> openssl_ok (log_call c ossl)"
  by (auto simp: openssl_ok_def log_call_def)

lemma live_ensure [simp]: "live_contexts (ensure_openssl_initialized ossl) = live_contexts ossl"
  by (simp add: live_contexts_def ensure_openssl_initialized_def call_once_def log_call_def)

lemma live_log_call [simp]:
  "live_contexts (log_call (Ctx_New b) ossl) = live_contexts ossl + (if b then 1 else 0)"
  "live_contexts (log_call Ctx_Free ossl) = live_contexts ossl - 1"
  by (simp_all add: live_contexts_def log_call_def)

end
