(* ===== verification/Security.thy ===== *)
theory Security
  imports Service Openssl_Init
begin

text \<open>
  Certificates and the TLS profile: \<^verbatim>\<open>src/security/certificate_utils.cpp\<close>,
  \<^verbatim>\<open>src/security/tls_profile.cpp\<close> and \<^verbatim>\<open>src/transport/tls_context.cpp\<close>.
  OpenSSL is not part of the program: its calls are the fields of two records, arguments of every
  definition that uses them. A pointer to one of its objects is opaque to the program: a number,
  or \<open>None\<close> for null.
\<close>

section \<open>Certificates\<close>

text \<open>
  \<open>print_name\<close> stands for the calls on the memory \<^verbatim>\<open>BIO\<close> of \<^verbatim>\<open>name_to_string\<close>:
  \<open>None\<close> when it cannot be allocated, otherwise what \<^verbatim>\<open>X509_NAME_print_ex\<close> returned and the
  buffer \<^verbatim>\<open>BIO_get_mem_ptr\<close> gave. \<open>read_pem\<close> stands for \<^verbatim>\<open>BIO_new_file\<close>
  (outer \<open>None\<close>) and \<^verbatim>\<open>PEM_read_bio_X509\<close> (inner \<open>None\<close>).
\<close>

type_synonym x509 = nat
type_synonym evp_pkey = nat
type_synonym rsa = nat
type_synonym bignum = nat
type_synonym x509_name = nat

record x509_api =
  X509_get_pubkey :: "x509 \<Rightarrow> evp_pkey option"
  EVP_PKEY_base_id :: "evp_pkey \<Rightarrow> int"
  EVP_PKEY_RSA :: int
  EVP_PKEY_get0_RSA :: "evp_pkey \<Rightarrow> rsa option"
  RSA_get0_key :: "rsa \<Rightarrow> bignum option \<times> bignum option"
  BN_num_bits :: "bignum \<Rightarrow> int"
  BN_get_word :: "bignum \<Rightarrow> u64"
  X509_digest :: "x509 \<Rightarrow> int \<times> byte_buffer"
  X509_get_subject_name :: "x509 \<Rightarrow> x509_name option"
  X509_get_issuer_name :: "x509 \<Rightarrow> x509_name option"
  print_name :: "x509_name \<Rightarrow> (int \<times> string option) option"
  read_pem :: "string \<Rightarrow> x509 option option"

definition name_to_string :: "x509_api \<Rightarrow> x509_name option \<Rightarrow> string result" where
  "name_to_string api name =
     (case name of
        None \<Rightarrow> Inr []
      | Some n \<Rightarrow>
          (case print_name api n of
             None \<Rightarrow> Inl (AsmError ''failed to allocate BIO'')
           | Some (rc, mem) \<Rightarrow>
               if rc \<le> 0 then Inl (AsmError ''failed to format X509 name'')
               else Inr (case mem of None \<Rightarrow> [] | Some text \<Rightarrow> text)))"

definition digest_to_hex :: "byte_buffer \<Rightarrow> string" where
  "digest_to_hex digest = foldl (\<lambda>out b. out @ hex_byte b) [] digest"

definition read_peer_identity :: "x509_api \<Rightarrow> x509 option \<Rightarrow> peer_identity result" where
  "read_peer_identity api certificate =
     (case certificate of
        None \<Rightarrow> Inl (AsmError ''peer certificate missing'')
      | Some x \<Rightarrow>
          let (rc, digest) = X509_digest api x in
          if rc \<noteq> 1 then Inl (AsmError ''failed to digest peer certificate'')
          else bindE (name_to_string api (X509_get_subject_name api x)) (\<lambda>subject.
               bindE (name_to_string api (X509_get_issuer_name api x)) (\<lambda>issuer.
               Inr \<lparr>peer_subject = subject, peer_issuer = issuer,
                    peer_thumbprint = digest_to_hex digest\<rparr>)))"

definition validate_certificate_profile :: "x509_api \<Rightarrow> x509 option \<Rightarrow> unit result" where
  "validate_certificate_profile api certificate =
     (case certificate of
        None \<Rightarrow> Inl (AsmError ''certificate missing'')
      | Some x \<Rightarrow>
     (case X509_get_pubkey api x of
        None \<Rightarrow> Inl (AsmError ''failed to read certificate public key'')
      | Some key \<Rightarrow>
          if EVP_PKEY_base_id api key \<noteq> EVP_PKEY_RSA api
          then Inl (AsmError ''certificate public key must be RSA'')
          else
     (case EVP_PKEY_get0_RSA api key of
        None \<Rightarrow> Inl (AsmError ''failed to access RSA public key'')
      | Some rsa \<Rightarrow>
     (case RSA_get0_key api rsa of
        (Some n, Some e) \<Rightarrow>
          if BN_num_bits api n \<noteq> 2048 then Inl (AsmError ''certificate RSA key must be 2048 bits'')
          else if BN_get_word api e \<noteq> 65537
          then Inl (AsmError ''certificate RSA exponent must be 65537'')
          else Inr ()
      | _ \<Rightarrow> Inl (AsmError ''RSA public key parameters missing'')))))"

definition validate_certificate_profile_from_file ::
    "x509_api \<Rightarrow> string \<Rightarrow> unit result" where
  "validate_certificate_profile_from_file api certificate_path =
     (case read_pem api certificate_path of
        None \<Rightarrow> Inl (AsmError ''failed to open certificate file'')
      | Some None \<Rightarrow> Inl (AsmError ''failed to parse certificate file'')
      | Some (Some certificate) \<Rightarrow> validate_certificate_profile api (Some certificate))"

section \<open>The TLS profile\<close>

record tls_config =
  certificate :: string
  private_key :: string
  ca_certificate :: string
  require_peer_certificate :: bool
  verify_peer :: bool
  allow_tls10 :: bool
  cipher_list :: string

definition tls_config_default :: tls_config where
  "tls_config_default =
     \<lparr>certificate = [], private_key = [], ca_certificate = [], require_peer_certificate = True,
      verify_peer = True, allow_tls10 = True, cipher_list = ''AES128-SHA''\<rparr>"

text \<open>
  The calls on an \<^verbatim>\<open>SSL_CTX\<close>, whose state is \<open>'c\<close>: each returns its result code and the
  context it leaves. The five constants are OpenSSL's.
\<close>

record 'c ssl_ctx_api =
  SSL_CTX_new :: "bool \<Rightarrow> 'c option"
  SSL_CTX_set_cipher_list :: "string \<Rightarrow> 'c \<Rightarrow> int \<times> 'c"
  SSL_CTX_set_min_proto_version :: "int \<Rightarrow> 'c \<Rightarrow> int \<times> 'c"
  SSL_CTX_set_max_proto_version :: "int \<Rightarrow> 'c \<Rightarrow> int \<times> 'c"
  SSL_CTX_set_security_level :: "int \<Rightarrow> 'c \<Rightarrow> 'c"
  SSL_CTX_set_options :: "u64 \<Rightarrow> 'c \<Rightarrow> 'c"
  SSL_CTX_use_certificate_file :: "string \<Rightarrow> 'c \<Rightarrow> int \<times> 'c"
  SSL_CTX_use_PrivateKey_file :: "string \<Rightarrow> 'c \<Rightarrow> int \<times> 'c"
  SSL_CTX_check_private_key :: "'c \<Rightarrow> int \<times> 'c"
  SSL_CTX_load_verify_locations :: "string \<Rightarrow> 'c \<Rightarrow> int \<times> 'c"
  SSL_CTX_set_verify :: "u32 \<Rightarrow> 'c \<Rightarrow> 'c"
  TLS1_VERSION :: int
  SSL_OP_NO_COMPRESSION :: u64
  SSL_VERIFY_NONE :: u32
  SSL_VERIFY_PEER :: u32
  SSL_VERIFY_FAIL_IF_NO_PEER_CERT :: u32

definition expect :: "('c \<Rightarrow> int \<times> 'c) \<Rightarrow> string \<Rightarrow> ('c, unit) op" where
  "expect call message ctx =
     (let (rc, ctx') = call ctx in (if rc \<noteq> 1 then Inl (AsmError message) else Inr (), ctx'))"

definition run_call :: "('c \<Rightarrow> 'c) \<Rightarrow> ('c, unit) op" where
  "run_call call ctx = (Inr (), call ctx)"

definition verify_mode_of :: "'c ssl_ctx_api \<Rightarrow> tls_config \<Rightarrow> bool \<Rightarrow> u32" where
  "verify_mode_of api config server_mode =
     (if verify_peer config
      then (if server_mode \<and> require_peer_certificate config
            then SSL_VERIFY_PEER api OR SSL_VERIFY_FAIL_IF_NO_PEER_CERT api
            else SSL_VERIFY_PEER api)
      else SSL_VERIFY_NONE api)"

definition load_own_key :: "'c ssl_ctx_api \<Rightarrow> tls_config \<Rightarrow> ('c, unit) op" where
  "load_own_key api config =
     (if certificate config \<noteq> [] \<or> private_key config \<noteq> []
      then if certificate config = [] \<or> private_key config = []
           then liftO (Inl (AsmError ''certificate and private key must be provided together''))
           else bindO (expect (SSL_CTX_use_certificate_file api (certificate config)) ''failed to load certificate'') (\<lambda>_.
                bindO (expect (SSL_CTX_use_PrivateKey_file api (private_key config)) ''failed to load private key'') (\<lambda>_.
                expect (SSL_CTX_check_private_key api) ''private key mismatch''))
      else returnO ())"

definition tls_profile_configure ::
    "x509_api \<Rightarrow> 'c ssl_ctx_api \<Rightarrow> tls_config \<Rightarrow> bool \<Rightarrow> ('c, unit) op" where
  "tls_profile_configure x509 api config server_mode =
     bindO (liftO (validate_certificate_profile_from_file x509 (certificate config))) (\<lambda>_.
     bindO (expect (SSL_CTX_set_cipher_list api (cipher_list config)) ''failed to set cipher list'') (\<lambda>_.
     bindO (if allow_tls10 config
            then bindO (expect (SSL_CTX_set_min_proto_version api (TLS1_VERSION api)) ''failed to set min TLS version'') (\<lambda>_.
                 expect (SSL_CTX_set_max_proto_version api (TLS1_VERSION api)) ''failed to set max TLS version'')
            else returnO ()) (\<lambda>_.
     bindO (run_call (SSL_CTX_set_security_level api 0)) (\<lambda>_.
     bindO (run_call (SSL_CTX_set_options api (SSL_OP_NO_COMPRESSION api))) (\<lambda>_.
     bindO (load_own_key api config) (\<lambda>_.
     bindO (expect (SSL_CTX_load_verify_locations api (ca_certificate config)) ''failed to load CA certificate'') (\<lambda>_.
     run_call (SSL_CTX_set_verify api (verify_mode_of api config server_mode)))))))))"

text \<open>\<^verbatim>\<open>TlsProfile::apply\<close>: the context it changes beside the state of the library.\<close>

definition tls_profile_apply ::
    "x509_api \<Rightarrow> 'c ssl_ctx_api \<Rightarrow> tls_config \<Rightarrow> bool \<Rightarrow> ('c \<times> openssl_state, unit) op" where
  "tls_profile_apply x509 api config server_mode =
     (\<lambda>(ctx, ossl). let ossl' = ensure_openssl_initialized ossl in
        case tls_profile_configure x509 api config server_mode ctx of
          (r, ctx') \<Rightarrow> (r, ctx', ossl'))"

text \<open>The deleter of a context: nothing to do for a null pointer.\<close>

definition ssl_ctx_deleter :: "'c option \<Rightarrow> openssl_state \<Rightarrow> openssl_state" where
  "ssl_ctx_deleter ctx ossl = (case ctx of None \<Rightarrow> ossl | Some _ \<Rightarrow> log_call Ctx_Free ossl)"

text \<open>
  \<^verbatim>\<open>create_server\<close> and \<^verbatim>\<open>create_client\<close>; the flag is the method and the mode. When
  the profile throws, the deleter of the unique pointer frees the context.
\<close>

definition create_ctx ::
    "x509_api \<Rightarrow> 'c ssl_ctx_api \<Rightarrow> tls_config \<Rightarrow> bool \<Rightarrow> (openssl_state, 'c) op" where
  "create_ctx x509 api config server_mode ossl =
     (let ossl1 = ensure_openssl_initialized ossl;
          raw = SSL_CTX_new api server_mode;
          ossl2 = log_call (Ctx_New (raw \<noteq> None)) ossl1 in
      case raw of
        None \<Rightarrow> (Inl (AsmError ''failed to allocate SSL_CTX''), ossl2)
      | Some ctx \<Rightarrow>
          (case tls_profile_apply x509 api config server_mode (ctx, ossl2) of
             (Inl e, ctx', ossl3) \<Rightarrow> (Inl e, ssl_ctx_deleter (Some ctx') ossl3)
           | (Inr _, ctx', ossl3) \<Rightarrow> (Inr ctx', ossl3)))"

definition create_server :: "x509_api \<Rightarrow> 'c ssl_ctx_api \<Rightarrow> tls_config \<Rightarrow> (openssl_state, 'c) op" where
  "create_server x509 api config = create_ctx x509 api config True"

definition create_client :: "x509_api \<Rightarrow> 'c ssl_ctx_api \<Rightarrow> tls_config \<Rightarrow> (openssl_state, 'c) op" where
  "create_client x509 api config = create_ctx x509 api config False"

section \<open>Which certificates pass\<close>

text \<open>A certificate with an RSA key of 2048 bits and the exponent 65537.\<close>

definition profile_ok :: "x509_api \<Rightarrow> x509 \<Rightarrow> bool" where
  "profile_ok api x \<longleftrightarrow> (\<exists>key k n e. X509_get_pubkey api x = Some key \<and>
     EVP_PKEY_base_id api key = EVP_PKEY_RSA api \<and> EVP_PKEY_get0_RSA api key = Some k \<and>
     RSA_get0_key api k = (Some n, Some e) \<and> BN_num_bits api n = 2048 \<and> BN_get_word api e = 65537)"

lemma validate_Inr_iff:
  "validate_certificate_profile api c = Inr () \<longleftrightarrow> (\<exists>x. c = Some x \<and> profile_ok api x)"
  by (auto simp: validate_certificate_profile_def profile_ok_def split: option.splits prod.splits if_splits)

lemma validate_Inl_AsmError:
  "validate_certificate_profile api c = Inl e \<Longrightarrow> \<exists>m. e = AsmError m"
  by (auto simp: validate_certificate_profile_def split: option.splits prod.splits if_splits)

lemma validate_file_Inr_iff:
  "validate_certificate_profile_from_file api path = Inr () \<longleftrightarrow>
     (\<exists>x. read_pem api path = Some (Some x) \<and> profile_ok api x)"
  by (auto simp: validate_certificate_profile_from_file_def validate_Inr_iff split: option.splits)

lemma read_peer_identity_AsmError:
  "read_peer_identity api c = Inl e \<Longrightarrow> \<exists>m. e = AsmError m"
  by (auto simp: read_peer_identity_def name_to_string_def bindE_eq_Inl Let_def
      split: option.splits prod.splits if_splits)

lemma digest_to_hex_eq: "digest_to_hex = bytes_to_hex"
  by (rule ext) (simp add: digest_to_hex_def bytes_to_hex_def)

text \<open>Two certificates with the same thumbprint have the same digest.\<close>

lemma thumbprint_inject:
  assumes "read_peer_identity api (Some x) = Inr p" and "read_peer_identity api (Some y) = Inr q"
    and "peer_thumbprint p = peer_thumbprint q"
  shows "snd (X509_digest api x) = snd (X509_digest api y)"
proof -
  have "peer_thumbprint p = bytes_to_hex (snd (X509_digest api x))"
    and "peer_thumbprint q = bytes_to_hex (snd (X509_digest api y))"
    using assms(1,2) by (auto simp: read_peer_identity_def bindE_eq_Inr digest_to_hex_eq Let_def
        split: prod.splits if_splits)
  then have eq: "bytes_to_hex (snd (X509_digest api x)) = bytes_to_hex (snd (X509_digest api y))"
    using assms(3) by simp
  then have "length (bytes_to_hex (snd (X509_digest api x))) = length (bytes_to_hex (snd (X509_digest api y)))"
    by (rule arg_cong)
  then have "length (snd (X509_digest api x)) = length (snd (X509_digest api y))" by simp
  with eq show ?thesis by (rule bytes_to_hex_inject)
qed

section \<open>What a configured context went through\<close>

lemma bindO_eq_Inr:
  "bindO m f s = (Inr y, s'') \<longleftrightarrow> (\<exists>x s'. m s = (Inr x, s') \<and> f x s' = (Inr y, s''))"
  by (auto simp: bindO_def split: prod.splits sum.splits)

lemma bindO_InrE:
  assumes "bindO m f s = (Inr y, s'')"
  obtains x s' where "m s = (Inr x, s')" "f x s' = (Inr y, s'')"
  using assms by (auto simp: bindO_eq_Inr)

lemma expect_Inr: "expect call msg c = (Inr (), c') \<longleftrightarrow> call c = (1, c')"
  by (auto simp: expect_def Let_def split: prod.splits)

lemma run_call_Inr: "run_call call c = (Inr (), c') \<longleftrightarrow> c' = call c"
  by (auto simp: run_call_def)

lemma configure_Inr:
  assumes "tls_profile_configure x509 api config server c = (Inr (), c')"
  shows "\<exists>x. read_pem x509 (certificate config) = Some (Some x) \<and> profile_ok x509 x"
    and "\<exists>c1. c' = SSL_CTX_set_verify api (verify_mode_of api config server) c1"
    and "certificate config \<noteq> [] \<Longrightarrow> private_key config \<noteq> []"
  using assms
  by (auto simp: tls_profile_configure_def bindO_eq_Inr expect_Inr run_call_Inr validate_file_Inr_iff
      load_own_key_def split: if_splits)

lemma create_ctx_Inr:
  assumes "create_ctx x509 api config server ossl = (Inr c, ossl')"
  obtains c0 where "tls_profile_configure x509 api config server c0 = (Inr (), c)"
  using assms
  by (auto simp: create_ctx_def tls_profile_apply_def Let_def split: option.splits prod.splits sum.splits)

lemma create_ctx_profile:
  assumes "create_ctx x509 api config server ossl = (Inr c, ossl')"
  shows "\<exists>x. read_pem x509 (certificate config) = Some (Some x) \<and> profile_ok x509 x"
    and "\<exists>c1. c = SSL_CTX_set_verify api (verify_mode_of api config server) c1"
  by (rule create_ctx_Inr [OF assms], erule configure_Inr)+

text \<open>
  What making a context does to the library: it is initialised afterwards, whatever came of it, and there
  is one context more exactly when one was returned.
\<close>

lemma create_ctx_openssl:
  assumes "openssl_ok ossl" and "create_ctx x509 api config server ossl = (r, ossl')"
  shows "openssl_ok ossl' \<and> once_done ossl' \<and>
     live_contexts ossl' = live_contexts ossl + (case r of Inl _ \<Rightarrow> 0 | Inr _ \<Rightarrow> 1)"
proof (cases "SSL_CTX_new api server")
  case None
  with assms(2) have "r = Inl (AsmError ''failed to allocate SSL_CTX'')"
    and "ossl' = log_call (Ctx_New False) (ensure_openssl_initialized ossl)"
    by (simp_all add: create_ctx_def Let_def)
  then show ?thesis using ensure_ok [OF assms(1)] by (simp add: log_call_ok)
next
  case (Some raw)
  let ?ossl = "log_call (Ctx_New True) (ensure_openssl_initialized ossl)"
  have ok: "openssl_ok ?ossl" using ensure_ok [OF assms(1)] by (simp add: log_call_ok)
  obtain x c where c: "tls_profile_configure x509 api config server raw = (x, c)"
    by (cases "tls_profile_configure x509 api config server raw")
  show ?thesis
  proof (cases x)
    case (Inl e)
    with assms(2) Some c have "r = Inl e" "ossl' = log_call Ctx_Free ?ossl"
      by (simp_all add: create_ctx_def tls_profile_apply_def ssl_ctx_deleter_def Let_def)
    then show ?thesis using ok by (simp add: log_call_ok)
  next
    case (Inr u)
    with assms(2) Some c have "r = Inr c" "ossl' = ?ossl"
      by (simp_all add: create_ctx_def tls_profile_apply_def Let_def)
    then show ?thesis using ok by simp
  qed
qed

lemma ssl_ctx_deleter_openssl:
  "openssl_ok ossl \<Longrightarrow> once_done ossl \<Longrightarrow> openssl_ok (ssl_ctx_deleter (Some ctx) ossl) \<and>
     once_done (ssl_ctx_deleter (Some ctx) ossl) \<and>
     live_contexts (ssl_ctx_deleter (Some ctx) ossl) = live_contexts ossl - 1"
  by (simp add: ssl_ctx_deleter_def log_call_ok)

text \<open>Every way of not getting a context is an \<^verbatim>\<open>AsmError\<close>.\<close>

lemma bindO_eq_Inl:
  "bindO m f s = (Inl e, s'') \<longleftrightarrow> m s = (Inl e, s'') \<or> (\<exists>x s'. m s = (Inr x, s') \<and> f x s' = (Inl e, s''))"
  by (auto simp: bindO_def split: prod.splits sum.splits)

lemma expect_Inl: "expect call msg c = (Inl e, c') \<Longrightarrow> e = AsmError msg"
  by (auto simp: expect_def Let_def split: prod.splits if_splits)

lemma run_call_no_error [simp]: "run_call call c \<noteq> (Inl e, c')"
  by (simp add: run_call_def)

lemma configure_AsmError:
  assumes "tls_profile_configure x509 api config server c = (Inl e, c')"
  shows "\<exists>m. e = AsmError m"
  using assms validate_Inl_AsmError
  by (auto simp: tls_profile_configure_def bindO_eq_Inl load_own_key_def
      validate_certificate_profile_from_file_def dest: expect_Inl split: if_splits option.splits)

lemma create_ctx_AsmError:
  "create_ctx x509 api config server ossl = (Inl e, ossl') \<Longrightarrow> \<exists>m. e = AsmError m"
  using configure_AsmError
  by (force simp: create_ctx_def tls_profile_apply_def Let_def split: option.splits prod.splits sum.splits)

end
