(* ===== verification/Ssl_Io.thy ===== *)
theory Ssl_Io
  imports Security
begin

text \<open>
  Reading and writing on a TLS connection: the helpers that \<^verbatim>\<open>tls_server.cpp\<close> and
  \<^verbatim>\<open>tls_client.cpp\<close> both start with, the same text in each file. OpenSSL's calls on a
  connection are the fields of \<open>ssl_api\<close>, over the state \<open>'k\<close> of everything outside the
  program; an \<^verbatim>\<open>SSL\<close> object is a number.
\<close>

section \<open>Calls on a connection\<close>

text \<open>
  \<^verbatim>\<open>SSL_write\<close> is given what is left of the buffer, \<^verbatim>\<open>SSL_read\<close> the buffer it may
  overwrite, and it returns the buffer it left. \<open>'c\<close> is the configured context.
\<close>

type_synonym ssl = nat

record ('k, 'c) ssl_api =
  SSL_new :: "'c \<Rightarrow> 'k \<Rightarrow> ssl option \<times> 'k"
  SSL_free :: "ssl \<Rightarrow> 'k \<Rightarrow> 'k"
  SSL_set_fd :: "ssl \<Rightarrow> int \<Rightarrow> 'k \<Rightarrow> 'k"
  SSL_accept :: "ssl \<Rightarrow> 'k \<Rightarrow> int \<times> 'k"
  SSL_connect :: "ssl \<Rightarrow> 'k \<Rightarrow> int \<times> 'k"
  SSL_get1_peer_certificate :: "ssl \<Rightarrow> 'k \<Rightarrow> x509 option"
  SSL_read :: "ssl \<Rightarrow> byte_buffer \<Rightarrow> 'k \<Rightarrow> (int \<times> byte_buffer) \<times> 'k"
  SSL_write :: "ssl \<Rightarrow> byte_buffer \<Rightarrow> 'k \<Rightarrow> int \<times> 'k"
  SSL_get_error :: "ssl \<Rightarrow> int \<Rightarrow> 'k \<Rightarrow> int"
  ERR_get_error :: "'k \<Rightarrow> u64 \<times> 'k"

text \<open>The deleter of \<^verbatim>\<open>UniqueSsl\<close>: nothing to do for a null pointer.\<close>

definition ssl_deleter :: "('k, 'c) ssl_api \<Rightarrow> ssl option \<Rightarrow> 'k \<Rightarrow> 'k" where
  "ssl_deleter api ssl k = (case ssl of None \<Rightarrow> k | Some p \<Rightarrow> SSL_free api p k)"

lemma ssl_deleter_simps [simp]: "ssl_deleter api None k = k" "ssl_deleter api (Some p) k = SSL_free api p k"
  by (simp_all add: ssl_deleter_def)

text \<open>\<^verbatim>\<open>std::to_string\<close> of a signed integer.\<close>

definition int_string :: "int \<Rightarrow> string" where
  "int_string i = (if i < 0 then ''-'' @ dec_string (nat (- i)) else dec_string (nat i))"

definition ssl_expect_positive :: "('k, 'c) ssl_api \<Rightarrow> int \<Rightarrow> ssl \<Rightarrow> string \<Rightarrow> ('k, unit) op" where
  "ssl_expect_positive api rc ssl action k =
     (if rc > 0 then (Inr (), k)
      else let (error, k') = ERR_get_error api k; ssl_error = SSL_get_error api ssl rc k' in
        (Inl (AsmError (action @ '' failed: ssl_error='' @ int_string ssl_error
                        @ '', openssl_error='' @ dec_string (unat error))), k'))"

lemma expect_positive_Inr: "ssl_expect_positive api rc ssl a k = (Inr u, k') \<longleftrightarrow> rc > 0 \<and> k' = k"
  by (auto simp: ssl_expect_positive_def Let_def split: prod.splits)

lemma expect_positive_Inl:
  "ssl_expect_positive api rc ssl a k = (Inl e, k') \<Longrightarrow>
     rc \<le> 0 \<and> (\<exists>m. e = AsmError m) \<and> k' = snd (ERR_get_error api k)"
  by (auto simp: ssl_expect_positive_def Let_def split: prod.splits if_splits)

text \<open>The loop of \<^verbatim>\<open>write_all\<close>, from an offset; each round of it advances the offset.\<close>

function write_all_from :: "('k, 'c) ssl_api \<Rightarrow> ssl \<Rightarrow> byte_buffer \<Rightarrow> nat \<Rightarrow> ('k, unit) op" where
  "write_all_from api ssl bytes offset k =
     (if offset < length bytes
      then let (rc, k1) = SSL_write api ssl (drop offset bytes) k in
        (case ssl_expect_positive api rc ssl ''SSL_write'' k1 of
           (Inl e, k2) \<Rightarrow> (Inl e, k2)
         | (Inr _, k2) \<Rightarrow> write_all_from api ssl bytes (offset + nat rc) k2)
      else (Inr (), k))"
  by pat_completeness auto

termination
  by (relation "measure (\<lambda>(api, ssl, bytes, offset, k). length bytes - offset)")
    (auto dest!: sym [of "(Inr _, _)"] simp: expect_positive_Inr)

declare write_all_from.simps [simp del]

definition write_all :: "('k, 'c) ssl_api \<Rightarrow> ssl \<Rightarrow> byte_buffer \<Rightarrow> ('k, unit) op" where
  "write_all api ssl bytes = write_all_from api ssl bytes 0"

text \<open>\<^verbatim>\<open>vector::resize\<close>.\<close>

definition resize :: "nat \<Rightarrow> byte_buffer \<Rightarrow> byte_buffer" where
  "resize n out = take n out @ replicate (n - length out) 0"

definition read_one_message :: "('k, 'c) ssl_api \<Rightarrow> ssl \<Rightarrow> ('k, byte_buffer) op" where
  "read_one_message api ssl k =
     (let ((rc, out), k1) = SSL_read api ssl (replicate 4096 0) k in
      (case ssl_expect_positive api rc ssl ''SSL_read'' k1 of
         (Inl e, k2) \<Rightarrow> (Inl e, k2)
       | (Inr _, k2) \<Rightarrow> (Inr (resize (nat rc) out), k2)))"

section \<open>What OpenSSL documents of the two calls\<close>

text \<open>
  \<open>sent ssl k\<close> is the stream of bytes the peer of \<open>ssl\<close> will read. A successful
  \<^verbatim>\<open>SSL_write\<close> returns how many bytes, from the front of the buffer, it added to it; a failed
  one adds none. Taking an error code off the queue does not touch the stream.
\<close>

definition ssl_writes :: "('k, 'c) ssl_api \<Rightarrow> (ssl \<Rightarrow> 'k \<Rightarrow> byte_buffer) \<Rightarrow> bool" where
  "ssl_writes api sent \<longleftrightarrow>
     (\<forall>ssl bs k. case SSL_write api ssl bs k of (rc, k') \<Rightarrow>
        nat rc \<le> length bs \<and> sent ssl k' = sent ssl k @ take (nat rc) bs) \<and>
     (\<forall>ssl k. sent ssl (snd (ERR_get_error api k)) = sent ssl k)"

text \<open>
  \<open>incoming ssl k\<close> is what the peer has sent and the program not yet read. A successful
  \<^verbatim>\<open>SSL_read\<close> stores a prefix of it at the front of the buffer, no longer than the buffer.
\<close>

definition ssl_reads :: "('k, 'c) ssl_api \<Rightarrow> (ssl \<Rightarrow> 'k \<Rightarrow> byte_buffer) \<Rightarrow> bool" where
  "ssl_reads api incoming \<longleftrightarrow>
     (\<forall>ssl buf k. case SSL_read api ssl buf k of ((rc, out), k') \<Rightarrow>
        length out = length buf \<and> nat rc \<le> length buf \<and>
        (0 < rc \<longrightarrow> take (nat rc) out = take (nat rc) (incoming ssl k) \<and> nat rc \<le> length (incoming ssl k)))"

lemma ssl_writesD:
  assumes "ssl_writes api sent" and "SSL_write api ssl bs k = (rc, k')"
  shows "nat rc \<le> length bs" and "sent ssl k' = sent ssl k @ take (nat rc) bs"
  using assms by (auto simp: ssl_writes_def split: prod.splits)

lemma ssl_readsD:
  assumes "ssl_reads api incoming" and "SSL_read api ssl buf k = ((rc, out), k')"
  shows "length out = length buf \<and> nat rc \<le> length buf \<and>
     (0 < rc \<longrightarrow> take (nat rc) out = take (nat rc) (incoming ssl k) \<and> nat rc \<le> length (incoming ssl k))"
  using assms(1) [unfolded ssl_reads_def, THEN spec [of _ ssl], THEN spec [of _ buf], THEN spec [of _ k]] assms(2)
  by simp

lemma ssl_writes_error: "ssl_writes api sent \<Longrightarrow> sent ssl (snd (ERR_get_error api k)) = sent ssl k"
  by (simp add: ssl_writes_def)

text \<open>
  A write either sends everything, or throws after a proper prefix; no byte is sent twice or out of
  order, however the calls split the buffer.
\<close>

lemma write_all_from_step:
  assumes "offset < length bytes" and "SSL_write api ssl (drop offset bytes) k = (rc, k1)"
  shows "write_all_from api ssl bytes offset k =
     (if rc > 0 then write_all_from api ssl bytes (offset + nat rc) k1
      else (case ssl_expect_positive api rc ssl ''SSL_write'' k1 of (x, k2) \<Rightarrow> (x, k2)))"
  using assms
  by (simp add: write_all_from.simps [of api ssl bytes offset k])
    (auto simp: ssl_expect_positive_def Let_def split: prod.splits)

lemma write_all_from_sent:
  assumes w: "ssl_writes api sent" and "offset \<le> length bytes"
    and "write_all_from api ssl bytes offset k = (r, k')"
  shows "case r of
      Inr _ \<Rightarrow> sent ssl k' = sent ssl k @ drop offset bytes
    | Inl e \<Rightarrow> (\<exists>m. e = AsmError m) \<and>
        (\<exists>n. offset + n < length bytes \<and> sent ssl k' = sent ssl k @ take n (drop offset bytes))"
  using assms(2,3)
proof (induction "length bytes - offset" arbitrary: offset k rule: less_induct)
  case less
  show ?case
  proof (cases "offset < length bytes")
    case False
    with less.prems have "r = Inr ()" and "k' = k" and "offset = length bytes"
      by (simp_all add: write_all_from.simps)
    then show ?thesis by simp
  next
    case True
    obtain rc k1 where call: "SSL_write api ssl (drop offset bytes) k = (rc, k1)"
      by (cases "SSL_write api ssl (drop offset bytes) k")
    note sent1 = ssl_writesD [OF w call]
    note step = write_all_from_step [OF True call]
    show ?thesis
    proof (cases "rc > 0")
      case False
      then obtain m where "r = Inl (AsmError m)" and "k' = snd (ERR_get_error api k1)"
        using less.prems(2) step by (auto simp: ssl_expect_positive_def Let_def split: prod.splits)
      with False True sent1(2) ssl_writes_error [OF w, of ssl k1] show ?thesis
        by (auto intro!: exI [of _ 0])
    next
      case pos: True
      let ?o = "offset + nat rc"
      have le: "?o \<le> length bytes" using sent1(1) True by simp
      have "length bytes - ?o < length bytes - offset" using pos True by simp
      from less.hyps [OF this le] less.prems(2) step pos
      have IH: "case r of
          Inr _ \<Rightarrow> sent ssl k' = sent ssl k1 @ drop ?o bytes
        | Inl e \<Rightarrow> (\<exists>m. e = AsmError m) \<and>
            (\<exists>n. ?o + n < length bytes \<and> sent ssl k' = sent ssl k1 @ take n (drop ?o bytes))" by simp
      have split: "take (nat rc) (drop offset bytes) @ take n (drop ?o bytes) = take (nat rc + n) (drop offset bytes)" for n
        by (rule take_drop_concat_step [symmetric])
      have whole: "drop offset bytes = take (nat rc) (drop offset bytes) @ drop ?o bytes"
        by (metis append_take_drop_id drop_drop add.commute)
      show ?thesis
      proof (cases r)
        case (Inr u)
        then have "sent ssl k' = sent ssl k @ take (nat rc) (drop offset bytes) @ drop ?o bytes"
          using IH sent1(2) by simp
        with Inr whole show ?thesis by simp
      next
        case (Inl e)
        then obtain n where "?o + n < length bytes" "sent ssl k' = sent ssl k1 @ take n (drop ?o bytes)"
          and "\<exists>m. e = AsmError m"
          using IH by auto
        then have "offset + (nat rc + n) < length bytes"
          and "sent ssl k' = sent ssl k @ take (nat rc + n) (drop offset bytes)"
          using sent1(2) split [of n] by simp_all
        with Inl \<open>\<exists>m. e = AsmError m\<close> show ?thesis by auto
      qed
    qed
  qed
qed

lemma write_all_sent:
  assumes "ssl_writes api sent" and "write_all api ssl bytes k = (r, k')"
  shows "case r of
      Inr _ \<Rightarrow> sent ssl k' = sent ssl k @ bytes
    | Inl e \<Rightarrow> (\<exists>m. e = AsmError m) \<and>
        (\<exists>n < length bytes. sent ssl k' = sent ssl k @ take n bytes)"
  using write_all_from_sent [OF assms(1), of 0 bytes ssl k r k'] assms(2)
  by (auto simp: write_all_def split: sum.splits)

text \<open>Where each call makes progress, \<^verbatim>\<open>write_all\<close> returns.\<close>

definition writes_succeed :: "('k, 'c) ssl_api \<Rightarrow> bool" where
  "writes_succeed api \<longleftrightarrow> (\<forall>ssl bs k. bs \<noteq> [] \<longrightarrow> 0 < fst (SSL_write api ssl bs k))"

lemma write_all_from_succeeds:
  assumes "writes_succeed api"
  shows "fst (write_all_from api ssl bytes offset k) = Inr ()"
proof (induction "length bytes - offset" arbitrary: offset k rule: less_induct)
  case less
  show ?case
  proof (cases "offset < length bytes")
    case False
    then show ?thesis by (simp add: write_all_from.simps)
  next
    case True
    obtain rc k1 where call: "SSL_write api ssl (drop offset bytes) k = (rc, k1)"
      by (cases "SSL_write api ssl (drop offset bytes) k")
    have "drop offset bytes \<noteq> []" using True by simp
    with assms have "0 < fst (SSL_write api ssl (drop offset bytes) k)" unfolding writes_succeed_def by blast
    then have pos: "rc > 0" using call by simp
    have "length bytes - (offset + nat rc) < length bytes - offset" using pos True by simp
    from less [OF this] show ?thesis by (simp add: write_all_from_step [OF True call] pos)
  qed
qed

lemma write_all_succeeds:
  assumes "ssl_writes api sent" and "writes_succeed api"
  shows "\<exists>k'. write_all api ssl bytes k = (Inr (), k') \<and> sent ssl k' = sent ssl k @ bytes"
proof -
  obtain r k' where wa: "write_all api ssl bytes k = (r, k')" by (cases "write_all api ssl bytes k")
  moreover have "r = Inr ()"
    using write_all_from_succeeds [OF assms(2), of ssl bytes 0 k] wa by (simp add: write_all_def)
  ultimately show ?thesis using write_all_sent [OF assms(1) wa] by simp
qed

section \<open>One read per message\<close>

lemma read_one_message_prefix:
  assumes "ssl_reads api incoming" and "read_one_message api ssl k = (Inr out, k')"
  shows "out = take (length out) (incoming ssl k)" and "1 \<le> length out" and "length out \<le> 4096"
proof -
  obtain rc buf k1 where call: "SSL_read api ssl (replicate 4096 0) k = ((rc, buf), k1)"
    by (metis prod.exhaust)
  have rc: "0 < rc" and out: "out = resize (nat rc) buf"
    using assms(2) call by (auto simp: read_one_message_def Let_def expect_positive_Inr split: prod.splits sum.splits)
  have "length buf = 4096" "nat rc \<le> 4096" "take (nat rc) buf = take (nat rc) (incoming ssl k)"
    "nat rc \<le> length (incoming ssl k)"
    using ssl_readsD [OF assms(1) call] rc by simp_all
  then show "out = take (length out) (incoming ssl k)" and "1 \<le> length out" and "length out \<le> 4096"
    using rc by (auto simp: out resize_def)
qed

text \<open>
  Where a read takes all that has arrived, as far as its buffer goes, a message that is there and short
  enough is read whole.
\<close>

definition reads_available :: "('k, 'c) ssl_api \<Rightarrow> (ssl \<Rightarrow> 'k \<Rightarrow> byte_buffer) \<Rightarrow> bool" where
  "reads_available api incoming \<longleftrightarrow> (\<forall>ssl buf k. incoming ssl k \<noteq> [] \<longrightarrow>
     fst (fst (SSL_read api ssl buf k)) = int (min (length buf) (length (incoming ssl k))))"

lemma read_one_message_available:
  assumes "ssl_reads api incoming" and "reads_available api incoming" and "incoming ssl k \<noteq> []"
  shows "\<exists>k'. read_one_message api ssl k = (Inr (take 4096 (incoming ssl k)), k')"
proof -
  obtain rc buf k1 where call: "SSL_read api ssl (replicate 4096 0) k = ((rc, buf), k1)"
    by (metis prod.exhaust)
  have "fst (fst (SSL_read api ssl (replicate 4096 0) k)) =
      int (min (length (replicate 4096 (0 :: byte))) (length (incoming ssl k)))"
    using assms(2,3) unfolding reads_available_def by blast
  then have rc: "rc = int (min 4096 (length (incoming ssl k)))" using call by simp
  then have pos: "0 < rc" using assms(3) by simp
  have "take (nat rc) buf = take 4096 (incoming ssl k)"
    using ssl_readsD [OF assms(1) call] pos rc by (auto simp: min_def)
  moreover have "resize (nat rc) buf = take (nat rc) buf"
    using ssl_readsD [OF assms(1) call] rc by (simp add: resize_def)
  ultimately show ?thesis
    using pos by (simp add: read_one_message_def call ssl_expect_positive_def)
qed

lemma read_one_message_whole:
  assumes "ssl_reads api incoming" and "reads_available api incoming"
    and "incoming ssl k \<noteq> []" and "length (incoming ssl k) \<le> 4096"
  shows "\<exists>k'. read_one_message api ssl k = (Inr (incoming ssl k), k')"
  using read_one_message_available [OF assms(1-3)] assms(4) by simp

lemma read_one_message_AsmError:
  "read_one_message api ssl k = (Inl e, k') \<Longrightarrow> \<exists>m. e = AsmError m"
  by (auto simp: read_one_message_def Let_def dest: expect_positive_Inl split: prod.splits sum.splits)

text \<open>
  What is asked of a connection on which a session succeeds: writes and reads as OpenSSL documents them,
  every write makes progress, and reading sends nothing of the application's.
\<close>

definition connection_ok ::
    "('k, 'c) ssl_api \<Rightarrow> (ssl \<Rightarrow> 'k \<Rightarrow> byte_buffer) \<Rightarrow> (ssl \<Rightarrow> 'k \<Rightarrow> byte_buffer) \<Rightarrow> bool" where
  "connection_ok api sent incoming \<longleftrightarrow>
     ssl_writes api sent \<and> writes_succeed api \<and> ssl_reads api incoming \<and>
     (\<forall>ssl buf k. sent ssl (snd (SSL_read api ssl buf k)) = sent ssl k)"

lemma connection_okD:
  assumes "connection_ok api sent incoming"
  shows "ssl_writes api sent" "writes_succeed api" "ssl_reads api incoming"
    "sent ssl (snd (SSL_read api ssl buf k)) = sent ssl k"
  using assms by (auto simp: connection_ok_def)

lemma read_one_message_sent:
  assumes "connection_ok api sent incoming" and "read_one_message api ssl k = (r, k')"
  shows "sent ssl k' = sent ssl k"
proof -
  obtain rc buf k1 where call: "SSL_read api ssl (replicate 4096 0) k = ((rc, buf), k1)"
    by (metis prod.exhaust)
  with connection_okD(4) [OF assms(1), of ssl "replicate 4096 0" k] have "sent ssl k1 = sent ssl k" by simp
  with assms(2) call connection_okD(1) [OF assms(1)] show ?thesis
    by (auto simp: read_one_message_def Let_def ssl_expect_positive_def ssl_writes_def
        split: prod.splits sum.splits if_splits)
      (metis snd_conv)
qed

end
