(* ===== verification/Socket.thy ===== *)
theory Socket
  imports Std_Text
begin

text \<open>
  Sockets: \<^verbatim>\<open>include/transport/socket.hpp\<close> and \<^verbatim>\<open>src/transport/socket.cpp\<close>. The
  operating system's calls are the fields of a record over the state \<open>'k\<close> of everything outside the
  program. A \<^verbatim>\<open>Socket\<close> owns a descriptor and moves it; the ownership discipline is proved
  over a heap of socket objects.
\<close>

section \<open>System calls\<close>

text \<open>
  A resolved address is opaque, a number. \<open>px_strerror\<close> is \<^verbatim>\<open>std::strerror(errno)\<close>, \<open>px_eintr\<close>
  whether \<^verbatim>\<open>errno\<close> is \<^verbatim>\<open>EINTR\<close>.
\<close>

type_synonym addrinfo = nat

record 'k posix_api =
  px_socket :: "'k \<Rightarrow> int \<times> 'k"
  px_reuse_addr :: "int \<Rightarrow> 'k \<Rightarrow> int \<times> 'k"
  px_bind :: "int \<Rightarrow> nat \<Rightarrow> 'k \<Rightarrow> int \<times> 'k"
  px_listen :: "int \<Rightarrow> int \<Rightarrow> 'k \<Rightarrow> int \<times> 'k"
  px_accept :: "int \<Rightarrow> 'k \<Rightarrow> int \<times> 'k"
  px_getaddrinfo :: "string \<Rightarrow> string \<Rightarrow> 'k \<Rightarrow> (int \<times> addrinfo list) \<times> 'k"
  px_connect :: "int \<Rightarrow> addrinfo \<Rightarrow> 'k \<Rightarrow> int \<times> 'k"
  px_close :: "int \<Rightarrow> 'k \<Rightarrow> 'k"
  px_select :: "int \<Rightarrow> 'k \<Rightarrow> int \<times> 'k"
  px_strerror :: "'k \<Rightarrow> string"
  px_eintr :: "'k \<Rightarrow> bool"
  px_gai_strerror :: "int \<Rightarrow> string"

section \<open>The operations\<close>

record socket =
  sock_fd :: int

definition socket_valid :: "socket \<Rightarrow> bool" where
  "socket_valid s \<longleftrightarrow> sock_fd s \<ge> 0"

definition socket_close :: "'k posix_api \<Rightarrow> socket \<Rightarrow> 'k \<Rightarrow> socket \<times> 'k" where
  "socket_close api s k = (if sock_fd s \<ge> 0 then (s\<lparr>sock_fd := -1\<rparr>, px_close api (sock_fd s) k) else (s, k))"

definition set_reuse_addr :: "'k posix_api \<Rightarrow> socket \<Rightarrow> ('k, unit) op" where
  "set_reuse_addr api s k =
     (let (rc, k') = px_reuse_addr api (sock_fd s) k in
      (if rc \<noteq> 0 then Inl (AsmError ''failed to set SO_REUSEADDR'') else Inr (), k'))"

definition bind_and_listen :: "'k posix_api \<Rightarrow> socket \<Rightarrow> nat \<Rightarrow> int \<Rightarrow> ('k, unit) op" where
  "bind_and_listen api s port backlog k =
     (let (rc, k1) = px_bind api (sock_fd s) port k in
      if rc \<noteq> 0 then (Inl (AsmError (''bind failed: '' @ px_strerror api k1)), k1)
      else let (rc', k2) = px_listen api (sock_fd s) backlog k1 in
        if rc' \<noteq> 0 then (Inl (AsmError (''listen failed: '' @ px_strerror api k2)), k2)
        else (Inr (), k2))"

definition socket_accept :: "'k posix_api \<Rightarrow> socket \<Rightarrow> ('k, socket) op" where
  "socket_accept api s k =
     (let (client_fd, k') = px_accept api (sock_fd s) k in
      if client_fd < 0 then (Inl (AsmError (''accept failed: '' @ px_strerror api k')), k')
      else (Inr \<lparr>sock_fd = client_fd\<rparr>, k'))"

text \<open>The loop over the resolved addresses: the first that accepts the connection ends it.\<close>

primrec try_connect :: "'k posix_api \<Rightarrow> socket \<Rightarrow> addrinfo list \<Rightarrow> 'k \<Rightarrow> bool \<times> 'k" where
  "try_connect api s [] k = (False, k)"
| "try_connect api s (current # rest) k =
     (let (rc, k') = px_connect api (sock_fd s) current k in
      if rc = 0 then (True, k') else try_connect api s rest k')"

definition socket_connect :: "'k posix_api \<Rightarrow> socket \<Rightarrow> string \<Rightarrow> nat \<Rightarrow> ('k, unit) op" where
  "socket_connect api s host port k =
     (let ((rc, results), k1) = px_getaddrinfo api host (dec_string port) k in
      if rc \<noteq> 0 then (Inl (AsmError (''getaddrinfo failed: '' @ px_gai_strerror api rc)), k1)
      else let (connected, k2) = try_connect api s results k1 in
        if connected then (Inr (), k2)
        else (Inl (AsmError (''connect failed: '' @ px_strerror api k2)), k2))"

definition make_tcp_socket :: "'k posix_api \<Rightarrow> ('k, socket) op" where
  "make_tcp_socket api k =
     (let (fd, k') = px_socket api k in
      if fd < 0 then (Inl (AsmError (''socket failed: '' @ px_strerror api k')), k')
      else (Inr \<lparr>sock_fd = fd\<rparr>, k'))"

section \<open>Moving sockets\<close>

text \<open>
  Socket objects by address, and the descriptors the process has open. A constructor places an
  object at an unused address; \<^verbatim>\<open>Socket(Socket&&)\<close> and the move assignment take over the
  other's descriptor; the destructor closes what is left.
\<close>

record socket_heap =
  objects :: "nat \<Rightarrow> socket option"
  open_fds :: "int set"

definition heap_close :: "nat \<Rightarrow> socket_heap \<Rightarrow> socket_heap" where
  "heap_close a h =
     (case objects h a of
        None \<Rightarrow> h
      | Some s \<Rightarrow> if sock_fd s \<ge> 0
                  then h\<lparr>objects := (objects h)(a \<mapsto> s\<lparr>sock_fd := -1\<rparr>), open_fds := open_fds h - {sock_fd s}\<rparr>
                  else h)"

definition heap_construct :: "nat \<Rightarrow> int \<Rightarrow> socket_heap \<Rightarrow> socket_heap" where
  "heap_construct a fd h = h\<lparr>objects := (objects h)(a \<mapsto> \<lparr>sock_fd = fd\<rparr>)\<rparr>"

definition heap_move_construct :: "nat \<Rightarrow> nat \<Rightarrow> socket_heap \<Rightarrow> socket_heap" where
  "heap_move_construct a other h =
     (case objects h other of
        None \<Rightarrow> h
      | Some s \<Rightarrow> h\<lparr>objects := (objects h)(a \<mapsto> \<lparr>sock_fd = sock_fd s\<rparr>, other \<mapsto> s\<lparr>sock_fd := -1\<rparr>)\<rparr>)"

definition heap_move_assign :: "nat \<Rightarrow> nat \<Rightarrow> socket_heap \<Rightarrow> socket_heap" where
  "heap_move_assign a other h =
     (if a = other then h
      else let h' = heap_close a h in
        case objects h' other of
          None \<Rightarrow> h'
        | Some s \<Rightarrow> h'\<lparr>objects := (objects h')(a \<mapsto> \<lparr>sock_fd = sock_fd s\<rparr>, other \<mapsto> s\<lparr>sock_fd := -1\<rparr>)\<rparr>)"

definition heap_destroy :: "nat \<Rightarrow> socket_heap \<Rightarrow> socket_heap" where
  "heap_destroy a h = (heap_close a h)\<lparr>objects := (objects (heap_close a h))(a := None)\<rparr>"

text \<open>
  What a program using sockets can do: a new descriptor comes from the system, which hands out one
  that is not open, and goes straight into a new object (\<^verbatim>\<open>make_tcp_socket\<close>,
  \<^verbatim>\<open>accept\<close>); the rest are the members of the class.
\<close>

inductive socket_step :: "socket_heap \<Rightarrow> socket_heap \<Rightarrow> bool" where
  fresh: "objects h a = None \<Longrightarrow> fd \<ge> 0 \<Longrightarrow> fd \<notin> open_fds h \<Longrightarrow>
    socket_step h (heap_construct a fd (h\<lparr>open_fds := insert fd (open_fds h)\<rparr>))"
| empty: "objects h a = None \<Longrightarrow> socket_step h (heap_construct a (-1) h)"
| move_construct: "objects h a = None \<Longrightarrow> objects h b \<noteq> None \<Longrightarrow> socket_step h (heap_move_construct a b h)"
| move_assign: "objects h a \<noteq> None \<Longrightarrow> objects h b \<noteq> None \<Longrightarrow> socket_step h (heap_move_assign a b h)"
| close: "objects h a \<noteq> None \<Longrightarrow> socket_step h (heap_close a h)"
| destroy: "objects h a \<noteq> None \<Longrightarrow> socket_step h (heap_destroy a h)"

definition owns :: "socket_heap \<Rightarrow> nat \<Rightarrow> int \<Rightarrow> bool" where
  "owns h a fd \<longleftrightarrow> fd \<ge> 0 \<and> (\<exists>s. objects h a = Some s \<and> sock_fd s = fd)"

text \<open>Every open descriptor has exactly one owner, and every owned descriptor is open.\<close>

definition owned_once :: "socket_heap \<Rightarrow> bool" where
  "owned_once h \<longleftrightarrow> (\<forall>fd. fd \<in> open_fds h \<longleftrightarrow> (\<exists>a. owns h a fd)) \<and>
     (\<forall>a b fd. owns h a fd \<longrightarrow> owns h b fd \<longrightarrow> a = b)"

lemma owns_close:
  "owns (heap_close a h) b fd \<longleftrightarrow> owns h b fd \<and> b \<noteq> a"
  by (auto simp: owns_def heap_close_def split: option.splits)

lemma open_close: "owned_once h \<Longrightarrow> open_fds (heap_close a h) = open_fds h - {fd. owns h a fd}"
  by (auto simp: owns_def heap_close_def split: option.splits)

lemma owned_once_close: "owned_once h \<Longrightarrow> owned_once (heap_close a h)"
  using open_close [of h a] by (auto simp: owned_once_def owns_close)

lemma owns_construct:
  "objects h a = None \<Longrightarrow> owns (heap_construct a fd h) b x \<longleftrightarrow> owns h b x \<or> b = a \<and> x = fd \<and> fd \<ge> 0"
  by (auto simp: owns_def heap_construct_def)

text \<open>A move hands the descriptor from \<open>b\<close> to \<open>a\<close> and touches nobody else.\<close>

lemma owns_take_over:
  assumes "a \<noteq> b" and "objects h b = Some s" and "\<And>fd. \<not> owns h a fd"
  shows "owns (h\<lparr>objects := (objects h)(a \<mapsto> \<lparr>sock_fd = sock_fd s\<rparr>, b \<mapsto> s\<lparr>sock_fd := -1\<rparr>)\<rparr>) c fd \<longleftrightarrow>
     (if c = a then owns h b fd else c \<noteq> b \<and> owns h c fd)"
  using assms by (auto simp: owns_def)

lemma owned_once_take_over:
  assumes "owned_once h" and "a \<noteq> b" and "objects h b = Some s" and "\<And>fd. \<not> owns h a fd"
  shows "owned_once (h\<lparr>objects := (objects h)(a \<mapsto> \<lparr>sock_fd = sock_fd s\<rparr>, b \<mapsto> s\<lparr>sock_fd := -1\<rparr>)\<rparr>)"
    (is "owned_once ?h")
proof -
  note o = owns_take_over [OF assms(2-4)]
  have ex: "(\<exists>c. owns ?h c fd) \<longleftrightarrow> (\<exists>c. owns h c fd)" for fd
  proof
    assume "\<exists>c. owns h c fd"
    then obtain c where c: "owns h c fd" ..
    with assms(4) have "owns ?h (if c = b then a else c) fd" by (auto simp: o)
    then show "\<exists>c. owns ?h c fd" ..
  qed (auto simp: o split: if_splits)
  have "c = d" if "owns ?h c fd" "owns ?h d fd" for c d fd
    using that assms(1) unfolding owned_once_def by (auto simp: o split: if_splits)
  then show ?thesis
    using assms(1) ex unfolding owned_once_def by simp
qed

lemma objects_close: "objects (heap_close a h) b = None \<longleftrightarrow> objects h b = None"
  by (simp add: heap_close_def split: option.splits)

lemma owned_once_step:
  assumes "socket_step h h'" and inv: "owned_once h"
  shows "owned_once h'"
  using assms(1)
proof cases
  case (fresh a fd)
  let ?h = "h\<lparr>open_fds := insert fd (open_fds h)\<rparr>"
  have "objects ?h a = None" using fresh by simp
  note o = owns_construct [OF this]
  have "owns ?h b x \<longleftrightarrow> owns h b x" for b x by (simp add: owns_def)
  moreover have "open_fds h' = insert fd (open_fds h)" using fresh by (simp add: heap_construct_def)
  ultimately show ?thesis
    using inv fresh unfolding owned_once_def fresh(1) o by (metis insert_iff)
next
  case (empty a)
  have "open_fds h' = open_fds h" using empty by (simp add: heap_construct_def)
  then show ?thesis
    using inv unfolding owned_once_def empty(1) owns_construct [OF empty(2)] by simp
next
  case (move_construct a b)
  then obtain s where s: "objects h b = Some s" by auto
  have "a \<noteq> b" using move_construct by auto
  moreover have "\<not> owns h a fd" for fd using move_construct by (simp add: owns_def)
  ultimately show ?thesis
    using owned_once_take_over [OF inv _ s] s move_construct(1) by (simp add: heap_move_construct_def)
next
  case (move_assign a b)
  show ?thesis
  proof (cases "a = b")
    case True
    with inv move_assign(1) show ?thesis by (simp add: heap_move_assign_def)
  next
    case False
    let ?h = "heap_close a h"
    obtain s where s: "objects ?h b = Some s"
      using move_assign(3) objects_close [of a h b] by auto
    have "\<not> owns ?h a fd" for fd by (simp add: owns_close)
    then show ?thesis
      using owned_once_take_over [OF owned_once_close [OF inv] False s] s False move_assign(1)
      by (simp add: heap_move_assign_def Let_def)
  qed
next
  case (close a)
  with inv show ?thesis by (simp add: owned_once_close)
next
  case (destroy a)
  have "owns h' b x \<longleftrightarrow> owns (heap_close a h) b x" for b x
    unfolding destroy(1) owns_close by (auto simp: owns_def heap_destroy_def heap_close_def split: option.splits)
  moreover have "open_fds h' = open_fds (heap_close a h)"
    by (simp add: destroy(1) heap_destroy_def)
  ultimately show ?thesis
    using owned_once_close [OF inv, of a] by (simp add: owned_once_def)
qed

definition no_sockets :: socket_heap where
  "no_sockets = \<lparr>objects = Map.empty, open_fds = {}\<rparr>"

lemma owned_once_reachable: "socket_step\<^sup>*\<^sup>* no_sockets h \<Longrightarrow> owned_once h"
  by (induction rule: rtranclp_induct)
    (auto simp: owned_once_step, simp add: owned_once_def owns_def no_sockets_def)

text \<open>When every object is gone, nothing is left open.\<close>

lemma no_leak: "owned_once h \<Longrightarrow> objects h = Map.empty \<Longrightarrow> open_fds h = {}"
  by (auto simp: owned_once_def owns_def)

lemma closes_own_fd:
  "owned_once h \<Longrightarrow> open_fds h - open_fds (heap_close a h) = {fd. owns h a fd}"
  by (auto simp: open_close owned_once_def)

section \<open>Properties\<close>

text \<open>C25: however a program constructs, moves, assigns, closes and destroys sockets, every open
descriptor has exactly one owner, closing an object closes the descriptor it owns and no other, and
when the last object is gone no descriptor is left open.\<close>

theorem descriptors_owned_once:
  assumes "socket_step\<^sup>*\<^sup>* no_sockets h"
  shows "(\<forall>fd. fd \<in> open_fds h \<longleftrightarrow> (\<exists>!a. owns h a fd)) \<and>
    open_fds h - open_fds (heap_close a h) = {fd. owns h a fd} \<and>
    (objects h = Map.empty \<longrightarrow> open_fds h = {})"
proof -
  have inv: "owned_once h" by (rule owned_once_reachable [OF assms])
  then have "fd \<in> open_fds h \<longleftrightarrow> (\<exists>!a. owns h a fd)" for fd
    unfolding owned_once_def by metis
  with inv closes_own_fd [OF inv, of a] no_leak [OF inv] show ?thesis by blast
qed

theorem descriptors_owned_once_witness:
  "\<exists>h. socket_step\<^sup>*\<^sup>* no_sockets h \<and> open_fds h = {3} \<and> (\<exists>!a. owns h a 3)"
proof -
  let ?h = "heap_construct 0 3 (no_sockets\<lparr>open_fds := insert 3 (open_fds no_sockets)\<rparr>)"
  have "socket_step no_sockets ?h"
    by (rule socket_step.fresh) (simp_all add: no_sockets_def)
  then have r: "socket_step\<^sup>*\<^sup>* no_sockets ?h" by simp
  from descriptors_owned_once [OF r, of 0]
  have one: "3 \<in> open_fds ?h \<longleftrightarrow> (\<exists>!a. owns ?h a 3)" by blast
  have "open_fds ?h = {3}" by (simp add: heap_construct_def no_sockets_def)
  with r one show ?thesis by blast
qed

end
