(* ===== verification/Tls_Server.thy ===== *)
theory Tls_Server
  imports Ssl_Io Socket
begin

text \<open>
  The responder's server: \<^verbatim>\<open>include/transport/tls_server.hpp\<close> and
  \<^verbatim>\<open>src/transport/tls_server.cpp\<close>. One session reads one message, serves it and writes one
  response; whatever is thrown in between is answered with BadRequest. The accept loop serves one
  connection after the other. The environment (operating system, OpenSSL, clock, stop flag) is the
  record \<open>platform\<close> over its state \<open>'k\<close>.
\<close>

section \<open>Sessions\<close>

record session_trace =
  tr_thumbprint :: string
  tr_command :: command
  tr_request_id :: "u32 option"
  tr_status :: general_response
  tr_note :: string

definition session_trace_default :: session_trace where
  "session_trace_default =
     \<lparr>tr_thumbprint = [], tr_command = bad_request, tr_request_id = None, tr_status = successful,
      tr_note = []\<rparr>"

record 's tls_server =
  srv_config :: tls_config
  srv_service :: "'s asm_service"
  srv_port :: nat

definition tls_server_new :: "tls_config \<Rightarrow> 's asm_service \<Rightarrow> nat \<Rightarrow> 's tls_server" where
  "tls_server_new config service port = \<lparr>srv_config = config, srv_service = service, srv_port = port\<rparr>"

lemma tls_server_new_simps [simp]:
  "srv_config (tls_server_new config service port) = config"
  "srv_service (tls_server_new config service port) = service"
  "srv_port (tls_server_new config service port) = port"
  by (simp_all add: tls_server_new_def)

text \<open>
  \<open>pf_now\<close> reads the system clock, \<open>pf_stop\<close> the stop flag that a signal handler sets.
\<close>

record ('k, 'c) platform =
  pf_x509 :: x509_api
  pf_ctx :: "'c ssl_ctx_api"
  pf_ssl :: "('k, 'c) ssl_api"
  pf_posix :: "'k posix_api"
  pf_now :: "'k \<Rightarrow> int \<times> 'k"
  pf_stop :: "'k \<Rightarrow> bool \<times> 'k"

text \<open>
  The key store's state, the environment, OpenSSL's initialisation, and the traces the observer was given.
\<close>

record ('s, 'k) server_state =
  st_keys :: 's
  st_env :: 'k
  st_openssl :: openssl_state
  st_traces :: "session_trace list"

text \<open>
  \<^verbatim>\<open>SessionObserver\<close>: a callback that may act on the environment, and may throw; an empty
  \<^verbatim>\<open>std::function\<close> is \<open>None\<close>.
\<close>

type_synonym 'k session_observer = "session_trace \<Rightarrow> ('k, unit) op"

text \<open>
  Inside a session the local \<^verbatim>\<open>trace\<close> travels with the state: what was assigned to it
  before a throw is still there in the handler.
\<close>

type_synonym ('s, 'k, 'a) session_op = "(session_trace \<times> ('s, 'k) server_state, 'a) op"

definition in_env :: "('k, 'a) op \<Rightarrow> ('s, 'k, 'a) session_op" where
  "in_env m = (\<lambda>(trace, st). case m (st_env st) of (r, k) \<Rightarrow> (r, trace, st\<lparr>st_env := k\<rparr>))"

definition in_keys :: "('s, 'a) op \<Rightarrow> ('s, 'k, 'a) session_op" where
  "in_keys m = (\<lambda>(trace, st). case m (st_keys st) of (r, s) \<Rightarrow> (r, trace, st\<lparr>st_keys := s\<rparr>))"

definition read_clock :: "('k, 'c) platform \<Rightarrow> ('s, 'k, int) session_op" where
  "read_clock pf = in_env (\<lambda>k. case pf_now pf k of (now, k') \<Rightarrow> (Inr now, k'))"

definition set_trace :: "(session_trace \<Rightarrow> session_trace) \<Rightarrow> ('s, 'k, unit) session_op" where
  "set_trace f = (\<lambda>(trace, st). (Inr (), f trace, st))"

definition catchO :: "('s, 'a) op \<Rightarrow> (exn \<Rightarrow> ('s, 'a) op) \<Rightarrow> ('s, 'a) op" where
  "catchO body handler s =
     (case body s of (Inl ex, s') \<Rightarrow> handler ex s' | (Inr x, s') \<Rightarrow> (Inr x, s'))"

text \<open>
  The \<^verbatim>\<open>try\<close> block. The clock is read for \<^verbatim>\<open>received_at\<close>, and a second
  time inside the service by the one handler that asks for the time; \<open>now\<close> is not used by the others.
\<close>

definition uses_clock :: "standard_request \<Rightarrow> bool" where
  "uses_clock request \<longleftrightarrow> req_id request \<noteq> 0 \<and> req_command request = get_time"

definition service_clock :: "('k, 'c) platform \<Rightarrow> standard_request \<Rightarrow> int \<Rightarrow> ('s, 'k, int) session_op" where
  "service_clock pf request received_at =
     (if uses_clock request then read_clock pf else returnO received_at)"

definition serve_request ::
    "('k, 'c) platform \<Rightarrow> 's tls_server \<Rightarrow> ssl \<Rightarrow> peer_identity \<Rightarrow> byte_buffer \<Rightarrow> ('s, 'k, unit) session_op" where
  "serve_request pf srv ssl peer request_bytes =
     bindO (liftO (klv_decode request_bytes)) (\<lambda>packet.
     bindO (liftO (codec_decode_request packet)) (\<lambda>request.
     bindO (set_trace (\<lambda>trace. trace\<lparr>tr_command := req_command request,
                                     tr_request_id := Some (req_id request)\<rparr>)) (\<lambda>_.
     bindO (read_clock pf) (\<lambda>received_at.
     bindO (service_clock pf request received_at) (\<lambda>now.
     bindO (in_keys (handle_request (srv_service srv) now request request_bytes
                       \<lparr>ctx_peer = Some peer, ctx_received_at = received_at\<rparr>)) (\<lambda>result.
     bindO (set_trace (\<lambda>trace. trace\<lparr>tr_status := resp_code (sr_response result),
                                     tr_note := sr_note result\<rparr>)) (\<lambda>_.
     bindO (liftO (bindE (codec_encode_response (sr_response result)) klv_encode)) (\<lambda>response.
     in_env (write_all (pf_ssl pf) ssl response)))))))))"

text \<open>The \<^verbatim>\<open>catch\<close> block.\<close>

definition serve_failure ::
    "('k, 'c) platform \<Rightarrow> ssl \<Rightarrow> byte_buffer \<Rightarrow> exn \<Rightarrow> ('s, 'k, unit) session_op" where
  "serve_failure pf ssl request_bytes ex =
     (let result = handle_decode_failure request_bytes (what ex) in
      bindO (set_trace (\<lambda>trace. trace\<lparr>tr_status := resp_code (sr_response result),
                                      tr_note := what ex\<rparr>)) (\<lambda>_.
      bindO (liftO (bindE (codec_encode_response (sr_response result)) klv_encode)) (\<lambda>response.
      in_env (write_all (pf_ssl pf) ssl response))))"

definition answer_request ::
    "('k, 'c) platform \<Rightarrow> 's tls_server \<Rightarrow> ssl \<Rightarrow> peer_identity \<Rightarrow> byte_buffer \<Rightarrow> ('s, 'k, unit) session_op" where
  "answer_request pf srv ssl peer request_bytes =
     catchO (serve_request pf srv ssl peer request_bytes) (serve_failure pf ssl request_bytes)"

text \<open>A call of the observer, recorded whether or not it throws.\<close>

definition notify :: "'k session_observer option \<Rightarrow> session_trace \<Rightarrow> (('s, 'k) server_state, unit) op" where
  "notify observer trace st =
     (case observer of
        None \<Rightarrow> (Inr (), st)
      | Some f \<Rightarrow>
          (case f trace (st_env st) of
             (r, k) \<Rightarrow> (r, st\<lparr>st_env := k, st_traces := st_traces st @ [trace]\<rparr>)))"

text \<open>From the handshake to the observer.\<close>

definition serve_session ::
    "('k, 'c) platform \<Rightarrow> 's tls_server \<Rightarrow> 'k session_observer option \<Rightarrow> ssl \<Rightarrow> ('s, 'k, unit) session_op" where
  "serve_session pf srv observer ssl =
     bindO (in_env (\<lambda>k. case SSL_accept (pf_ssl pf) ssl k of (rc, k1) \<Rightarrow>
                      ssl_expect_positive (pf_ssl pf) rc ssl ''SSL_accept'' k1)) (\<lambda>_.
     bindO (in_env (\<lambda>k. (Inr (SSL_get1_peer_certificate (pf_ssl pf) ssl k), k))) (\<lambda>peer_cert.
     bindO (liftO (validate_certificate_profile (pf_x509 pf) peer_cert)) (\<lambda>_.
     bindO (liftO (read_peer_identity (pf_x509 pf) peer_cert)) (\<lambda>peer.
     bindO (set_trace (\<lambda>trace. trace\<lparr>tr_thumbprint := peer_thumbprint peer\<rparr>)) (\<lambda>_.
     bindO (in_env (read_one_message (pf_ssl pf) ssl)) (\<lambda>request_bytes.
     bindO (answer_request pf srv ssl peer request_bytes) (\<lambda>_.
     (\<lambda>(trace, st). case notify observer trace st of (r, st') \<Rightarrow> (r, trace, st')))))))))"

definition serve_connection ::
    "('k, 'c) platform \<Rightarrow> 's tls_server \<Rightarrow> 'k session_observer option \<Rightarrow> 'c \<Rightarrow> int
       \<Rightarrow> (('s, 'k) server_state, unit) op" where
  "serve_connection pf srv observer ctx client_fd st =
     (case SSL_new (pf_ssl pf) ctx (st_env st) of
        (None, k1) \<Rightarrow> (Inl (AsmError ''failed to allocate SSL object''), st\<lparr>st_env := k1\<rparr>)
      | (Some ssl, k1) \<Rightarrow>
          let k2 = SSL_set_fd (pf_ssl pf) ssl client_fd k1;
              (r, _, st') = serve_session pf srv observer ssl (session_trace_default, st\<lparr>st_env := k2\<rparr>)
          in (r, st'\<lparr>st_env := ssl_deleter (pf_ssl pf) (Some ssl) (st_env st')\<rparr>))"

text \<open>The context lives as long as the function; its deleter runs on every way out.\<close>

definition free_context :: "'c \<Rightarrow> ('s, 'k) server_state \<Rightarrow> ('s, 'k) server_state" where
  "free_context ctx st = st\<lparr>st_openssl := ssl_ctx_deleter (Some ctx) (st_openssl st)\<rparr>"

definition serve_client ::
    "('k, 'c) platform \<Rightarrow> 's tls_server \<Rightarrow> 'k session_observer option \<Rightarrow> int
       \<Rightarrow> (('s, 'k) server_state, unit) op" where
  "serve_client pf srv observer client_fd st =
     (case create_server (pf_x509 pf) (pf_ctx pf) (srv_config srv) (st_openssl st) of
        (Inl e, ossl) \<Rightarrow> (Inl e, st\<lparr>st_openssl := ossl\<rparr>)
      | (Inr ctx, ossl) \<Rightarrow>
          (case serve_connection pf srv observer ctx client_fd (st\<lparr>st_openssl := ossl\<rparr>) of
             (r, st') \<Rightarrow> (r, free_context ctx st')))"

section \<open>The accept loop\<close>

text \<open>
  One round of the loop: \<open>None\<close> when it goes round again, otherwise how the loop was left (\<open>Inr\<close>
  when the stop flag ended it, \<open>Inl\<close> for an exception that escapes \<^verbatim>\<open>run\<close>).
\<close>

definition close_socket :: "('k, 'c) platform \<Rightarrow> socket \<Rightarrow> ('s, 'k) server_state \<Rightarrow> ('s, 'k) server_state" where
  "close_socket pf sock st = st\<lparr>st_env := snd (socket_close (pf_posix pf) sock (st_env st))\<rparr>"

text \<open>
  A connection that was accepted: what the session throws is given to the observer, and what the observer
  throws then leaves the loop. Either way the client's socket is closed.
\<close>

definition handle_client ::
    "('k, 'c) platform \<Rightarrow> 's tls_server \<Rightarrow> 'k session_observer option \<Rightarrow> socket \<Rightarrow> ('s, 'k) server_state
       \<Rightarrow> unit result option \<times> ('s, 'k) server_state" where
  "handle_client pf srv observer client_socket st =
     (case serve_client pf srv observer (sock_fd client_socket) st of
        (Inr _, st1) \<Rightarrow> (None, close_socket pf client_socket st1)
      | (Inl ex, st1) \<Rightarrow>
          (case notify observer (session_trace_default\<lparr>tr_note := what ex\<rparr>) st1 of
             (Inr _, st2) \<Rightarrow> (None, close_socket pf client_socket st2)
           | (Inl ex', st2) \<Rightarrow> (Some (Inl ex'), close_socket pf client_socket st2)))"

definition run_round ::
    "('k, 'c) platform \<Rightarrow> 's tls_server \<Rightarrow> 'k session_observer option \<Rightarrow> socket \<Rightarrow> ('s, 'k) server_state
       \<Rightarrow> unit result option \<times> ('s, 'k) server_state" where
  "run_round pf srv observer server_socket st =
     (let (stop, k1) = pf_stop pf (st_env st) in
      if stop then (Some (Inr ()), st\<lparr>st_env := k1\<rparr>)
      else let (ready, k2) = px_select (pf_posix pf) (sock_fd server_socket) k1 in
      if ready < 0
      then if px_eintr (pf_posix pf) k2
           then let (stop', k3) = pf_stop pf k2 in
             (if stop' then Some (Inr ()) else None, st\<lparr>st_env := k3\<rparr>)
           else (Some (Inl (AsmError ''select failed'')), st\<lparr>st_env := k2\<rparr>)
      else if ready = 0 then (None, st\<lparr>st_env := k2\<rparr>)
      else (case socket_accept (pf_posix pf) server_socket k2 of
              (Inl e, k3) \<Rightarrow> (Some (Inl e), st\<lparr>st_env := k3\<rparr>)
            | (Inr client_socket, k3) \<Rightarrow> handle_client pf srv observer client_socket (st\<lparr>st_env := k3\<rparr>)))"

text \<open>The loop may run for ever: \<open>run_loop\<close> is \<open>None\<close> exactly then.\<close>

partial_function (option) run_loop ::
    "('k, 'c) platform \<Rightarrow> 's tls_server \<Rightarrow> 'k session_observer option \<Rightarrow> socket \<Rightarrow> ('s, 'k) server_state
       \<Rightarrow> (unit result \<times> ('s, 'k) server_state) option" where
  "run_loop pf srv observer server_socket st =
     (case run_round pf srv observer server_socket st of
        (Some r, st') \<Rightarrow> Some (r, st')
      | (None, st') \<Rightarrow> run_loop pf srv observer server_socket st')"

text \<open>
  \<^verbatim>\<open>run\<close>: the server socket closes and the context is freed on every way out. The context
  is not used but for the check of the configuration; each session makes its own.
\<close>

definition server_listen ::
    "('k, 'c) platform \<Rightarrow> 's tls_server \<Rightarrow> 'k session_observer option \<Rightarrow> ('s, 'k) server_state
       \<Rightarrow> (unit result \<times> ('s, 'k) server_state) option" where
  "server_listen pf srv observer st =
     (case make_tcp_socket (pf_posix pf) (st_env st) of
        (Inl e, k1) \<Rightarrow> Some (Inl e, st\<lparr>st_env := k1\<rparr>)
      | (Inr server_socket, k1) \<Rightarrow>
     (case bindO (set_reuse_addr (pf_posix pf) server_socket)
             (\<lambda>_. bind_and_listen (pf_posix pf) server_socket (srv_port srv) 16) k1 of
        (Inl e, k2) \<Rightarrow> Some (Inl e, close_socket pf server_socket (st\<lparr>st_env := k2\<rparr>))
      | (Inr _, k2) \<Rightarrow>
          map_option (\<lambda>(r, st'). (r, close_socket pf server_socket st'))
            (run_loop pf srv observer server_socket (st\<lparr>st_env := k2\<rparr>))))"

definition server_run ::
    "('k, 'c) platform \<Rightarrow> 's tls_server \<Rightarrow> 'k session_observer option \<Rightarrow> ('s, 'k) server_state
       \<Rightarrow> (unit result \<times> ('s, 'k) server_state) option" where
  "server_run pf srv observer st =
     (case create_server (pf_x509 pf) (pf_ctx pf) (srv_config srv) (st_openssl st) of
        (Inl e, ossl) \<Rightarrow> Some (Inl e, st\<lparr>st_openssl := ossl\<rparr>)
      | (Inr ctx, ossl) \<Rightarrow>
          map_option (\<lambda>(r, st'). (r, free_context ctx st'))
            (server_listen pf srv observer (st\<lparr>st_openssl := ossl\<rparr>)))"

section \<open>One session, step by step\<close>

lemma in_env_apply: "in_env m (t, st) = (case m (st_env st) of (r, k) \<Rightarrow> (r, t, st\<lparr>st_env := k\<rparr>))"
  by (simp add: in_env_def)

lemma set_trace_apply [simp]: "set_trace f (t, st) = (Inr (), f t, st)"
  by (simp add: set_trace_def)

lemma bindO_set_trace [simp]: "bindO (set_trace f) g (t, st) = g () (f t, st)"
  by (simp add: bindO_def)

lemma bindO_liftO_case: "bindO (liftO x) f s = (case x of Inl e \<Rightarrow> (Inl e, s) | Inr y \<Rightarrow> f y s)"
  by (cases x) simp_all

lemma bindO_read_clock:
  "pf_now pf (st_env st) = (now, k) \<Longrightarrow> bindO (read_clock pf) g (t, st) = g now (t, st\<lparr>st_env := k\<rparr>)"
  by (simp add: bindO_def read_clock_def in_env_apply)

lemma bindO_in_keys:
  "m (st_keys st) = (r, s) \<Longrightarrow> bindO (in_keys m) g (t, st) =
     (case r of Inl e \<Rightarrow> (Inl e, t, st\<lparr>st_keys := s\<rparr>) | Inr x \<Rightarrow> g x (t, st\<lparr>st_keys := s\<rparr>))"
  by (simp add: bindO_def in_keys_def split: sum.splits)

lemma serve_request_undecodable:
  "decode_request_frame bytes = Inl e \<Longrightarrow> serve_request pf srv ssl peer bytes (t, st) = (Inl e, t, st)"
  by (auto simp: serve_request_def decode_request_frame_def bindE_eq_Inl)

text \<open>Only a request for the time depends on the clock the service reads.\<close>

lemma handle_request_clock:
  "\<not> uses_clock r \<Longrightarrow> handle_request svc now r raw ctx = handle_request svc now' r raw ctx"
  by (rule ext) (auto simp: handle_request_def uses_clock_def split: command.splits)

lemma bindO_service_clock:
  "pf_now pf (st_env st) = (now, k) \<Longrightarrow> bindO (service_clock pf r received) g (t, st) =
     (if uses_clock r then g now (t, st\<lparr>st_env := k\<rparr>) else g received (t, st))"
  by (simp add: service_clock_def bindO_read_clock) (simp add: bindO_def)

lemma serve_request_decoded:
  assumes "decode_request_frame bytes = Inr r"
    and "pf_now pf (st_env st) = (received, k1)" and "pf_now pf k1 = (now, k2)"
    and "handle_request (srv_service srv) now r bytes \<lparr>ctx_peer = Some peer, ctx_received_at = received\<rparr>
           (st_keys st) = (res, s')"
  shows "serve_request pf srv ssl peer bytes (t, st) =
     (let t1 = t\<lparr>tr_command := req_command r, tr_request_id := Some (req_id r)\<rparr>;
          st1 = st\<lparr>st_env := if uses_clock r then k2 else k1, st_keys := s'\<rparr> in
      case res of
        Inl e \<Rightarrow> (Inl e, t1, st1)
      | Inr sr \<Rightarrow>
          let t2 = t1\<lparr>tr_status := resp_code (sr_response sr), tr_note := sr_note sr\<rparr> in
          (case encode_response_frame (sr_response sr) of
             Inl e \<Rightarrow> (Inl e, t2, st1)
           | Inr frame \<Rightarrow> in_env (write_all (pf_ssl pf) ssl frame) (t2, st1)))"
proof -
  obtain p where p: "klv_decode bytes = Inr p" "codec_decode_request p = Inr r"
    using assms(1) by (auto simp: decode_request_frame_def bindE_eq_Inr)
  let ?h = "\<lambda>now. handle_request (srv_service srv) now r bytes \<lparr>ctx_peer = Some peer, ctx_received_at = received\<rparr>"
  let ?k = "if uses_clock r then k2 else k1"
  have h: "?h (if uses_clock r then now else received) = ?h now"
    by (cases "uses_clock r") (simp_all add: handle_request_clock [of r _ received _ _ now])
  have "?h now (st_keys (st\<lparr>st_env := ?k\<rparr>)) = (res, s')" using assms(4) by simp
  note step = bindO_in_keys [of "?h now" "st\<lparr>st_env := ?k\<rparr>" res s', OF this]
  note run = serve_request_def p bindO_read_clock bindO_service_clock Let_def
    encode_response_frame_def bindO_liftO_case
  show ?thesis
  proof (cases "uses_clock r")
    case True
    then show ?thesis
      using assms(2,3) by (simp add: run step [simplified True if_True] split: sum.splits)
  next
    case False
    then show ?thesis
      using assms(2,3) h by (simp add: run step [simplified False if_False] split: sum.splits)
  qed
qed

lemma rejected_frame:
  assumes "length bytes \<le> 4096"
  shows "\<exists>frame. encode_response_frame (rejected bytes) = Inr frame"
  using encode_response_frame_total [of "rejected bytes"] assms
  by (auto simp: response_value_def response_prefix_def)

lemma serve_failure_frame:
  assumes "encode_response_frame (rejected bytes) = Inr frame"
  shows "serve_failure pf ssl bytes ex (t, st) =
     in_env (write_all (pf_ssl pf) ssl frame) (t\<lparr>tr_status := invalid, tr_note := what ex\<rparr>, st)"
  using assms
  by (simp add: serve_failure_def handle_decode_failure_def rejected_def encode_response_frame_def Let_def)

text \<open>What the write of a frame does to the state: only the environment moves.\<close>

lemma write_frame:
  assumes "ssl_writes (pf_ssl pf) sent" and "writes_succeed (pf_ssl pf)"
  shows "\<exists>k'. in_env (write_all (pf_ssl pf) ssl frame) (t, st) = (Inr (), t, st\<lparr>st_env := k'\<rparr>) \<and>
     sent ssl k' = sent ssl (st_env st) @ frame"
proof -
  obtain k' where "write_all (pf_ssl pf) ssl frame (st_env st) = (Inr (), k')"
    and "sent ssl k' = sent ssl (st_env st) @ frame"
    using write_all_succeeds [OF assms] by blast
  then show ?thesis by (intro exI [of _ k']) (simp add: in_env_apply)
qed

lemma in_env_keys: "in_env m (a, b) = (x, c, d) \<Longrightarrow> st_keys d = st_keys b"
  by (auto simp: in_env_apply split: prod.splits)

lemma serve_failure_keys: "serve_failure pf ssl bytes ex (a, b) = (x, c, d) \<Longrightarrow> st_keys d = st_keys b"
  by (auto simp: serve_failure_def Let_def bindO_liftO_case dest: in_env_keys split: sum.splits)

text \<open>Steps of a session that leave the keys alone, and how they compose.\<close>

abbreviation quiet :: "('s, 'k, 'a) session_op \<Rightarrow> bool" where
  "quiet m \<equiv> keeps (\<lambda>s. st_keys (snd s)) m"

lemma keeps_in_env: "(\<And>t st r k. m (st_env st) = (r, k) \<Longrightarrow> f (t, st\<lparr>st_env := k\<rparr>) = f (t, st)) \<Longrightarrow> keeps f (in_env m)"
  by (auto simp: keeps_def in_env_apply split: prod.splits)

lemma keeps_in_keys: "(\<And>t st s. f (t, st\<lparr>st_keys := s\<rparr>) = f (t, st)) \<Longrightarrow> keeps f (in_keys m)"
  by (auto simp: keeps_def in_keys_def split: prod.splits)

lemma keeps_set_trace [keeps_rules]: "keeps (\<lambda>s. f (snd s)) (set_trace g)"
  by (simp add: keeps_def)

lemma keeps_catchO [keeps_rules]:
  assumes "keeps f m" and "\<And>e. keeps f (h e)"
  shows "keeps f (catchO m h)"
proof (rule keepsI)
  fix s r s' assume run: "catchO m h s = (r, s')"
  obtain x s1 where m: "m s = (x, s1)" by (cases "m s")
  from run keepsD [OF assms(1) m] show "f s' = f s"
    by (auto simp: catchO_def m split: sum.splits dest: keepsD [OF assms(2)])
qed

lemma quiet_in_env: "quiet (in_env m)"
  by (rule keeps_in_env) simp

lemma keeps_notify:
  fixes f :: "('s, 'k) server_state \<Rightarrow> 'x"
  assumes "\<And>st k traces. f (st\<lparr>st_env := k, st_traces := traces\<rparr>) = f st"
  shows "keeps f (notify observer trace)"
proof (rule keepsI)
  fix st st' :: "('s, 'k) server_state" and r assume run: "notify observer trace st = (r, st')"
  show "f st' = f st"
  proof (cases observer)
    case None
    with run show ?thesis by (simp add: notify_def)
  next
    case (Some g)
    obtain x k where "g trace (st_env st) = (x, k)" by (cases "g trace (st_env st)")
    with run Some have "st' = st\<lparr>st_env := k, st_traces := st_traces st @ [trace]\<rparr>" by (simp add: notify_def)
    then show ?thesis using assms by simp
  qed
qed

lemma notify_keys: "notify observer trace st = (r, st') \<Longrightarrow> st_keys st' = st_keys st"
  by (erule keepsD [OF keeps_notify, rotated]) simp

lemma close_socket_simps [simp]:
  "st_keys (close_socket pf sock st) = st_keys st" "st_openssl (close_socket pf sock st) = st_openssl st"
  "st_traces (close_socket pf sock st) = st_traces st"
  "st_env (close_socket pf sock st) = snd (socket_close (pf_posix pf) sock (st_env st))"
  by (simp_all add: close_socket_def)

lemma free_context_simps [simp]:
  "st_keys (free_context ctx st) = st_keys st" "st_env (free_context ctx st) = st_env st"
  "st_traces (free_context ctx st) = st_traces st"
  "st_openssl (free_context ctx st) = ssl_ctx_deleter (Some ctx) (st_openssl st)"
  by (simp_all add: free_context_def)

lemma bindO_quiet:
  assumes "st_keys st1 = st_keys st" and "quiet m"
    and "\<And>e t1 st1. st_keys st1 = st_keys st \<Longrightarrow> P (Inl e, t1, st1)"
    and "\<And>x t1 st1. st_keys st1 = st_keys st \<Longrightarrow> P (f x (t1, st1))"
  shows "P (bindO m f (t, st1))"
proof -
  obtain r t2 st2 where m: "m (t, st1) = (r, t2, st2)" by (metis prod.exhaust)
  have "st_keys st2 = st_keys st"
    using assms(1) keepsD [OF assms(2) m] by simp
  with assms(3,4) show ?thesis by (simp add: bindO_def m split: sum.splits)
qed

section \<open>What a session may answer\<close>

text \<open>
  The response to the bytes of one message, over the abstract service: an answer \<open>serves\<close> allows
  for the request they carry, or BadRequest with a copy of them and the keys untouched. The latter
  only for bytes that carry no request, a malformed payload, or an answer too long for a frame.
\<close>

definition replies :: "world \<Rightarrow> keys \<Rightarrow> byte_buffer \<Rightarrow> standard_response \<Rightarrow> keys \<Rightarrow> bool" where
  "replies w m bytes resp m' \<longleftrightarrow>
     (\<exists>r. decode_request_frame bytes = Inr r \<and> serves w m r bytes resp m') \<or>
     resp = rejected bytes \<and> m' = m \<and>
       (\<forall>r. decode_request_frame bytes = Inr r \<longrightarrow>
          malformed r \<or> (\<exists>big. serves w m r bytes big m \<and> 2 ^ 24 \<le> length (response_value big)))"

text \<open>How the keys may change in a session: not at all, or as one reply says.\<close>

definition keys_step :: "keys \<Rightarrow> keys \<Rightarrow> bool" where
  "keys_step m m' \<longleftrightarrow> m' = m \<or> (\<exists>w bytes resp. replies w m bytes resp m')"

text \<open>An answer too long for a frame never changes the keys.\<close>

lemma serves_big:
  "serves w m r raw resp m' \<Longrightarrow> 2 ^ 24 \<le> length (response_value resp) \<Longrightarrow> m' = m"
  by (erule serves.cases)
    (simp_all add: response_value_def response_prefix_def encode_load_response_def
      encode_purge_id_response_def)

text \<open>The clock, and whatever the environment does between a read and a write, sends nothing.\<close>

definition clock_silent :: "('k, 'c) platform \<Rightarrow> (ssl \<Rightarrow> 'k \<Rightarrow> byte_buffer) \<Rightarrow> bool" where
  "clock_silent pf sent \<longleftrightarrow> (\<forall>ssl k. sent ssl (snd (pf_now pf k)) = sent ssl k)"

definition clock_reads :: "('k, 'c) platform \<Rightarrow> 'k \<Rightarrow> 'k \<Rightarrow> bool" where
  "clock_reads pf k k' \<longleftrightarrow>
     k' = k \<or> k' = snd (pf_now pf k) \<or> k' = snd (pf_now pf (snd (pf_now pf k)))"

lemma clock_reads_silent: "clock_reads pf k k' \<Longrightarrow> clock_silent pf sent \<Longrightarrow> sent ssl k' = sent ssl k"
  by (auto simp: clock_reads_def clock_silent_def)

definition session_now :: "('k, 'c) platform \<Rightarrow> 'k \<Rightarrow> int" where
  "session_now pf k = fst (pf_now pf (snd (pf_now pf k)))"

locale server_contract =
  service_contract "srv_service srv" held ok events
  for srv :: "'s tls_server" and held :: "'s \<Rightarrow> keys" and ok :: "'s \<Rightarrow> bool" and events :: "event_record list"
begin

abbreviation world_at :: "int \<Rightarrow> world" where
  "world_at now \<equiv> world_of (srv_service srv) events now"

text \<open>
  The two ways the \<^verbatim>\<open>try\<close> block gets on: it throws with nothing written and the keys
  untouched, or it comes to write an answer.
\<close>

lemma serve_request_cases:
  assumes ok: "ok (st_keys st)"
  obtains (throws) ex t' s' k' where
      "serve_request pf srv ssl peer bytes (t, st) = (Inl ex, t', st\<lparr>st_env := k', st_keys := s'\<rparr>)"
      "ok s'" "held s' = held (st_keys st)"
      "clock_reads pf (st_env st) k'"
      "replies (world_at (session_now pf (st_env st))) (held (st_keys st)) bytes (rejected bytes) (held s')"
    | (answers) resp frame t' s' k' where
      "serve_request pf srv ssl peer bytes (t, st) =
         in_env (write_all (pf_ssl pf) ssl frame) (t', st\<lparr>st_env := k', st_keys := s'\<rparr>)"
      "ok s'" "tr_status t' = resp_code resp"
      "clock_reads pf (st_env st) k'"
      "decode_response_frame frame = Inr resp"
      "replies (world_at (session_now pf (st_env st))) (held (st_keys st)) bytes resp (held s')"
proof (cases "decode_request_frame bytes")
  case (Inl e)
  show ?thesis
    by (rule throws [of e t "st_keys st" "st_env st"])
      (simp_all add: serve_request_undecodable [OF Inl] ok replies_def Inl clock_reads_def)
next
  case (Inr r)
  obtain received k1 where c1: "pf_now pf (st_env st) = (received, k1)" by (cases "pf_now pf (st_env st)")
  obtain now k2 where c2: "pf_now pf k1 = (now, k2)" by (cases "pf_now pf k1")
  let ?ctx = "\<lparr>ctx_peer = Some peer, ctx_received_at = received\<rparr>"
  obtain res s' where h: "handle_request (srv_service srv) now r bytes ?ctx (st_keys st) = (res, s')"
    by (cases "handle_request (srv_service srv) now r bytes ?ctx (st_keys st)")
  have now: "session_now pf (st_env st) = now" by (simp add: session_now_def c1 c2)
  have silent: "clock_reads pf (st_env st) (if uses_clock r then k2 else k1)" by (simp add: clock_reads_def c1 c2)
  note eq = serve_request_decoded [OF Inr c1 c2 h, of ssl t]
  have out: "outcome held ok (world_at now) (st_keys st) r bytes (res, s')"
    using handle_request_outcome [OF ok, of now r bytes ?ctx] h by simp
  show ?thesis
  proof (cases res)
    case (Inl e)
    with out have "malformed r" "s' = st_keys st" "ok s'" by (auto simp: outcome_def)
    note bad = this
    show ?thesis
      by (rule throws [OF _ bad(3) _ silent]) (use bad eq Inl Inr now in \<open>simp_all add: Let_def replies_def\<close>)
  next
    case res: (Inr sr)
    with out have sv: "serves (world_at now) (held (st_keys st)) r bytes (sr_response sr) (held s')"
      and ok': "ok s'" by (auto simp: outcome_def)
    note wf = serves_response_wf [OF sv]
    show ?thesis
    proof (cases "length (response_value (sr_response sr)) < 2 ^ 24")
      case True
      then obtain frame where f: "encode_response_frame (sr_response sr) = Inr frame"
        using encode_response_frame_total [OF wf] by blast
      then have "decode_response_frame frame = Inr (sr_response sr)"
        by (simp add: response_frame_iff [OF wf])
      then show ?thesis
        using sv now Inr
        by (intro answers [OF _ ok' _ silent, where resp = "sr_response sr" and frame = frame
            and t' = "t\<lparr>tr_command := req_command r, tr_request_id := Some (req_id r),
              tr_status := resp_code (sr_response sr), tr_note := sr_note sr\<rparr>"])
          (simp_all add: eq res f Let_def replies_def)
    next
      case False
      then have big: "2 ^ 24 \<le> length (response_value (sr_response sr))" by simp
      have same: "held s' = held (st_keys st)" by (rule serves_big [OF sv big])
      obtain m where "encode_response_frame (sr_response sr) = Inl (AsmError m)"
        using encode_response_frame_oversized [OF wf big] by blast
      moreover have "replies (world_at now) (held (st_keys st)) bytes (rejected bytes) (held s')"
        using sv big same by (auto simp: replies_def Inr)
      ultimately show ?thesis
        using now same by (intro throws [OF _ ok' _ silent]) (simp_all add: eq res Let_def)
    qed
  qed
qed

text \<open>
  Every message is answered by exactly one frame, and the answer is one the abstract service allows,
  whenever the connection takes what is written.
\<close>

lemma answer_request_replies:
  assumes ok: "ok (st_keys st)" and len: "length bytes \<le> 4096"
    and w: "ssl_writes (pf_ssl pf) sent" "writes_succeed (pf_ssl pf)" "clock_silent pf sent"
  shows "\<exists>t' st' frame resp. answer_request pf srv ssl peer bytes (t, st) = (Inr (), t', st') \<and>
     ok (st_keys st') \<and> st_traces st' = st_traces st \<and>
     sent ssl (st_env st') = sent ssl (st_env st) @ frame \<and>
     decode_response_frame frame = Inr resp \<and> tr_status t' = resp_code resp \<and>
     replies (world_at (session_now pf (st_env st))) (held (st_keys st)) bytes resp (held (st_keys st'))"
proof (rule serve_request_cases [OF ok, of pf ssl peer bytes t])
  fix resp frame t' s' k'
  assume eq: "serve_request pf srv ssl peer bytes (t, st) =
         in_env (write_all (pf_ssl pf) ssl frame) (t', st\<lparr>st_env := k', st_keys := s'\<rparr>)"
    and rest: "ok s'" "tr_status t' = resp_code resp" "clock_reads pf (st_env st) k'"
      "decode_response_frame frame = Inr resp"
      "replies (world_at (session_now pf (st_env st))) (held (st_keys st)) bytes resp (held s')"
  obtain k2 where k2: "in_env (write_all (pf_ssl pf) ssl frame) (t', st\<lparr>st_env := k', st_keys := s'\<rparr>)
      = (Inr (), t', st\<lparr>st_env := k', st_keys := s'\<rparr>\<lparr>st_env := k2\<rparr>)"
    "sent ssl k2 = sent ssl k' @ frame"
    using write_frame [OF w(1,2), of ssl frame t' "st\<lparr>st_env := k', st_keys := s'\<rparr>"] by auto
  have "answer_request pf srv ssl peer bytes (t, st) =
      (Inr (), t', st\<lparr>st_env := k', st_keys := s'\<rparr>\<lparr>st_env := k2\<rparr>)"
    by (simp add: answer_request_def catchO_def eq k2)
  then show ?thesis
    using rest k2(2) clock_reads_silent [OF rest(3) w(3), of ssl]
    by (intro exI [of _ t'] exI [of _ "st\<lparr>st_env := k', st_keys := s'\<rparr>\<lparr>st_env := k2\<rparr>"]
        exI [of _ frame] exI [of _ resp]) simp
next
  fix ex t' s' k'
  assume eq: "serve_request pf srv ssl peer bytes (t, st) = (Inl ex, t', st\<lparr>st_env := k', st_keys := s'\<rparr>)"
    and rest: "ok s'" "held s' = held (st_keys st)" "clock_reads pf (st_env st) k'"
      "replies (world_at (session_now pf (st_env st))) (held (st_keys st)) bytes (rejected bytes) (held s')"
  obtain frame where f: "encode_response_frame (rejected bytes) = Inr frame"
    using rejected_frame [OF len] by blast
  let ?t = "t'\<lparr>tr_status := invalid, tr_note := what ex\<rparr>"
  obtain k2 where k2: "in_env (write_all (pf_ssl pf) ssl frame) (?t, st\<lparr>st_env := k', st_keys := s'\<rparr>)
      = (Inr (), ?t, st\<lparr>st_env := k', st_keys := s'\<rparr>\<lparr>st_env := k2\<rparr>)"
    "sent ssl k2 = sent ssl k' @ frame"
    using write_frame [OF w(1,2), of ssl frame ?t "st\<lparr>st_env := k', st_keys := s'\<rparr>"] by auto
  have "answer_request pf srv ssl peer bytes (t, st) =
      (Inr (), ?t, st\<lparr>st_env := k', st_keys := s'\<rparr>\<lparr>st_env := k2\<rparr>)"
    by (simp add: answer_request_def catchO_def eq serve_failure_frame [OF f] k2)
  moreover have "decode_response_frame frame = Inr (rejected bytes)"
    using f by (simp add: response_frame_iff)
  ultimately show ?thesis
    using rest k2(2) clock_reads_silent [OF rest(3) w(3), of ssl]
    by (intro exI [of _ ?t] exI [of _ "st\<lparr>st_env := k', st_keys := s'\<rparr>\<lparr>st_env := k2\<rparr>"]
        exI [of _ frame] exI [of _ "rejected bytes"]) simp
qed

text \<open>
  Whatever the connection does, a session keeps the store's invariant, and its keys change as one
  answer of the abstract service says, or not at all.
\<close>

lemma answer_request_keeps:
  assumes ok: "ok (st_keys st)" and "answer_request pf srv ssl peer bytes (t, st) = (r, t', st')"
  shows "ok (st_keys st') \<and> keys_step (held (st_keys st)) (held (st_keys st'))"
proof -
  show ?thesis
  proof (rule serve_request_cases [OF ok, of pf ssl peer bytes t])
    fix ex t1 s' k'
    assume "serve_request pf srv ssl peer bytes (t, st) = (Inl ex, t1, st\<lparr>st_env := k', st_keys := s'\<rparr>)"
      and "ok s'" and "held s' = held (st_keys st)"
    then show ?thesis
      using assms(2) serve_failure_keys by (fastforce simp: answer_request_def catchO_def keys_step_def)
  next
    fix resp frame t1 s' k'
    assume eq: "serve_request pf srv ssl peer bytes (t, st) =
         in_env (write_all (pf_ssl pf) ssl frame) (t1, st\<lparr>st_env := k', st_keys := s'\<rparr>)"
      and s': "ok s'" "replies (world_at (session_now pf (st_env st))) (held (st_keys st)) bytes resp (held s')"
    have "st_keys st' = s'"
      using assms(2) eq
      by (auto simp: answer_request_def catchO_def in_env_apply split: prod.splits sum.splits dest!: serve_failure_keys)
    with s' show ?thesis by (auto simp: keys_step_def)
  qed
qed

lemma serve_session_keeps:
  fixes st :: "('s, 'k) server_state"
  assumes ok: "ok (st_keys st)" and "serve_session pf srv observer ssl (t, st) = (r, t', st')"
  shows "ok (st_keys st') \<and> keys_step (held (st_keys st)) (held (st_keys st'))"
proof -
  define P where "P = (\<lambda>(r :: unit result, t' :: session_trace, st' :: ('s, 'k) server_state).
    ok (st_keys st') \<and> keys_step (held (st_keys st)) (held (st_keys st')))"
  have same: "st_keys st1 = st_keys st \<Longrightarrow> P (x, t1, st1)" for x t1 st1
    using ok by (simp add: P_def keys_step_def)
  have answer: "P (bindO (answer_request pf srv ssl peer bytes)
      (\<lambda>_. \<lambda>(trace, st). case notify observer trace st of (r, st') \<Rightarrow> (r, trace, st')) (t1, st1))"
    if "st_keys st1 = st_keys st" for peer bytes t1 st1
  proof -
    obtain x t2 st2 where e: "answer_request pf srv ssl peer bytes (t1, st1) = (x, t2, st2)"
      by (metis prod.exhaust)
    show ?thesis
      using answer_request_keeps [OF _ e] that ok
      by (auto simp: P_def bindO_def e dest: notify_keys split: sum.splits prod.splits)
  qed
  have "P (serve_session pf srv observer ssl (t, st))"
    unfolding serve_session_def
    by (rule bindO_quiet [where P = P and st = st, OF refl quiet_in_env same],
        assumption, (rule bindO_quiet [where P = P and st = st],
          assumption, rule quiet_in_env keeps_rules, erule same)+,
        erule answer)
  then show ?thesis using assms(2) by (simp add: P_def)
qed

lemma serve_connection_keeps:
  assumes ok: "ok (st_keys st)" and "serve_connection pf srv observer ctx fd st = (r, st')"
  shows "ok (st_keys st') \<and> keys_step (held (st_keys st)) (held (st_keys st'))"
proof -
  have session: "ok (st_keys st1) \<and> keys_step (held (st_keys st)) (held (st_keys st1))"
    if "serve_session pf srv observer ssl (t, st\<lparr>st_env := k\<rparr>) = (x, t1, st1)" for ssl t k x t1 st1
    using serve_session_keeps [OF _ that] ok by simp
  obtain h k1 where new: "SSL_new (pf_ssl pf) ctx (st_env st) = (h, k1)"
    by (cases "SSL_new (pf_ssl pf) ctx (st_env st)")
  show ?thesis
  proof (cases h)
    case None
    with new assms(2) ok show ?thesis by (auto simp: serve_connection_def keys_step_def)
  next
    case (Some ssl)
    obtain x t1 st1 where e: "serve_session pf srv observer ssl
        (session_trace_default, st\<lparr>st_env := SSL_set_fd (pf_ssl pf) ssl fd k1\<rparr>) = (x, t1, st1)"
      by (metis prod.exhaust)
    have "st_keys st' = st_keys st1"
      using assms(2) by (auto simp: serve_connection_def new Some Let_def e)
    with session [OF e] show ?thesis by simp
  qed
qed

lemma serve_client_keeps:
  assumes ok: "ok (st_keys st)" and "serve_client pf srv observer fd st = (r, st')"
  shows "ok (st_keys st') \<and> keys_step (held (st_keys st)) (held (st_keys st'))"
proof -
  obtain c ossl where c: "create_server (pf_x509 pf) (pf_ctx pf) (srv_config srv) (st_openssl st) = (c, ossl)"
    by (cases "create_server (pf_x509 pf) (pf_ctx pf) (srv_config srv) (st_openssl st)")
  show ?thesis
  proof (cases c)
    case (Inl e)
    with assms c show ?thesis by (auto simp: serve_client_def keys_step_def)
  next
    case (Inr ctx)
    obtain x st1 where e: "serve_connection pf srv observer ctx fd (st\<lparr>st_openssl := ossl\<rparr>) = (x, st1)"
      by (cases "serve_connection pf srv observer ctx fd (st\<lparr>st_openssl := ossl\<rparr>)")
    have "st_keys st' = st_keys st1" using assms(2) by (auto simp: serve_client_def c Inr e)
    with serve_connection_keeps [OF _ e] ok show ?thesis by simp
  qed
qed

lemma handle_client_keeps:
  assumes ok: "ok (st_keys st)" and "handle_client pf srv observer sock st = (r, st')"
  shows "ok (st_keys st') \<and> keys_step (held (st_keys st)) (held (st_keys st'))"
proof -
  obtain x st1 where c: "serve_client pf srv observer (sock_fd sock) st = (x, st1)"
    by (cases "serve_client pf srv observer (sock_fd sock) st")
  have "st_keys st' = st_keys st1"
    using assms(2) by (auto simp: handle_client_def c dest: notify_keys split: sum.splits prod.splits)
  with serve_client_keeps [OF ok c] show ?thesis by simp
qed

lemma run_round_keeps:
  assumes ok: "ok (st_keys st)" and "run_round pf srv observer sock st = (r, st')"
  shows "ok (st_keys st') \<and> keys_step (held (st_keys st)) (held (st_keys st'))"
proof -
  have same: "ok (st_keys st) \<and> keys_step (held (st_keys st)) (held (st_keys st))"
    using ok by (simp add: keys_step_def)
  have client: "ok (st_keys st1) \<and> keys_step (held (st_keys st)) (held (st_keys st1))"
    if "handle_client pf srv obs c (st\<lparr>st_env := k\<rparr>) = (x, st1)" for obs c k x st1
    using handle_client_keeps [OF _ that] ok by simp
  show ?thesis
    using assms(2) same
    by (auto simp: run_round_def Let_def split: prod.splits if_splits sum.splits dest!: client)
qed

end

section \<open>The loop as iterated rounds\<close>

primrec rounds ::
    "('k, 'c) platform \<Rightarrow> 's tls_server \<Rightarrow> 'k session_observer option \<Rightarrow> socket \<Rightarrow> nat \<Rightarrow> ('s, 'k) server_state
       \<Rightarrow> unit result option \<times> ('s, 'k) server_state" where
  "rounds pf srv observer sock 0 st = (None, st)"
| "rounds pf srv observer sock (Suc n) st =
     (case run_round pf srv observer sock st of
        (Some r, st') \<Rightarrow> (Some r, st')
      | (None, st') \<Rightarrow> rounds pf srv observer sock n st')"

lemma rounds_run_loop:
  "rounds pf srv observer sock n st = (Some r, st') \<Longrightarrow> run_loop pf srv observer sock st = Some (r, st')"
proof (induction n arbitrary: st)
  case 0
  then show ?case by simp
next
  case (Suc n)
  then show ?case
    by (subst run_loop.simps) (auto split: prod.splits option.splits)
qed

lemma run_loop_rounds:
  fixes pf :: "('k, 'c) platform" and srv :: "'s tls_server"
  assumes "run_loop pf srv observer sock st = Some x"
  shows "\<exists>n. rounds pf srv observer sock n st = (Some (fst x), snd x)"
proof (rule run_loop.raw_induct [where P = "\<lambda>pf srv observer sock st x.
    \<exists>n. rounds pf srv observer sock n st = (Some (fst x), snd x)", OF _ assms])
  fix f :: "('k, 'c) platform \<Rightarrow> 's tls_server \<Rightarrow> 'k session_observer option \<Rightarrow> socket \<Rightarrow> ('s, 'k) server_state
      \<Rightarrow> (unit result \<times> ('s, 'k) server_state) option"
    and pf srv observer sock st x
  assume IH: "\<And>pf srv observer sock st x. f pf srv observer sock st = Some x \<Longrightarrow>
      \<exists>n. rounds pf srv observer sock n st = (Some (fst x), snd x)"
    and step: "(case run_round pf srv observer sock st of
        (None, st') \<Rightarrow> f pf srv observer sock st' | (Some r, st') \<Rightarrow> Some (r, st')) = Some x"
  show "\<exists>n. rounds pf srv observer sock n st = (Some (fst x), snd x)"
  proof (cases "run_round pf srv observer sock st")
    case (Pair r st')
    show ?thesis
    proof (cases r)
      case None
      with Pair step have "f pf srv observer sock st' = Some x" by simp
      then obtain n where "rounds pf srv observer sock n st' = (Some (fst x), snd x)" using IH by blast
      with Pair None show ?thesis by (intro exI [of _ "Suc n"]) simp
    next
      case (Some y)
      with Pair step have "x = (y, st')" by simp
      with Pair Some show ?thesis by (intro exI [of _ 1]) simp
    qed
  qed
qed

lemma run_loop_iff_rounds:
  "run_loop pf srv observer sock st = Some (r, st') \<longleftrightarrow>
     (\<exists>n. rounds pf srv observer sock n st = (Some r, st'))"
  using rounds_run_loop run_loop_rounds by fastforce

lemma run_loop_None_iff:
  "run_loop pf srv observer sock st = None \<longleftrightarrow> (\<forall>n. fst (rounds pf srv observer sock n st) = None)"
proof
  assume none: "run_loop pf srv observer sock st = None"
  show "\<forall>n. fst (rounds pf srv observer sock n st) = None"
  proof
    fix n
    obtain x st' where r: "rounds pf srv observer sock n st = (x, st')" by (metis prod.exhaust)
    with none rounds_run_loop [of pf srv observer sock n st] show "fst (rounds pf srv observer sock n st) = None"
      by (cases x) auto
  qed
next
  assume all: "\<forall>n. fst (rounds pf srv observer sock n st) = None"
  show "run_loop pf srv observer sock st = None"
  proof (rule ccontr)
    assume "run_loop pf srv observer sock st \<noteq> None"
    then obtain y where "run_loop pf srv observer sock st = Some y" by blast
    from run_loop_rounds [OF this] all show False by (metis fst_conv option.distinct(1))
  qed
qed

text \<open>
  What can end the loop: the stop flag, a failure of \<^verbatim>\<open>select\<close> or \<^verbatim>\<open>accept\<close>, or
  an observer that throws when a failed session is reported to it.
\<close>

definition loop_exit :: "'k session_observer option \<Rightarrow> unit result \<Rightarrow> bool" where
  "loop_exit observer r \<longleftrightarrow> r = Inr () \<or> r = Inl (AsmError ''select failed'') \<or>
     (\<exists>m. r = Inl (AsmError (''accept failed: '' @ m))) \<or>
     (\<exists>f trace k. observer = Some f \<and> isl r \<and> fst (f trace k) = r)"

lemma notify_throws: "notify observer trace st = (Inl e, st') \<Longrightarrow> \<exists>f. observer = Some f \<and> fst (f trace (st_env st)) = Inl e"
  by (auto simp: notify_def split: option.splits prod.splits)

lemma handle_client_leaves:
  assumes "handle_client pf srv observer sock st = (Some r, st')"
  shows "loop_exit observer r"
  using assms
  by (auto simp: handle_client_def loop_exit_def split: sum.splits prod.splits dest!: notify_throws)

lemma run_round_leaves:
  assumes "run_round pf srv observer sock st = (Some r, st')"
  shows "loop_exit observer r"
  using assms
  by (auto simp: run_round_def Let_def socket_accept_def loop_exit_def [of observer "Inr ()"]
      loop_exit_def [of observer "Inl (AsmError m)" for m]
      split: prod.splits if_splits sum.splits dest: handle_client_leaves)

lemma rounds_leaves: "rounds pf srv observer sock n st = (Some r, st') \<Longrightarrow> loop_exit observer r"
  by (induction n arbitrary: st) (auto split: prod.splits option.splits dest!: run_round_leaves)

lemma run_round_stops:
  "pf_stop pf (st_env st) = (True, k) \<Longrightarrow> run_round pf srv observer sock st = (Some (Inr ()), st\<lparr>st_env := k\<rparr>)"
  by (simp add: run_round_def)

lemma rounds_append:
  "rounds pf srv observer sock n st = (None, st1) \<Longrightarrow>
     rounds pf srv observer sock (n + m) st = rounds pf srv observer sock m st1"
  by (induction n arbitrary: st) (auto split: prod.splits option.splits)

lemma run_loop_stops:
  assumes "rounds pf srv observer sock n st = (None, st1)" and "pf_stop pf (st_env st1) = (True, k)"
  shows "run_loop pf srv observer sock st = Some (Inr (), st1\<lparr>st_env := k\<rparr>)"
proof (rule rounds_run_loop)
  show "rounds pf srv observer sock (n + 1) st = (Some (Inr ()), st1\<lparr>st_env := k\<rparr>)"
    using rounds_append [OF assms(1), of 1] run_round_stops [OF assms(2), of srv observer sock] by simp
qed

context server_contract
begin

lemma rounds_keeps:
  "ok (st_keys st) \<Longrightarrow> rounds pf srv observer sock n st = (r, st') \<Longrightarrow>
     ok (st_keys st') \<and> keys_step\<^sup>*\<^sup>* (held (st_keys st)) (held (st_keys st'))"
proof (induction n arbitrary: st)
  case 0
  then show ?case by simp
next
  case (Suc n)
  obtain x st1 where round: "run_round pf srv observer sock st = (x, st1)" by (metis prod.exhaust)
  have one: "ok (st_keys st1)" "keys_step (held (st_keys st)) (held (st_keys st1))"
    using run_round_keeps [OF Suc.prems(1) round] by auto
  show ?case
  proof (cases x)
    case None
    then have "ok (st_keys st') \<and> keys_step\<^sup>*\<^sup>* (held (st_keys st1)) (held (st_keys st'))"
      using Suc.IH [OF one(1)] Suc.prems(2) round by simp
    with one(2) show ?thesis by (meson converse_rtranclp_into_rtranclp)
  next
    case (Some y)
    with Suc.prems(2) round one show ?thesis by auto
  qed
qed

lemma server_listen_keeps:
  assumes "ok (st_keys st)" and "server_listen pf srv observer st = Some (r, st')"
  shows "ok (st_keys st') \<and> keys_step\<^sup>*\<^sup>* (held (st_keys st)) (held (st_keys st'))"
proof -
  have same: "ok (st_keys st) \<and> keys_step\<^sup>*\<^sup>* (held (st_keys st)) (held (st_keys st))"
    using assms(1) by simp
  have loop: "ok (st_keys st1) \<and> keys_step\<^sup>*\<^sup>* (held (st_keys st)) (held (st_keys st1))"
    if "run_loop pf srv observer sock (st\<lparr>st_env := k\<rparr>) = Some (x, st1)" for sock k x st1
  proof -
    from run_loop_rounds [OF that]
    obtain n where "rounds pf srv observer sock n (st\<lparr>st_env := k\<rparr>) = (Some x, st1)" by auto
    from rounds_keeps [OF _ this] assms(1) show ?thesis by simp
  qed
  show ?thesis
    using assms(2) same
    by (auto simp: server_listen_def Let_def split: sum.splits prod.splits dest!: loop)
qed

lemma server_run_keeps:
  assumes "ok (st_keys st)" and "server_run pf srv observer st = Some (r, st')"
  shows "ok (st_keys st') \<and> keys_step\<^sup>*\<^sup>* (held (st_keys st)) (held (st_keys st'))"
proof -
  obtain c ossl where c: "create_server (pf_x509 pf) (pf_ctx pf) (srv_config srv) (st_openssl st) = (c, ossl)"
    by (cases "create_server (pf_x509 pf) (pf_ctx pf) (srv_config srv) (st_openssl st)")
  show ?thesis
  proof (cases c)
    case (Inl e)
    with assms c show ?thesis by (auto simp: server_run_def)
  next
    case (Inr ctx)
    then obtain st1 where l: "server_listen pf srv observer (st\<lparr>st_openssl := ossl\<rparr>) = Some (r, st1)"
      and "st' = free_context ctx st1"
      using assms(2) c by (auto simp: server_run_def)
    with server_listen_keeps [OF _ l] assms(1) show ?thesis by simp
  qed
qed

end

end
