(* ===== verification/Tls_Client.thy ===== *)
theory Tls_Client
  imports Tls_Server
begin

text \<open>
  The initiator's client: \<^verbatim>\<open>include/transport/tls_client.hpp\<close> and
  \<^verbatim>\<open>src/transport/tls_client.cpp\<close>. One request goes out in one frame, one read brings the
  response. The context, the socket and the \<^verbatim>\<open>SSL\<close> object are released on every way out.
\<close>

section \<open>The client's own helpers\<close>

text \<open>
  \<^verbatim>\<open>tls_client.cpp\<close> has its own copies of what \<open>Ssl_Io\<close> models of
  \<^verbatim>\<open>tls_server.cpp\<close>; they are translated separately and shown to be the same functions.
\<close>

definition client_ssl_deleter :: "('k, 'c) ssl_api \<Rightarrow> ssl option \<Rightarrow> 'k \<Rightarrow> 'k" where
  "client_ssl_deleter api ssl k = (case ssl of None \<Rightarrow> k | Some p \<Rightarrow> SSL_free api p k)"

definition client_expect_positive :: "('k, 'c) ssl_api \<Rightarrow> int \<Rightarrow> ssl \<Rightarrow> string \<Rightarrow> ('k, unit) op" where
  "client_expect_positive api rc ssl action k =
     (if rc > 0 then (Inr (), k)
      else let (error, k') = ERR_get_error api k; ssl_error = SSL_get_error api ssl rc k' in
        (Inl (AsmError (action @ '' failed: ssl_error='' @ int_string ssl_error
                        @ '', openssl_error='' @ dec_string (unat error))), k'))"

lemma client_expect_positive_eq: "client_expect_positive = ssl_expect_positive"
  by (intro ext) (simp add: client_expect_positive_def ssl_expect_positive_def)

function client_write_all_from :: "('k, 'c) ssl_api \<Rightarrow> ssl \<Rightarrow> byte_buffer \<Rightarrow> nat \<Rightarrow> ('k, unit) op" where
  "client_write_all_from api ssl bytes offset k =
     (if offset < length bytes
      then let (rc, k1) = SSL_write api ssl (drop offset bytes) k in
        (case client_expect_positive api rc ssl ''SSL_write'' k1 of
           (Inl e, k2) \<Rightarrow> (Inl e, k2)
         | (Inr _, k2) \<Rightarrow> client_write_all_from api ssl bytes (offset + nat rc) k2)
      else (Inr (), k))"
  by pat_completeness auto

termination
  by (relation "measure (\<lambda>(api, ssl, bytes, offset, k). length bytes - offset)")
    (auto dest!: sym [of "(Inr _, _)"] simp: expect_positive_Inr client_expect_positive_eq)

declare client_write_all_from.simps [simp del]

definition client_write_all :: "('k, 'c) ssl_api \<Rightarrow> ssl \<Rightarrow> byte_buffer \<Rightarrow> ('k, unit) op" where
  "client_write_all api ssl bytes = client_write_all_from api ssl bytes 0"

definition client_read_one_message :: "('k, 'c) ssl_api \<Rightarrow> ssl \<Rightarrow> ('k, byte_buffer) op" where
  "client_read_one_message api ssl k =
     (let ((rc, out), k1) = SSL_read api ssl (replicate 4096 0) k in
      (case client_expect_positive api rc ssl ''SSL_read'' k1 of
         (Inl e, k2) \<Rightarrow> (Inl e, k2)
       | (Inr _, k2) \<Rightarrow> (Inr (resize (nat rc) out), k2)))"

lemma client_write_all_from_eq:
  "client_write_all_from api ssl bytes offset k = write_all_from api ssl bytes offset k"
proof (induction api ssl bytes offset k rule: write_all_from.induct)
  case (1 api ssl bytes offset k)
  obtain rc k1 where w: "SSL_write api ssl (drop offset bytes) k = (rc, k1)"
    by (cases "SSL_write api ssl (drop offset bytes) k")
  obtain x k2 where e: "ssl_expect_positive api rc ssl ''SSL_write'' k1 = (x, k2)"
    by (cases "ssl_expect_positive api rc ssl ''SSL_write'' k1")
  note unfold = client_write_all_from.simps [of api ssl bytes offset k] write_all_from.simps [of api ssl bytes offset k]
  show ?case
  proof (cases "offset < length bytes")
    case False
    then show ?thesis by (simp add: unfold)
  next
    case True
    show ?thesis
    proof (cases x)
      case (Inl a)
      with True w e show ?thesis by (simp add: unfold client_expect_positive_eq)
    next
      case (Inr u)
      from 1 [OF True w [symmetric] refl e [unfolded Inr, symmetric] refl] True w e Inr
      show ?thesis by (simp add: unfold client_expect_positive_eq)
    qed
  qed
qed

lemma client_helpers:
  "client_ssl_deleter = ssl_deleter" "client_expect_positive = ssl_expect_positive"
  "client_write_all = write_all" "client_read_one_message = read_one_message"
proof -
  show "client_ssl_deleter = ssl_deleter"
    by (intro ext) (simp add: client_ssl_deleter_def ssl_deleter_def)
  show "client_expect_positive = ssl_expect_positive" by (rule client_expect_positive_eq)
  show "client_write_all = write_all"
    by (intro ext) (simp add: client_write_all_def write_all_def client_write_all_from_eq)
  show "client_read_one_message = read_one_message"
    by (intro ext) (simp only: client_read_one_message_def read_one_message_def client_expect_positive_eq)
qed

section \<open>The exchange\<close>

record client_exchange_result =
  cx_response :: standard_response
  cx_thumbprint :: string

text \<open>From the handshake to the decoded response, on a connected \<^verbatim>\<open>SSL\<close> object.\<close>

definition client_session ::
    "('k, 'c) platform \<Rightarrow> ssl \<Rightarrow> standard_request \<Rightarrow> ('k, client_exchange_result) op" where
  "client_session pf ssl request =
     bindO (\<lambda>k. case SSL_connect (pf_ssl pf) ssl k of (rc, k1) \<Rightarrow>
              client_expect_positive (pf_ssl pf) rc ssl ''SSL_connect'' k1) (\<lambda>_.
     bindO (\<lambda>k. (Inr (SSL_get1_peer_certificate (pf_ssl pf) ssl k), k)) (\<lambda>peer_cert.
     bindO (liftO (validate_certificate_profile (pf_x509 pf) peer_cert)) (\<lambda>_.
     bindO (liftO (read_peer_identity (pf_x509 pf) peer_cert)) (\<lambda>peer.
     bindO (liftO (bindE (codec_encode_request request) klv_encode)) (\<lambda>encoded.
     bindO (client_write_all (pf_ssl pf) ssl encoded) (\<lambda>_.
     bindO (client_read_one_message (pf_ssl pf) ssl) (\<lambda>response_bytes.
     bindO (liftO (klv_decode response_bytes)) (\<lambda>packet.
     bindO (liftO (codec_decode_response packet)) (\<lambda>response.
     returnO \<lparr>cx_response = response, cx_thumbprint = peer_thumbprint peer\<rparr>)))))))))"

definition client_exchange ::
    "('k, 'c) platform \<Rightarrow> 'c \<Rightarrow> socket \<Rightarrow> standard_request \<Rightarrow> ('k, client_exchange_result) op" where
  "client_exchange pf ctx socket request k =
     (case SSL_new (pf_ssl pf) ctx k of
        (None, k1) \<Rightarrow> (Inl (AsmError ''failed to allocate SSL object''), k1)
      | (Some ssl, k1) \<Rightarrow>
          (case client_session pf ssl request (SSL_set_fd (pf_ssl pf) ssl (sock_fd socket) k1) of
             (r, k2) \<Rightarrow> (r, client_ssl_deleter (pf_ssl pf) (Some ssl) k2)))"

text \<open>From the socket on; it is closed on every way out.\<close>

definition client_connect ::
    "('k, 'c) platform \<Rightarrow> 'c \<Rightarrow> string \<Rightarrow> nat \<Rightarrow> standard_request \<Rightarrow> ('k, client_exchange_result) op" where
  "client_connect pf ctx host port request k =
     (case make_tcp_socket (pf_posix pf) k of
        (Inl e, k1) \<Rightarrow> (Inl e, k1)
      | (Inr socket, k1) \<Rightarrow>
          (case bindO (socket_connect (pf_posix pf) socket host port)
                  (\<lambda>_. client_exchange pf ctx socket request) k1 of
             (r, k2) \<Rightarrow> (r, snd (socket_close (pf_posix pf) socket k2))))"

text \<open>The client's state: the environment and OpenSSL's initialisation.\<close>

record 'k client_state =
  cl_env :: 'k
  cl_openssl :: openssl_state

definition send_request ::
    "('k, 'c) platform \<Rightarrow> tls_config \<Rightarrow> string \<Rightarrow> nat \<Rightarrow> standard_request \<Rightarrow> ('k client_state, client_exchange_result) op" where
  "send_request pf config host port request st =
     (case create_client (pf_x509 pf) (pf_ctx pf) config (cl_openssl st) of
        (Inl e, ossl) \<Rightarrow> (Inl e, st\<lparr>cl_openssl := ossl\<rparr>)
      | (Inr ctx, ossl) \<Rightarrow>
          (case client_connect pf ctx host port request (cl_env st) of
             (r, k) \<Rightarrow> (r, st\<lparr>cl_env := k, cl_openssl := ssl_ctx_deleter (Some ctx) ossl\<rparr>)))"

section \<open>A completed exchange\<close>

lemma client_session_Inr:
  assumes "client_session pf ssl request k = (Inr res, k')"
  obtains encoded k1 k2 bytes where
    "encode_request_frame request = Inr encoded"
    "k1 = snd (SSL_connect (pf_ssl pf) ssl k)"
    "write_all (pf_ssl pf) ssl encoded k1 = (Inr (), k2)"
    "read_one_message (pf_ssl pf) ssl k2 = (Inr bytes, k')"
    "decode_response_frame bytes = Inr (cx_response res)"
    "\<exists>x. SSL_get1_peer_certificate (pf_ssl pf) ssl k1 = Some x \<and> profile_ok (pf_x509 pf) x"
  using assms unfolding client_session_def client_helpers
proof (elim bindO_InrE)
  fix u k1 cert k2 v k3 peer k4 encoded k5 w k6 bytes k7 packet k8 response k9
  assume hs: "(case SSL_connect (pf_ssl pf) ssl k of (rc, k1) \<Rightarrow>
        ssl_expect_positive (pf_ssl pf) rc ssl ''SSL_connect'' k1) = (Inr u, k1)"
    and "(Inr (SSL_get1_peer_certificate (pf_ssl pf) ssl k1), k1) = (Inr cert, k2)"
    and v: "liftO (validate_certificate_profile (pf_x509 pf) cert) k2 = (Inr v, k3)"
    and "liftO (read_peer_identity (pf_x509 pf) cert) k3 = (Inr peer, k4)"
    and e: "liftO (bindE (codec_encode_request request) klv_encode) k4 = (Inr encoded, k5)"
    and w: "write_all (pf_ssl pf) ssl encoded k5 = (Inr w, k6)"
    and r: "read_one_message (pf_ssl pf) ssl k6 = (Inr bytes, k7)"
    and p: "liftO (klv_decode bytes) k7 = (Inr packet, k8)"
      "liftO (codec_decode_response packet) k8 = (Inr response, k9)"
    and res: "returnO \<lparr>cx_response = response, cx_thumbprint = peer_thumbprint peer\<rparr> k9 = (Inr res, k')"
  then have "cert = SSL_get1_peer_certificate (pf_ssl pf) ssl k5" "k9 = k7" "k9 = k'" "k5 = k1" by auto
  moreover have "k1 = snd (SSL_connect (pf_ssl pf) ssl k)"
    using hs by (auto simp: ssl_expect_positive_def split: prod.splits if_splits)
  ultimately have "cert = SSL_get1_peer_certificate (pf_ssl pf) ssl k5" "k9 = k7" "k9 = k'"
    and k5: "k5 = snd (SSL_connect (pf_ssl pf) ssl k)" by simp_all
  with v have "\<exists>x. SSL_get1_peer_certificate (pf_ssl pf) ssl k5 = Some x \<and> profile_ok (pf_x509 pf) x"
    by (simp add: validate_Inr_iff)
  moreover have "encode_request_frame request = Inr encoded"
    using e by (simp add: encode_request_frame_def)
  moreover have "decode_response_frame bytes = Inr (cx_response res)"
    using p res by (auto simp: decode_response_frame_def)
  ultimately show thesis
    using that [of encoded k5 k6 bytes] w r k5 \<open>k9 = k7\<close> \<open>k9 = k'\<close> by simp
qed

text \<open>A request that returned went through one such session.\<close>

lemma send_request_Inr:
  assumes "send_request pf config host port request st = (Inr res, st')"
  obtains ssl k k' where "client_session pf ssl request k = (Inr res, k')"
proof -
  obtain c ossl where c: "create_client (pf_x509 pf) (pf_ctx pf) config (cl_openssl st) = (c, ossl)"
    by (cases "create_client (pf_x509 pf) (pf_ctx pf) config (cl_openssl st)")
  with assms obtain ctx where ctx: "c = Inr ctx" by (cases c) (auto simp: send_request_def)
  obtain r k where con: "client_connect pf ctx host port request (cl_env st) = (r, k)"
    by (cases "client_connect pf ctx host port request (cl_env st)")
  with assms c ctx have r: "r = Inr res" by (simp add: send_request_def)
  obtain m k1 where mk: "make_tcp_socket (pf_posix pf) (cl_env st) = (m, k1)"
    by (cases "make_tcp_socket (pf_posix pf) (cl_env st)")
  with con r obtain sock where sock: "m = Inr sock" by (cases m) (auto simp: client_connect_def)
  obtain y k2 where b: "bindO (socket_connect (pf_posix pf) sock host port)
      (\<lambda>_. client_exchange pf ctx sock request) k1 = (y, k2)"
    by (cases "bindO (socket_connect (pf_posix pf) sock host port) (\<lambda>_. client_exchange pf ctx sock request) k1")
  with con r mk sock have "y = Inr res" by (simp add: client_connect_def)
  with b obtain k3 where x: "client_exchange pf ctx sock request k3 = (Inr res, k2)"
    by (auto elim: bindO_InrE)
  obtain h k4 where new: "SSL_new (pf_ssl pf) ctx k3 = (h, k4)" by (cases "SSL_new (pf_ssl pf) ctx k3")
  with x obtain ssl where ssl: "h = Some ssl" by (cases h) (auto simp: client_exchange_def)
  obtain z k5 where s: "client_session pf ssl request (SSL_set_fd (pf_ssl pf) ssl (sock_fd sock) k4) = (z, k5)"
    by (metis prod.exhaust)
  with x new ssl have "z = Inr res" by (simp add: client_exchange_def)
  with s that show thesis by blast
qed

text \<open>
  What the client returns was decoded from a prefix of what the server sent, after the whole request
  went out.
\<close>

lemma client_session_exchange:
  assumes "client_session pf ssl request k = (Inr res, k')"
    and "ssl_writes (pf_ssl pf) sent" and "ssl_reads (pf_ssl pf) incoming"
  shows "\<exists>encoded k2 n. encode_request_frame request = Inr encoded \<and>
     write_all (pf_ssl pf) ssl encoded (snd (SSL_connect (pf_ssl pf) ssl k)) = (Inr (), k2) \<and>
     sent ssl k2 = sent ssl (snd (SSL_connect (pf_ssl pf) ssl k)) @ encoded \<and> n \<le> 4096 \<and>
     decode_response_frame (take n (incoming ssl k2)) = Inr (cx_response res)"
proof (rule client_session_Inr [OF assms(1)])
  fix encoded k1 k2 bytes
  assume e: "encode_request_frame request = Inr encoded"
    and k1: "k1 = snd (SSL_connect (pf_ssl pf) ssl k)"
    and w: "write_all (pf_ssl pf) ssl encoded k1 = (Inr (), k2)"
    and r: "read_one_message (pf_ssl pf) ssl k2 = (Inr bytes, k')"
    and d: "decode_response_frame bytes = Inr (cx_response res)"
  have "sent ssl k2 = sent ssl k1 @ encoded"
    using write_all_sent [OF assms(2) w] by simp
  with e d w k1 read_one_message_prefix [OF assms(3) r] show ?thesis by metis
qed

text \<open>
  When the handshake succeeds with a certificate that passes, writes go through, and the answer to the
  request is there, in one piece, once the request is out, the session ends with what the first 4096 bytes
  of that answer decode to.
\<close>

lemma client_session_reads:
  assumes hs: "SSL_connect (pf_ssl pf) ssl k = (rc, k1)" "0 < rc"
    and cert: "SSL_get1_peer_certificate (pf_ssl pf) ssl k1 = Some x" "profile_ok (pf_x509 pf) x"
      "read_peer_identity (pf_x509 pf) (Some x) = Inr peer"
    and enc: "encode_request_frame request = Inr encoded"
    and w: "ssl_writes (pf_ssl pf) sent" "writes_succeed (pf_ssl pf)"
    and r: "ssl_reads (pf_ssl pf) incoming" "reads_available (pf_ssl pf) incoming"
    and answered: "\<And>k2. write_all (pf_ssl pf) ssl encoded k1 = (Inr (), k2) \<Longrightarrow> incoming ssl k2 = frame"
    and "frame \<noteq> []"
  shows "\<exists>k'. client_session pf ssl request k =
     (mapE (\<lambda>resp. \<lparr>cx_response = resp, cx_thumbprint = peer_thumbprint peer\<rparr>)
        (decode_response_frame (take 4096 frame)), k')"
proof -
  have v: "validate_certificate_profile (pf_x509 pf) (Some x) = Inr ()"
    using cert(2) by (simp add: validate_Inr_iff)
  have e: "bindE (codec_encode_request request) klv_encode = Inr encoded"
    using enc by (simp add: encode_request_frame_def)
  obtain k2 where k2: "write_all (pf_ssl pf) ssl encoded k1 = (Inr (), k2)" "incoming ssl k2 = frame"
    using write_all_succeeds [OF w, of ssl encoded k1] answered by blast
  obtain k3 where k3: "read_one_message (pf_ssl pf) ssl k2 = (Inr (take 4096 frame), k3)"
    using read_one_message_available [OF r, of ssl k2] k2(2) assms(12) by auto
  have "ssl_expect_positive (pf_ssl pf) rc ssl ''SSL_connect'' k1 = (Inr (), k1)"
    using hs(2) by (simp add: ssl_expect_positive_def)
  then show ?thesis
    by (simp add: client_session_def client_helpers bindO_def hs(1) cert(1,3) v e k2(1) k3 decode_response_frame_def
        returnO_def split: sum.split)
qed

lemma client_session_completes:
  assumes "SSL_connect (pf_ssl pf) ssl k = (rc, k1)" "0 < rc"
    and "SSL_get1_peer_certificate (pf_ssl pf) ssl k1 = Some x" "profile_ok (pf_x509 pf) x"
      "read_peer_identity (pf_x509 pf) (Some x) = Inr peer"
    and "encode_request_frame request = Inr encoded"
    and "ssl_writes (pf_ssl pf) sent" "writes_succeed (pf_ssl pf)"
    and "ssl_reads (pf_ssl pf) incoming" "reads_available (pf_ssl pf) incoming"
    and "\<And>k2. write_all (pf_ssl pf) ssl encoded k1 = (Inr (), k2) \<Longrightarrow> incoming ssl k2 = frame"
    and "length frame \<le> 4096" "decode_response_frame frame = Inr resp"
  shows "\<exists>k'. client_session pf ssl request k =
     (Inr \<lparr>cx_response = resp, cx_thumbprint = peer_thumbprint peer\<rparr>, k')"
proof -
  have "frame \<noteq> []" using assms(13) by (auto simp: decode_response_frame_def klv_decode_def)
  from client_session_reads [OF assms(1-11) this] assms(12,13) show ?thesis by simp
qed

text \<open>The client's handshake succeeds, in the environment \<open>k1\<close>, with a certificate inside the profile.\<close>

definition connected :: "('k, 'c) platform \<Rightarrow> ssl \<Rightarrow> 'k \<Rightarrow> 'k \<Rightarrow> peer_identity \<Rightarrow> bool" where
  "connected pf ssl k k1 peer \<longleftrightarrow> (\<exists>rc x. SSL_connect (pf_ssl pf) ssl k = (rc, k1) \<and> 0 < rc \<and>
     SSL_get1_peer_certificate (pf_ssl pf) ssl k1 = Some x \<and> profile_ok (pf_x509 pf) x \<and>
     read_peer_identity (pf_x509 pf) (Some x) = Inr peer)"

text \<open>An answer that fits the read is returned; one that does not ends the session in an exception.\<close>

lemma client_session_connected:
  assumes "connected pf ssl k k1 peer" and c: "connection_ok (pf_ssl pf) sent incoming"
    and "reads_available (pf_ssl pf) incoming" and "encode_request_frame request = Inr encoded"
    and "\<And>k2. write_all (pf_ssl pf) ssl encoded k1 = (Inr (), k2) \<Longrightarrow> incoming ssl k2 = frame"
    and d: "decode_response_frame frame = Inr resp"
  shows "\<exists>k'. client_session pf ssl request k =
     (if length frame \<le> 4096 then Inr \<lparr>cx_response = resp, cx_thumbprint = peer_thumbprint peer\<rparr>
      else Inl (AsmError ''KLV value length mismatch''), k')"
proof -
  from assms(1) obtain rc x where hs: "SSL_connect (pf_ssl pf) ssl k = (rc, k1)" "0 < rc"
    "SSL_get1_peer_certificate (pf_ssl pf) ssl k1 = Some x" "profile_ok (pf_x509 pf) x"
    "read_peer_identity (pf_x509 pf) (Some x) = Inr peer"
    by (auto simp: connected_def)
  obtain p where p: "klv_decode frame = Inr p" using d by (auto simp: decode_response_frame_def bindE_eq_Inr)
  then have "frame \<noteq> []" by (auto simp: klv_decode_def)
  moreover have "decode_response_frame (take 4096 frame) = Inl (AsmError ''KLV value length mismatch'')"
    if "4096 < length frame"
    using klv_decode_cut [OF p that] by (simp add: decode_response_frame_def)
  ultimately show ?thesis
    using client_session_reads [OF hs assms(4) connection_okD(1,2,3) [OF c] assms(3,5)] d
    by (cases "length frame \<le> 4096") simp_all
qed

section \<open>Messages that do not fit one read\<close>

lemma decode_response_truncated:
  assumes "decode_response_frame frame = Inr resp" and "n < length frame"
  shows "\<exists>e. decode_response_frame (take n frame) = Inl e"
proof -
  obtain p where "klv_decode frame = Inr p" using assms(1) by (auto simp: decode_response_frame_def bindE_eq_Inr)
  then obtain e where "klv_decode (take n frame) = Inl e" using klv_decode_truncated assms(2) by blast
  then show ?thesis by (simp add: decode_response_frame_def)
qed

lemma decode_request_truncated:
  assumes "decode_request_frame frame = Inr r" and "n < length frame"
  shows "\<exists>e. decode_request_frame (take n frame) = Inl e"
proof -
  obtain p where "klv_decode frame = Inr p" using assms(1) by (auto simp: decode_request_frame_def bindE_eq_Inr)
  then obtain e where "klv_decode (take n frame) = Inl e" using klv_decode_truncated assms(2) by blast
  then show ?thesis by (simp add: decode_request_frame_def)
qed

end
