(* ===== verification/Initiator.thy ===== *)
theory Initiator
  imports Tls_Client
begin

text \<open>
  The command line client: \<^verbatim>\<open>src/apps/asm_initiator.cpp\<close>. The arguments become a request,
  the response a line of text. \<^verbatim>\<open>main\<close> has no handler: an exception that reaches it ends the
  process (\<open>Inl\<close>).
\<close>

section \<open>Arguments\<close>

definition parse_command :: "string \<Rightarrow> command result" where
  "parse_command value =
     (if value = ''get-time'' then Inr get_time
      else if value = ''query-spb'' then Inr query_spb
      else if value = ''get-event-list'' then Inr get_event_list
      else if value = ''get-event-id'' then Inr get_event_id
      else if value = ''le-key-load'' then Inr le_key_load
      else if value = ''le-key-query-id'' then Inr le_key_query_id
      else if value = ''le-key-query-all'' then Inr le_key_query_all
      else if value = ''le-key-purge-id'' then Inr le_key_purge_id
      else if value = ''le-key-purge-all'' then Inr le_key_purge_all
      else Inl (RuntimeError ''unsupported command''))"

definition parse_key_hex :: "string \<Rightarrow> array16 result" where
  "parse_key_hex hex =
     (if length hex \<noteq> 32 then Inl (RuntimeError ''LE key hex must be 32 characters'')
      else mapE array16_of
        (traverseE (\<lambda>i. mapE ucast (stoul 16 (take 2 (drop (i * 2) hex)))) [0..<16]))"

definition to_hex :: "byte_buffer \<Rightarrow> string" where
  "to_hex bytes = foldl (\<lambda>out b. out @ hex_byte b) [] bytes"

text \<open>The number of arguments of a command; \<open>None\<close> for BadRequest, which is never sent.\<close>

definition command_argc :: "command \<Rightarrow> nat option" where
  "command_argc command =
     (case command of
        get_time \<Rightarrow> Some 0 | query_spb \<Rightarrow> Some 0 | le_key_query_all \<Rightarrow> Some 0 | le_key_purge_all \<Rightarrow> Some 0
      | get_event_id \<Rightarrow> Some 1 | le_key_query_id \<Rightarrow> Some 1 | le_key_purge_id \<Rightarrow> Some 1
      | get_event_list \<Rightarrow> Some 2
      | le_key_load \<Rightarrow> Some 4
      | bad_request \<Rightarrow> None)"

definition stoul_u32 :: "string \<Rightarrow> u32 result" where
  "stoul_u32 text = mapE ucast (stoul 10 text)"

definition request_payload :: "command \<Rightarrow> string list \<Rightarrow> byte_buffer result" where
  "request_payload command argv =
     (case command of
        get_event_list \<Rightarrow>
          bindE (stoul_u32 (argv ! 3)) (\<lambda>a. bindE (stoul_u32 (argv ! 4)) (\<lambda>b.
            Inr (event_list_encode_request \<lparr>time_start = a, time_stop = b\<rparr>)))
      | get_event_id \<Rightarrow> mapE (\<lambda>i. event_id_encode_request \<lparr>asked_event_id = i\<rparr>) (stoul_u32 (argv ! 3))
      | le_key_load \<Rightarrow>
          bindE (stoul_u32 (argv ! 3)) (\<lambda>i. bindE (parse_key_hex (argv ! 4)) (\<lambda>k.
          bindE (stoul_u32 (argv ! 5)) (\<lambda>e. bindE (stoull 10 (argv ! 6)) (\<lambda>a.
            Inr (encode_load_request
              \<lparr>load_request_keys = [\<lparr>key_id = i, key_bytes = k, expire_time = e, attribute_data = a\<rparr>]\<rparr>)))))
      | le_key_query_id \<Rightarrow> mapE (\<lambda>i. encode_query_id_request \<lparr>query_id_key_id = i\<rparr>) (stoul_u32 (argv ! 3))
      | le_key_purge_id \<Rightarrow> mapE (\<lambda>i. encode_purge_id_request \<lparr>purge_id_key_id = i\<rparr>) (stoul_u32 (argv ! 3))
      | _ \<Rightarrow> Inr [])"

definition build_request :: "command \<Rightarrow> string list \<Rightarrow> standard_request result" where
  "build_request command argv =
     mapE (\<lambda>payload. \<lparr>req_command = command, req_id = 1, req_payload = payload\<rparr>)
       (request_payload command argv)"

section \<open>The line printed for a response\<close>

text \<open>The loops that print ids separated by commas.\<close>

definition id_list :: "u32 list \<Rightarrow> string" where
  "id_list ids = concat (map (\<lambda>i. (if i \<noteq> 0 then '','' else []) @ dec_string (unat (ids ! i)))
                          [0..<length ids])"

definition bool_text :: "bool \<Rightarrow> string" where
  "bool_text b = (if b then ''true'' else ''false'')"

definition payload_text :: "standard_response \<Rightarrow> string result" where
  "payload_text response =
     (case resp_command response of
        get_time \<Rightarrow>
          mapE (\<lambda>t. '' epoch='' @ dec_string (unat t)) (decode_be_u64 (resp_payload response) 0)
      | query_spb \<Rightarrow>
          mapE (\<lambda>p. '' protocol_ver='' @ dec_string (unat (protocol_version p))
                     @ '' status='' @ query_spb_status_to_string (spb_status p))
            (query_spb_decode_response (resp_payload response))
      | get_event_list \<Rightarrow>
          mapE (\<lambda>p. '' event_count='' @ dec_string (length (listed_event_ids p))
                     @ '' event_ids='' @ id_list (listed_event_ids p))
            (event_list_decode_response (resp_payload response))
      | get_event_id \<Rightarrow> Inr ('' xml='' @ log_record_xml (event_id_decode_response (resp_payload response)))
      | le_key_load \<Rightarrow>
          mapE (\<lambda>p. '' overflow='' @ bool_text (load_overflow p))
            (decode_load_response (resp_payload response))
      | le_key_query_id \<Rightarrow>
          mapE (\<lambda>p. '' key_present='' @ bool_text (query_id_key_present p))
            (decode_query_id_response (resp_payload response))
      | le_key_query_all \<Rightarrow>
          mapE (\<lambda>p. '' key_count='' @ dec_string (length (query_all_key_ids p))
                     @ '' key_ids='' @ id_list (query_all_key_ids p))
            (decode_query_all_response (resp_payload response))
      | le_key_purge_id \<Rightarrow>
          mapE (\<lambda>p. '' no_key_id='' @ bool_text (purge_id_no_key_id p))
            (decode_purge_id_response (resp_payload response))
      | bad_request \<Rightarrow> Inr ('' request_copy_hex='' @ to_hex (resp_payload response))
      | le_key_purge_all \<Rightarrow> Inr [])"

text \<open>
  The line is printed piece by piece in the source. When the payload's decoder throws, the pieces before it are
  in the buffer of standard output and are not modelled: no handler catches the exception, and the process is
  aborted, which does not flush that buffer.
\<close>

definition response_text :: "client_exchange_result \<Rightarrow> string result" where
  "response_text result =
     mapE (\<lambda>payload.
         ''peer='' @ cx_thumbprint result
         @ '' command='' @ command_to_string (resp_command (cx_response result))
         @ '' response='' @ general_response_to_string (resp_code (cx_response result))
         @ (case resp_id (cx_response result) of
              None \<Rightarrow> [] | Some i \<Rightarrow> '' request_id='' @ dec_string (unat i))
         @ payload @ [CHR ''\<newline>''])
       (payload_text (cx_response result))"

section \<open>The program\<close>

text \<open>Exit status and the text written to the two streams.\<close>

record exit_status =
  exit_code :: int
  std_out :: string
  std_err :: string

definition initiator_main ::
    "('k, 'c) platform \<Rightarrow> string list \<Rightarrow> ('k client_state, exit_status) op" where
  "initiator_main pf argv =
     (if length argv < 6
      then returnO \<lparr>exit_code = 1, std_out = [],
             std_err = ''usage: asm_initiator <host> <command> [command args...] <cert.pem> <key.pem> <ca.pem>''
                       @ [CHR ''\<newline>'']\<rparr>
      else bindO (liftO (parse_command (argv ! 2))) (\<lambda>command.
        case command_argc command of
          None \<Rightarrow> returnO \<lparr>exit_code = 1, std_out = [],
                    std_err = ''BadRequest is response-only'' @ [CHR ''\<newline>'']\<rparr>
        | Some n \<Rightarrow>
            if length argv \<noteq> 3 + n + 3
            then returnO \<lparr>exit_code = 1, std_out = [],
                   std_err = ''unexpected arguments for command'' @ [CHR ''\<newline>'']\<rparr>
            else let config = tls_config_default\<lparr>certificate := argv ! (3 + n),
                   private_key := argv ! (3 + n + 1), ca_certificate := argv ! (3 + n + 2)\<rparr> in
              bindO (liftO (build_request command argv)) (\<lambda>request.
              bindO (send_request pf config (argv ! 1) 1173 request) (\<lambda>result.
              bindO (liftO (response_text result)) (\<lambda>text.
              returnO \<lparr>exit_code = 0, std_out = text, std_err = []\<rparr>)))))"

section \<open>What the arguments become\<close>

definition command_name :: "command \<Rightarrow> string" where
  "command_name c = (case c of
     bad_request \<Rightarrow> ''bad-request'' | get_time \<Rightarrow> ''get-time'' | get_event_list \<Rightarrow> ''get-event-list''
   | get_event_id \<Rightarrow> ''get-event-id'' | query_spb \<Rightarrow> ''query-spb'' | le_key_load \<Rightarrow> ''le-key-load''
   | le_key_query_id \<Rightarrow> ''le-key-query-id'' | le_key_query_all \<Rightarrow> ''le-key-query-all''
   | le_key_purge_id \<Rightarrow> ''le-key-purge-id'' | le_key_purge_all \<Rightarrow> ''le-key-purge-all'')"

lemma parse_command_Inr_iff:
  "parse_command v = Inr c \<longleftrightarrow> c \<noteq> bad_request \<and> v = command_name c"
  by (cases c) (auto simp: parse_command_def command_name_def)

lemma parse_command_argc: "parse_command v = Inr c \<Longrightarrow> \<exists>n. command_argc c = Some n"
  by (cases c) (simp_all add: parse_command_Inr_iff command_argc_def)

lemma to_hex_eq: "to_hex = bytes_to_hex"
  by (rule ext) (simp add: to_hex_def bytes_to_hex_def)

lemma parse_key_hex_eq:
  "length hex = 32 \<Longrightarrow> parse_key_hex hex = hex_to_key hex"
  by (simp add: parse_key_hex_def hex_to_key_def)

lemma build_request_shape:
  "build_request c argv = Inr r \<Longrightarrow> req_command r = c \<and> req_id r = 1"
  by (auto simp: build_request_def mapE_eq_Inr)

lemma request_payload_encodes:
  assumes "request_payload c argv = Inr p"
  shows "case c of
      get_event_list \<Rightarrow> \<exists>q. p = event_list_encode_request q
    | get_event_id \<Rightarrow> \<exists>i. p = event_id_encode_request \<lparr>asked_event_id = i\<rparr>
    | le_key_load \<Rightarrow> \<exists>k. p = encode_load_request \<lparr>load_request_keys = [k]\<rparr>
    | le_key_query_id \<Rightarrow> \<exists>i. p = encode_query_id_request \<lparr>query_id_key_id = i\<rparr>
    | le_key_purge_id \<Rightarrow> \<exists>i. p = encode_purge_id_request \<lparr>purge_id_key_id = i\<rparr>
    | _ \<Rightarrow> p = []"
  using assms
  by (cases c) (auto simp: request_payload_def mapE_eq_Inr bindE_eq_Inr)

lemma request_lengths [codec_simps]:
  "length (event_list_encode_request q) = 8" "length (event_id_encode_request \<lparr>asked_event_id = i\<rparr>) = 4"
  "length (encode_query_id_request \<lparr>query_id_key_id = i\<rparr>) = 4"
  "length (encode_purge_id_request \<lparr>purge_id_key_id = i\<rparr>) = 4"
  by (simp_all add: event_list_encode_request_def event_id_encode_request_def
      encode_query_id_request_def encode_purge_id_request_def)

text \<open>A request the initiator builds is never malformed, and fits one frame and one read.\<close>

lemma build_request_encodes:
  assumes "build_request c argv = Inr r"
  shows "request_payload c argv = Inr (req_payload r)"
  using assms by (auto simp: build_request_def mapE_eq_Inr)

lemma build_request_not_malformed:
  assumes "build_request c argv = Inr r"
  shows "\<not> malformed r"
proof -
  have one: "\<exists>ks. length ks < 2 ^ 32 \<and>
      encode_load_request \<lparr>load_request_keys = [k]\<rparr> = encode_load_request \<lparr>load_request_keys = ks\<rparr>" for k
    by (rule exI [of _ "[k]"]) simp
  show ?thesis
    using request_payload_encodes [OF build_request_encodes [OF assms]] build_request_shape [OF assms] one
    by (cases c) (auto simp: malformed_def)
qed

lemma build_request_length:
  assumes "build_request c argv = Inr r"
  shows "length (req_payload r) \<le> 40"
  using request_payload_encodes [OF build_request_encodes [OF assms]]
  by (cases c) (auto simp: codec_simps)

section \<open>Which responses are printed\<close>

text \<open>
  The responses that the service gives to the initiator's own requests: every one is printed, but
  for the refusal of a reversed time window, whose empty payload the printing decodes as a batch.
\<close>

lemma payload_text_event_list:
  "resp_command resp = get_event_list \<Longrightarrow> resp_payload resp = [] \<Longrightarrow>
     payload_text resp = Inl (AsmError ''batch payload too short'')"
  by (simp add: payload_text_def event_list_decode_response_def event_decode_u32_batch_def)

lemma decode_be_u64_append: "decode_be_u64 (append_be_u64 [] t) 0 = Inr t"
  using decode_append_be_u64 [of "[]" t "[]"] by simp

lemma card_keys_small: "distinct ids \<Longrightarrow> set ids = dom m \<Longrightarrow> card (dom m) \<le> kCapacity \<Longrightarrow> length ids < 2 ^ 32"
  using distinct_card [of ids] by (simp add: kCapacity_def)

lemma served_payload_text:
  assumes "serves w m r raw resp m'" and "build_request c argv = Inr r"
    and "length (w_events w) < 2 ^ 32" and "card (dom m) \<le> kCapacity"
  shows "(\<exists>text. payload_text resp = Inr text) \<longleftrightarrow>
     \<not> (c = get_event_list \<and> resp_code resp = invalid)"
proof -
  note shape = build_request_shape [OF assms(2)]
  note enc = request_payload_encodes [OF build_request_encodes [OF assms(2)]]
  have small: "length (filter P (w_events w)) < 2 ^ 32" for P
    using length_filter_le [of P "w_events w"] assms(3) by linarith
  from assms(1) show ?thesis
  proof cases
    case (window q)
    let ?ids = "map ev_id (filter (in_window (time_start q) (time_stop q)) (w_events w))"
    have "event_list_decode_response (event_list_encode_response \<lparr>listed_event_ids = ?ids\<rparr>) = Inr \<lparr>listed_event_ids = ?ids\<rparr>"
      using small by (simp add: event_list_response_iff)
    with window shape show ?thesis by (auto simp: payload_text_def mapE_eq_Inr)
  next
    case (query_all ids)
    have "decode_query_all_response (encode_query_all_response \<lparr>query_all_key_ids = ids\<rparr>) = Inr \<lparr>query_all_key_ids = ids\<rparr>"
      using card_keys_small [OF query_all(6,7) assms(4)] by (simp add: query_all_response_iff)
    with query_all shape show ?thesis by (auto simp: payload_text_def mapE_eq_Inr)
  next
    case (window_reversed q)
    then show ?thesis using shape payload_text_event_list [of resp] by simp
  qed (use shape enc in \<open>auto simp: payload_text_def mapE_eq_Inr decode_be_u64_append query_spb_response_iff\<close>)
qed

end
