(* ===== verification/Session_Replies.thy ===== *)
theory Session_Replies
  imports Tls_Server
begin

text \<open>
  A whole session that succeeds: the handshake, the peer's identity, one read, one answer, one report
  to the observer (\<^verbatim>\<open>TlsServer::serve_client\<close> from \<^verbatim>\<open>SSL_accept\<close> on).
\<close>

text \<open>The handshake succeeds, in the environment \<open>k1\<close>, with a certificate inside the profile.\<close>

definition accepted :: "('k, 'c) platform \<Rightarrow> ssl \<Rightarrow> 'k \<Rightarrow> 'k \<Rightarrow> peer_identity \<Rightarrow> bool" where
  "accepted pf ssl k k1 peer \<longleftrightarrow> (\<exists>rc x. SSL_accept (pf_ssl pf) ssl k = (rc, k1) \<and> 0 < rc \<and>
     SSL_get1_peer_certificate (pf_ssl pf) ssl k1 = Some x \<and> profile_ok (pf_x509 pf) x \<and>
     read_peer_identity (pf_x509 pf) (Some x) = Inr peer)"

text \<open>From there on the session is the read, the answer and the report.\<close>

lemma serve_session_accepted:
  assumes "accepted pf ssl (st_env st) k1 peer"
    and "read_one_message (pf_ssl pf) ssl k1 = (Inr bytes, k2)"
  shows "serve_session pf srv observer ssl (t, st) =
    bindO (answer_request pf srv ssl peer bytes)
      (\<lambda>_. \<lambda>(trace, st). case notify observer trace st of (r, st') \<Rightarrow> (r, trace, st'))
      (t\<lparr>tr_thumbprint := peer_thumbprint peer\<rparr>, st\<lparr>st_env := k2\<rparr>)"
proof -
  obtain rc x where hs: "SSL_accept (pf_ssl pf) ssl (st_env st) = (rc, k1)" "0 < rc"
    "SSL_get1_peer_certificate (pf_ssl pf) ssl k1 = Some x" "profile_ok (pf_x509 pf) x"
    "read_peer_identity (pf_x509 pf) (Some x) = Inr peer"
    using assms(1) by (auto simp: accepted_def)
  have "ssl_expect_positive (pf_ssl pf) rc ssl ''SSL_accept'' k1 = (Inr (), k1)"
    using hs(2) by (simp add: ssl_expect_positive_def)
  moreover have "validate_certificate_profile (pf_x509 pf) (Some x) = Inr ()"
    using hs(4) by (simp add: validate_Inr_iff)
  ultimately show ?thesis
    by (simp add: serve_session_def in_env_apply bindO_def hs(1,3,5) assms(2) set_trace_def)
qed

text \<open>The answer says nothing of who is answered.\<close>

lemma keeps_thumbprint:
  "keeps (\<lambda>s. tr_thumbprint (fst s)) (answer_request pf srv ssl peer bytes)"
proof -
  have set: "keeps (\<lambda>s. tr_thumbprint (fst s)) (set_trace g)"
    if "\<And>t. tr_thumbprint (g t) = tr_thumbprint t" for g
    using that by (simp add: keeps_def set_trace_def)
  have clock: "keeps (\<lambda>s. tr_thumbprint (fst s)) (service_clock pf r now)" for r now
    by (simp add: service_clock_def read_clock_def keeps_returnO keeps_in_env)
  show ?thesis
    unfolding answer_request_def serve_request_def serve_failure_def Let_def read_clock_def
    by (intro keeps_catchO keeps_bindO keeps_liftO set clock keeps_in_env keeps_in_keys) simp_all
qed

context server_contract
begin

text \<open>
  A session whose message arrives answers it with one frame, as the abstract service allows, and tells the
  observer who was answered and how.
\<close>

lemma serve_session_replies:
  assumes ok: "ok (st_keys st)"
    and c: "connection_ok (pf_ssl pf) sent incoming" "clock_silent pf sent"
    and hs: "accepted pf ssl (st_env st) k1 peer"
    and r: "read_one_message (pf_ssl pf) ssl k1 = (Inr bytes, k2)"
    and silent: "\<And>trace k. f trace k = (Inr (), k)"
  shows "\<exists>trace st' frame resp. serve_session pf srv (Some f) ssl (t, st) = (Inr (), trace, st') \<and>
     ok (st_keys st') \<and> sent ssl (st_env st') = sent ssl k1 @ frame \<and>
     decode_response_frame frame = Inr resp \<and> st_traces st' = st_traces st @ [trace] \<and>
     tr_thumbprint trace = peer_thumbprint peer \<and> tr_status trace = resp_code resp \<and>
     replies (world_at (session_now pf k2)) (held (st_keys st)) bytes resp (held (st_keys st'))"
proof -
  let ?t = "t\<lparr>tr_thumbprint := peer_thumbprint peer\<rparr>" and ?st = "st\<lparr>st_env := k2\<rparr>"
  have len: "length bytes \<le> 4096" by (rule read_one_message_prefix(3) [OF connection_okD(3) [OF c(1)] r])
  have ok2: "ok (st_keys ?st)" using ok by simp
  obtain t1 st1 frame resp where a: "answer_request pf srv ssl peer bytes (?t, ?st) = (Inr (), t1, st1)"
      "ok (st_keys st1)" "st_traces st1 = st_traces ?st"
      "sent ssl (st_env st1) = sent ssl (st_env ?st) @ frame"
      "decode_response_frame frame = Inr resp" "tr_status t1 = resp_code resp"
      "replies (world_at (session_now pf (st_env ?st))) (held (st_keys ?st)) bytes resp (held (st_keys st1))"
    using answer_request_replies [OF ok2 len connection_okD(1,2) [OF c(1)] c(2), where ssl = ssl and peer = peer
        and t = ?t] by blast
  have "tr_thumbprint t1 = peer_thumbprint peer"
    using keepsD [OF keeps_thumbprint a(1)] by simp
  moreover have "serve_session pf srv (Some f) ssl (t, st)
      = (Inr (), t1, st1\<lparr>st_traces := st_traces st1 @ [t1]\<rparr>)"
    by (simp add: serve_session_accepted [OF hs r] bindO_def a(1) notify_def silent)
  moreover have "sent ssl (st_env st1) = sent ssl k1 @ frame"
    using a(4) read_one_message_sent [OF c(1) r] by simp
  ultimately show ?thesis
    using a(2,3,5-7)
    by (intro exI [of _ t1] exI [of _ "st1\<lparr>st_traces := st_traces st1 @ [t1]\<rparr>"] exI [of _ frame]
        exI [of _ resp]) simp
qed

end

end
