(* ===== verification/Responder.thy ===== *)
theory Responder
  imports Session_Replies
begin

text \<open>
  The server program: \<^verbatim>\<open>src/apps/asm_responder.cpp\<close>. The arguments choose the event log
  and the key store; the service over them answers until the stop flag is set. A
  \<^verbatim>\<open>shared_ptr<LeKeyStore>\<close> holds one of the two stores, and a call goes to the one it
  holds.
\<close>

section \<open>A key store of either kind\<close>

type_synonym any_key_store = "in_memory_le_key_store + jsonl_le_key_store"

definition any_op ::
    "(in_memory_le_key_store, 'a) op \<Rightarrow> (jsonl_le_key_store, 'a) op \<Rightarrow> (any_key_store, 'a) op" where
  "any_op mem file s =
     (case s of Inl m \<Rightarrow> (case mem m of (r, m') \<Rightarrow> (r, Inl m'))
      | Inr f \<Rightarrow> (case file f of (r, f') \<Rightarrow> (r, Inr f')))"

definition any_store :: "any_key_store le_key_store" where
  "any_store =
     \<lparr>load_keys = (\<lambda>ks. any_op (in_memory_load_keys ks) (jsonl_load_keys ks)),
      contains_key = (\<lambda>i. case_sum (in_memory_contains_key i) (jsonl_contains_key i)),
      list_key_ids = case_sum in_memory_list_key_ids jsonl_list_key_ids,
      purge_key = (\<lambda>i. any_op (in_memory_purge_key i) (jsonl_purge_key i)),
      purge_all = any_op in_memory_purge_all jsonl_purge_all\<rparr>"

definition any_map :: "any_key_store \<Rightarrow> keys" where
  "any_map = case_sum memory_map file_map"

definition any_ok :: "any_key_store \<Rightarrow> bool" where
  "any_ok = case_sum memory_ok file_ok"

lemma any_store_left:
  "load_keys any_store ks (Inl m) = (case load_keys in_memory_store ks m of (r, m') \<Rightarrow> (r, Inl m'))"
  "contains_key any_store i (Inl m) = contains_key in_memory_store i m"
  "list_key_ids any_store (Inl m) = list_key_ids in_memory_store m"
  "purge_key any_store i (Inl m) = (case purge_key in_memory_store i m of (r, m') \<Rightarrow> (r, Inl m'))"
  "purge_all any_store (Inl m) = (case purge_all in_memory_store m of (r, m') \<Rightarrow> (r, Inl m'))"
  by (simp_all add: any_store_def any_op_def in_memory_store_def)

lemma any_store_right:
  "load_keys any_store ks (Inr f) = (case load_keys jsonl_store ks f of (r, f') \<Rightarrow> (r, Inr f'))"
  "contains_key any_store i (Inr f) = contains_key jsonl_store i f"
  "list_key_ids any_store (Inr f) = list_key_ids jsonl_store f"
  "purge_key any_store i (Inr f) = (case purge_key jsonl_store i f of (r, f') \<Rightarrow> (r, Inr f'))"
  "purge_all any_store (Inr f) = (case purge_all jsonl_store f of (r, f') \<Rightarrow> (r, Inr f'))"
  by (simp_all add: any_store_def any_op_def jsonl_store_def)

lemma any_abs [simp]:
  "any_map (Inl m) = memory_map m" "any_map (Inr f) = file_map f"
  "any_ok (Inl m) = memory_ok m" "any_ok (Inr f) = file_ok f"
  by (simp_all add: any_map_def any_ok_def)

interpretation any_keys: le_key_store_contract any_store any_map any_ok
proof unfold_locales
  fix s :: any_key_store and ks :: "le_key_record list" and i :: u32
  assume ok: "any_ok s"
  show "\<exists>s'. load_keys any_store ks s = (Inr (refuses (any_map s) ks), s') \<and> any_ok s' \<and>
      any_map s' = (if refuses (any_map s) ks then any_map s else load_map (any_map s) ks)"
  proof (cases s)
    case (Inl m)
    with ok memory_keys.load [of m ks] show ?thesis by (auto simp: any_store_left)
  next
    case (Inr f)
    with ok file_keys.load [of f ks] show ?thesis by (auto simp: any_store_right)
  qed
  show "contains_key any_store i s \<longleftrightarrow> any_map s i \<noteq> None"
    using ok memory_keys.contains file_keys.contains
    by (cases s) (simp_all add: any_store_left any_store_right)
  show "distinct (list_key_ids any_store s) \<and> set (list_key_ids any_store s) = dom (any_map s)"
    using ok memory_keys.list_ids file_keys.list_ids
    by (cases s) (simp_all add: any_store_left any_store_right)
  show "\<exists>s'. purge_key any_store i s = (Inr (any_map s i \<noteq> None), s') \<and> any_ok s' \<and>
      any_map s' = (any_map s)(i := None)"
  proof (cases s)
    case (Inl m)
    with ok memory_keys.purge [of m i] show ?thesis by (auto simp: any_store_left)
  next
    case (Inr f)
    with ok file_keys.purge [of f i] show ?thesis by (auto simp: any_store_right)
  qed
  show "\<exists>s'. purge_all any_store s = (Inr (), s') \<and> any_ok s' \<and> any_map s' = Map.empty"
  proof (cases s)
    case (Inl m)
    with ok memory_keys.purge_everything [of m] show ?thesis by (auto simp: any_store_left)
  next
    case (Inr f)
    with ok file_keys.purge_everything [of f] show ?thesis by (auto simp: any_store_right)
  qed
  show "card (dom (any_map s)) \<le> kCapacity"
    using ok memory_keys.capacity file_keys.capacity by (cases s) simp_all
qed

section \<open>The program\<close>

definition handle_signal :: "bool option \<Rightarrow> bool option" where
  "handle_signal g_stop_flag = (case g_stop_flag of None \<Rightarrow> None | Some _ \<Rightarrow> Some True)"

definition trace_line :: "session_trace \<Rightarrow> string" where
  "trace_line trace =
     ''peer='' @ tr_thumbprint trace
     @ '' command='' @ command_to_string (tr_command trace)
     @ '' response='' @ general_response_to_string (tr_status trace)
     @ (case tr_request_id trace of None \<Rightarrow> [] | Some i \<Rightarrow> '' request_id='' @ dec_string (unat i))
     @ '' note='' @ tr_note trace @ [CHR ''\<newline>'']"

text \<open>
  The files: the content of the event log (\<open>None\<close> when it cannot be opened) and the key file, by
  path.
\<close>

definition choose_events :: "(string \<Rightarrow> string option) \<Rightarrow> string list \<Rightarrow> (event_log_store \<times> event_record list) result" where
  "choose_events read_file argv =
     (if length argv \<ge> 5
      then mapE (\<lambda>events. (jsonl_event_log_store events, events)) (jsonl_event_log_provider (read_file (argv ! 4)))
      else Inr (in_memory_event_log_store default_events, default_events))"

definition choose_keys :: "(string \<Rightarrow> key_file) \<Rightarrow> string list \<Rightarrow> any_key_store result" where
  "choose_keys key_file_at argv =
     (if length argv = 6 then mapE Inr (open_jsonl_le_key_store (key_file_at (argv ! 5)))
      else Inr (Inl \<lparr>mem_keys = []\<rparr>))"

definition responder_server :: "event_log_store \<Rightarrow> string list \<Rightarrow> any_key_store tls_server" where
  "responder_server log argv =
     tls_server_new
       (tls_config_default\<lparr>certificate := argv ! 1, private_key := argv ! 2, ca_certificate := argv ! 3\<rparr>)
       (asm_service_with_stores log any_store \<lparr>provider_status = not_playing\<rparr>) 1173"

text \<open>The observer prints a line for each trace; the printed lines are the traces of the server's state.\<close>

definition print_observer :: "'k session_observer" where
  "print_observer trace = returnO ()"

lemma print_observer_silent: "print_observer trace k = (Inr (), k)"
  by (simp add: print_observer_def)

text \<open>
  \<^verbatim>\<open>main\<close>: what it exits with and the traces it printed, or the exception that ended it;
  \<open>None\<close> when the loop never ends.
\<close>

definition responder_main ::
    "('k, 'c) platform \<Rightarrow> (string \<Rightarrow> string option) \<Rightarrow> (string \<Rightarrow> key_file) \<Rightarrow> string list \<Rightarrow> 'k
       \<Rightarrow> (int result \<times> any_key_store option \<times> string list) option" where
  "responder_main pf read_file key_file_at argv k =
     (if length argv \<noteq> 4 \<and> length argv \<noteq> 5 \<and> length argv \<noteq> 6 then Some (Inr 1, None, [])
      else case choose_events read_file argv of
        Inl e \<Rightarrow> Some (Inl e, None, [])
      | Inr (log, _) \<Rightarrow>
     (case choose_keys key_file_at argv of
        Inl e \<Rightarrow> Some (Inl e, None, [])
      | Inr keys \<Rightarrow>
          map_option (\<lambda>(r, st). (mapE (\<lambda>_. 0) r, Some (st_keys st), map trace_line (st_traces st)))
            (server_run pf (responder_server log argv) (Some print_observer)
               \<lparr>st_keys = keys, st_env = k, st_openssl = openssl_fresh, st_traces = []\<rparr>)))"

section \<open>The contracts of the assembled server\<close>

interpretation responder_service: server_contract
  "responder_server (in_memory_event_log_store events) argv" any_map any_ok events for events argv
  by (intro server_contract.intro service_contract.intro)
    (simp_all add: responder_server_def asm_service_with_stores_def
      any_keys.le_key_store_contract_axioms memory_log.event_log_contract_axioms)

interpretation responder_jsonl_service: server_contract
  "responder_server (jsonl_event_log_store events) argv" any_map any_ok events for events argv
  by (intro server_contract.intro service_contract.intro)
    (simp_all add: responder_server_def asm_service_with_stores_def
      any_keys.le_key_store_contract_axioms jsonl_log.event_log_contract_axioms)

lemma choose_events_contract:
  "choose_events read_file argv = Inr (log, events) \<Longrightarrow>
     server_contract (responder_server log argv) any_map any_ok events"
  using responder_service.server_contract_axioms responder_jsonl_service.server_contract_axioms
  by (auto simp: choose_events_def mapE_eq_Inr split: if_splits)

lemma choose_keys_memory: "length argv \<noteq> 6 \<Longrightarrow> choose_keys key_file_at argv = Inr s \<Longrightarrow> any_ok s"
  by (auto simp: choose_keys_def memory_ok_def keys_ok_def)

end
