(* ===== verification/Certificate_Objects.thy ===== *)
theory Certificate_Objects
  imports Tls_Client
begin

text \<open>
  Who frees what: the certificates, public keys and \<^verbatim>\<open>BIO\<close>s that
  \<^verbatim>\<open>security/certificate_utils.cpp\<close> and the sessions hold in unique pointers. The functions
  are translated once more, with every call that obtains, uses or frees such an object written to a log; they
  are shown to do what the functions of \<open>Security\<close>, \<open>Tls_Server\<close> and \<open>Tls_Client\<close> do, and to free
  what they obtain, once, in the reverse order, and not before its last use.
\<close>

section \<open>Objects and the log of the calls on them\<close>

text \<open>
  A call on something that belongs to an object (the RSA key inside a public key, its two numbers) is a use
  of that object.
\<close>

datatype ssl_object = Bio | Pkey evp_pkey | Cert x509

datatype object_call = Got ssl_object | Got_Null | Uses ssl_object | Frees ssl_object

type_synonym ('s, 'a) owned_op = "(object_call list \<times> 's, 'a) op"

text \<open>
  The objects held after some calls, last obtained first; \<open>None\<close> when a call uses one that is not held, or
  frees anything but the one obtained last.
\<close>

fun unwind :: "ssl_object list \<Rightarrow> object_call list \<Rightarrow> ssl_object list option" where
  "unwind held [] = Some held"
| "unwind held (Got ob # calls) = unwind (ob # held) calls"
| "unwind held (Got_Null # calls) = unwind held calls"
| "unwind held (Uses ob # calls) = (if ob \<in> set held then unwind held calls else None)"
| "unwind [] (Frees ob # calls) = None"
| "unwind (h # held) (Frees ob # calls) = (if h = ob then unwind held calls else None)"

lemma unwind_append: "unwind held (cs @ ds) = Option.bind (unwind held cs) (\<lambda>held'. unwind held' ds)"
  by (induction held cs rule: unwind.induct) simp_all

definition use_object :: "ssl_object \<Rightarrow> ('s, unit) owned_op" where
  "use_object ob = (\<lambda>(log, s). (Inr (), log @ [Uses ob], s))"

text \<open>A deleter: \<^verbatim>\<open>BioFileCloser\<close> tests for null itself, for the others the unique pointer does.\<close>

definition object_deleter :: "ssl_object option \<Rightarrow> object_call list \<Rightarrow> object_call list" where
  "object_deleter ob log = (case ob of None \<Rightarrow> log | Some p \<Rightarrow> log @ [Frees p])"

text \<open>A unique pointer made from what a call returned, and the rest of its scope.\<close>

definition unique_ptr :: "ssl_object option \<Rightarrow> ('s, 'a) owned_op \<Rightarrow> ('s, 'a) owned_op" where
  "unique_ptr ob scope = (\<lambda>(log, s).
     case scope (log @ [case ob of None \<Rightarrow> Got_Null | Some p \<Rightarrow> Got p], s) of
       (r, log', s') \<Rightarrow> (r, object_deleter ob log', s'))"

definition beside :: "('s, 'a) op \<Rightarrow> ('s, 'a) owned_op" where
  "beside m = (\<lambda>(log, s). case m s of (r, s') \<Rightarrow> (r, log, s'))"

section \<open>The certificate checks\<close>

definition name_to_string_owned :: "x509_api \<Rightarrow> x509_name option \<Rightarrow> ('s, string) owned_op" where
  "name_to_string_owned api name =
     (case name of
        None \<Rightarrow> returnO []
      | Some n \<Rightarrow>
          unique_ptr (map_option (\<lambda>_. Bio) (print_name api n))
            (case print_name api n of
               None \<Rightarrow> liftO (Inl (AsmError ''failed to allocate BIO''))
             | Some (rc, mem) \<Rightarrow>
                 bindO (use_object Bio) (\<lambda>_.
                 if rc \<le> 0 then liftO (Inl (AsmError ''failed to format X509 name''))
                 else bindO (use_object Bio) (\<lambda>_.
                   returnO (case mem of None \<Rightarrow> [] | Some text \<Rightarrow> text)))))"

definition read_peer_identity_owned :: "x509_api \<Rightarrow> x509 option \<Rightarrow> ('s, peer_identity) owned_op" where
  "read_peer_identity_owned api cert =
     (case cert of
        None \<Rightarrow> liftO (Inl (AsmError ''peer certificate missing''))
      | Some x \<Rightarrow>
          bindO (use_object (Cert x)) (\<lambda>_.
          let (rc, digest) = X509_digest api x in
          if rc \<noteq> 1 then liftO (Inl (AsmError ''failed to digest peer certificate''))
          else bindO (use_object (Cert x)) (\<lambda>_.
               bindO (name_to_string_owned api (X509_get_subject_name api x)) (\<lambda>subject.
               bindO (use_object (Cert x)) (\<lambda>_.
               bindO (name_to_string_owned api (X509_get_issuer_name api x)) (\<lambda>issuer.
               returnO \<lparr>peer_subject = subject, peer_issuer = issuer,
                    peer_thumbprint = digest_to_hex digest\<rparr>))))))"

definition validate_certificate_profile_owned :: "x509_api \<Rightarrow> x509 option \<Rightarrow> ('s, unit) owned_op" where
  "validate_certificate_profile_owned api cert =
     (case cert of
        None \<Rightarrow> liftO (Inl (AsmError ''certificate missing''))
      | Some x \<Rightarrow>
          bindO (use_object (Cert x)) (\<lambda>_.
          unique_ptr (map_option Pkey (X509_get_pubkey api x))
     (case X509_get_pubkey api x of
        None \<Rightarrow> liftO (Inl (AsmError ''failed to read certificate public key''))
      | Some key \<Rightarrow>
          bindO (use_object (Pkey key)) (\<lambda>_.
          if EVP_PKEY_base_id api key \<noteq> EVP_PKEY_RSA api
          then liftO (Inl (AsmError ''certificate public key must be RSA''))
          else bindO (use_object (Pkey key)) (\<lambda>_.
     (case EVP_PKEY_get0_RSA api key of
        None \<Rightarrow> liftO (Inl (AsmError ''failed to access RSA public key''))
      | Some rsa \<Rightarrow>
          bindO (use_object (Pkey key)) (\<lambda>_.
     (case RSA_get0_key api rsa of
        (Some n, Some e) \<Rightarrow>
          bindO (use_object (Pkey key)) (\<lambda>_.
          if BN_num_bits api n \<noteq> 2048 then liftO (Inl (AsmError ''certificate RSA key must be 2048 bits''))
          else bindO (use_object (Pkey key)) (\<lambda>_.
            if BN_get_word api e \<noteq> 65537
            then liftO (Inl (AsmError ''certificate RSA exponent must be 65537''))
            else returnO ()))
      | _ \<Rightarrow> liftO (Inl (AsmError ''RSA public key parameters missing''))))))))))"

definition validate_certificate_profile_from_file_owned :: "x509_api \<Rightarrow> string \<Rightarrow> ('s, unit) owned_op" where
  "validate_certificate_profile_from_file_owned api certificate_path =
     unique_ptr (map_option (\<lambda>_. Bio) (read_pem api certificate_path))
       (case read_pem api certificate_path of
          None \<Rightarrow> liftO (Inl (AsmError ''failed to open certificate file''))
        | Some cert \<Rightarrow>
            bindO (use_object Bio) (\<lambda>_.
            unique_ptr (map_option Cert cert)
              (case cert of
                 None \<Rightarrow> liftO (Inl (AsmError ''failed to parse certificate file''))
               | Some x \<Rightarrow> validate_certificate_profile_owned api (Some x))))"

section \<open>The sessions\<close>

text \<open>The peer's certificate is held from the handshake to the end of the function.\<close>

definition serve_session_owned ::
    "('k, 'c) platform \<Rightarrow> 's tls_server \<Rightarrow> 'k session_observer option \<Rightarrow> ssl
       \<Rightarrow> (session_trace \<times> ('s, 'k) server_state, unit) owned_op" where
  "serve_session_owned pf srv observer ssl =
     bindO (beside (in_env (\<lambda>k. case SSL_accept (pf_ssl pf) ssl k of (rc, k1) \<Rightarrow>
                      ssl_expect_positive (pf_ssl pf) rc ssl ''SSL_accept'' k1))) (\<lambda>_.
     bindO (beside (in_env (\<lambda>k. (Inr (SSL_get1_peer_certificate (pf_ssl pf) ssl k), k)))) (\<lambda>peer_cert.
     unique_ptr (map_option Cert peer_cert) (
     bindO (validate_certificate_profile_owned (pf_x509 pf) peer_cert) (\<lambda>_.
     bindO (read_peer_identity_owned (pf_x509 pf) peer_cert) (\<lambda>peer.
     bindO (beside (set_trace (\<lambda>trace. trace\<lparr>tr_thumbprint := peer_thumbprint peer\<rparr>))) (\<lambda>_.
     bindO (beside (in_env (read_one_message (pf_ssl pf) ssl))) (\<lambda>request_bytes.
     bindO (beside (answer_request pf srv ssl peer request_bytes)) (\<lambda>_.
     beside (\<lambda>(trace, st). case notify observer trace st of (r, st') \<Rightarrow> (r, trace, st'))))))))))"

definition client_session_owned ::
    "('k, 'c) platform \<Rightarrow> ssl \<Rightarrow> standard_request \<Rightarrow> ('k, client_exchange_result) owned_op" where
  "client_session_owned pf ssl request =
     bindO (beside (\<lambda>k. case SSL_connect (pf_ssl pf) ssl k of (rc, k1) \<Rightarrow>
              client_expect_positive (pf_ssl pf) rc ssl ''SSL_connect'' k1)) (\<lambda>_.
     bindO (beside (\<lambda>k. (Inr (SSL_get1_peer_certificate (pf_ssl pf) ssl k), k))) (\<lambda>peer_cert.
     unique_ptr (map_option Cert peer_cert) (
     bindO (validate_certificate_profile_owned (pf_x509 pf) peer_cert) (\<lambda>_.
     bindO (read_peer_identity_owned (pf_x509 pf) peer_cert) (\<lambda>peer.
     bindO (liftO (bindE (codec_encode_request request) klv_encode)) (\<lambda>encoded.
     bindO (beside (client_write_all (pf_ssl pf) ssl encoded)) (\<lambda>_.
     bindO (beside (client_read_one_message (pf_ssl pf) ssl)) (\<lambda>response_bytes.
     bindO (liftO (klv_decode response_bytes)) (\<lambda>packet.
     bindO (liftO (codec_decode_response packet)) (\<lambda>response.
     returnO \<lparr>cx_response = response, cx_thumbprint = peer_thumbprint peer\<rparr>))))))))))"

section \<open>They do what the functions without a log do\<close>

definition forgets_to :: "('s, 'a) owned_op \<Rightarrow> ('s, 'a) op \<Rightarrow> bool" where
  "forgets_to m m' \<longleftrightarrow> (\<forall>log s. \<exists>log'. m (log, s) = (fst (m' s), log', snd (m' s)))"

named_theorems forget_rules \<open>operations without their log\<close>

lemma forgets_toD:
  "forgets_to m m' \<Longrightarrow> m (log, s) = (r, log', s') \<Longrightarrow> m' s = (r, s')"
  unfolding forgets_to_def by (metis prod.collapse prod.inject)

lemma forget_bindO [forget_rules]:
  assumes "forgets_to m m'" and "\<And>x. forgets_to (g x) (g' x)"
  shows "forgets_to (bindO m g) (bindO m' g')"
  unfolding forgets_to_def
proof (intro allI)
  fix log s
  obtain r s1 where m': "m' s = (r, s1)" by (cases "m' s")
  obtain log1 where m: "m (log, s) = (r, log1, s1)"
    using assms(1) m' unfolding forgets_to_def by (metis fst_conv snd_conv)
  show "\<exists>log'. bindO m g (log, s) = (fst (bindO m' g' s), log', snd (bindO m' g' s))"
    using assms(2) by (cases r) (simp_all add: bindO_def m m' forgets_to_def)
qed

lemma forget_liftO [forget_rules]: "forgets_to (liftO r) (liftO r)"
  by (simp add: forgets_to_def)

lemma forget_returnO [forget_rules]: "forgets_to (returnO x) (returnO x)"
  by (simp add: forgets_to_def)

lemma forget_beside [forget_rules]: "forgets_to (beside m) m"
  by (auto simp: forgets_to_def beside_def split: prod.splits)

lemma forget_unique_ptr [forget_rules]: "forgets_to scope m \<Longrightarrow> forgets_to (unique_ptr ob scope) m"
  unfolding forgets_to_def
proof (intro allI)
  fix log s
  let ?got = "case ob of None \<Rightarrow> Got_Null | Some p \<Rightarrow> Got p"
  assume "\<forall>log s. \<exists>log'. scope (log, s) = (fst (m s), log', snd (m s))"
  then obtain log' where "scope (log @ [?got], s) = (fst (m s), log', snd (m s))" by blast
  then show "\<exists>log'. unique_ptr ob scope (log, s) = (fst (m s), log', snd (m s))"
    by (simp add: unique_ptr_def)
qed

lemma forget_use [forget_rules]: "forgets_to m m' \<Longrightarrow> forgets_to (bindO (use_object ob) (\<lambda>_. m)) m'"
  by (simp add: forgets_to_def bindO_def use_object_def)

lemma forget_used [forget_rules]: "forgets_to (bindO (use_object ob) returnO) (liftO (Inr ()))"
  by (simp add: forgets_to_def bindO_def use_object_def)

lemma forget_returned [forget_rules]: "forgets_to (returnO x) (liftO (Inr x))"
  by (simp add: forgets_to_def)

lemma liftO_bindE: "liftO (bindE r f) = bindO (liftO r) (\<lambda>x. liftO (f x))"
  by (rule ext) (cases r; simp)

lemma forget_name_to_string [forget_rules]:
  "forgets_to (name_to_string_owned api name) (liftO (name_to_string api name))"
  unfolding name_to_string_owned_def name_to_string_def
  by (auto split: option.splits intro!: forget_rules)

lemma forget_read_peer_identity [forget_rules]:
  "forgets_to (read_peer_identity_owned api cert) (liftO (read_peer_identity api cert))"
  unfolding read_peer_identity_owned_def read_peer_identity_def Let_def
  by (auto simp: liftO_bindE split: option.splits prod.splits intro!: forget_rules)

lemma forget_validate [forget_rules]:
  "forgets_to (validate_certificate_profile_owned api cert) (liftO (validate_certificate_profile api cert))"
  unfolding validate_certificate_profile_owned_def validate_certificate_profile_def
  by (auto split: option.splits prod.splits intro!: forget_rules)

lemma forget_validate_file:
  "forgets_to (validate_certificate_profile_from_file_owned api path)
     (liftO (validate_certificate_profile_from_file api path))"
  unfolding validate_certificate_profile_from_file_owned_def validate_certificate_profile_from_file_def
  by (auto split: option.splits intro!: forget_rules)

lemma forget_serve_session:
  "forgets_to (serve_session_owned pf srv observer ssl) (serve_session pf srv observer ssl)"
  unfolding serve_session_owned_def serve_session_def by (intro forget_rules)

lemma forget_client_session:
  "forgets_to (client_session_owned pf ssl request) (client_session pf ssl request)"
  unfolding client_session_owned_def client_session_def by (intro forget_rules)

section \<open>What they obtain, they free\<close>

text \<open>
  \<open>tidy needed m\<close>: where the objects \<open>needed\<close> are held, the calls of \<open>m\<close> use what is held only, and
  leave held what was held before.
\<close>

definition tidy :: "ssl_object set \<Rightarrow> ('s, 'a) owned_op \<Rightarrow> bool" where
  "tidy needed m \<longleftrightarrow> (\<forall>log s. \<exists>calls. fst (snd (m (log, s))) = log @ calls \<and>
     (\<forall>held. needed \<subseteq> set held \<longrightarrow> unwind held calls = Some held))"

named_theorems tidy_rules \<open>operations that free what they obtain\<close>

lemma tidyE:
  assumes "tidy needed m" and "m (log, s) = (r, log', s')"
  obtains calls where "log' = log @ calls"
    "\<And>held. needed \<subseteq> set held \<Longrightarrow> unwind held calls = Some held"
  using assms unfolding tidy_def by (metis fst_conv snd_conv)

lemma tidyI:
  assumes "\<And>log s r log' s'. m (log, s) = (r, log', s') \<Longrightarrow>
    \<exists>calls. log' = log @ calls \<and> (\<forall>held. needed \<subseteq> set held \<longrightarrow> unwind held calls = Some held)"
  shows "tidy needed m"
  unfolding tidy_def using assms by (metis prod.collapse)

lemma tidy_bindO [tidy_rules]:
  assumes "tidy needed m" and "\<And>x. tidy needed (g x)"
  shows "tidy needed (bindO m g)"
proof (rule tidyI)
  fix log s r log' s' assume run: "bindO m g (log, s) = (r, log', s')"
  obtain x log1 s1 where m: "m (log, s) = (x, log1, s1)" by (metis prod.exhaust)
  obtain cs where cs: "log1 = log @ cs" "\<And>held. needed \<subseteq> set held \<Longrightarrow> unwind held cs = Some held"
    by (rule tidyE [OF assms(1) m]) blast
  show "\<exists>calls. log' = log @ calls \<and> (\<forall>held. needed \<subseteq> set held \<longrightarrow> unwind held calls = Some held)"
  proof (cases x)
    case (Inl e)
    with run m cs show ?thesis by (auto simp: bindO_def)
  next
    case (Inr y)
    with run m have "g y (log1, s1) = (r, log', s')" by (simp add: bindO_def)
    then obtain ds where "log' = log1 @ ds" "\<And>held. needed \<subseteq> set held \<Longrightarrow> unwind held ds = Some held"
      by (rule tidyE [OF assms(2)]) blast
    with cs show ?thesis by (intro exI [of _ "cs @ ds"]) (simp add: unwind_append)
  qed
qed

lemma tidy_liftO [tidy_rules]: "tidy needed (liftO r)"
  by (auto simp: tidy_def)

lemma tidy_returnO [tidy_rules]: "tidy needed (returnO x)"
  by (auto simp: tidy_def)

lemma tidy_beside [tidy_rules]: "tidy needed (beside m)"
  by (auto simp: tidy_def beside_def split: prod.splits)

lemma tidy_use [tidy_rules]: "ob \<in> needed \<Longrightarrow> tidy needed (use_object ob)"
  by (auto simp: tidy_def use_object_def)

lemma tidy_unique_ptr [tidy_rules]:
  assumes "tidy (set_option ob \<union> needed) scope"
  shows "tidy needed (unique_ptr ob scope)"
proof (rule tidyI)
  fix log s r log' s' assume run: "unique_ptr ob scope (log, s) = (r, log', s')"
  let ?got = "case ob of None \<Rightarrow> Got_Null | Some p \<Rightarrow> Got p"
  obtain x log1 s1 where m: "scope (log @ [?got], s) = (x, log1, s1)" by (metis prod.exhaust)
  obtain cs where cs: "log1 = (log @ [?got]) @ cs"
      "\<And>held. set_option ob \<union> needed \<subseteq> set held \<Longrightarrow> unwind held cs = Some held"
    by (rule tidyE [OF assms m]) blast
  have "log' = object_deleter ob log1" using run m by (simp add: unique_ptr_def)
  with cs show "\<exists>calls. log' = log @ calls \<and> (\<forall>held. needed \<subseteq> set held \<longrightarrow> unwind held calls = Some held)"
    by (cases ob) (auto simp: object_deleter_def unwind_append subset_iff)
qed

lemma tidy_name_to_string [tidy_rules]: "tidy needed (name_to_string_owned api name)"
  unfolding name_to_string_owned_def by (auto split: option.splits intro!: tidy_rules)

lemma tidy_read_peer_identity [tidy_rules]:
  "set_option (map_option Cert cert) \<subseteq> needed \<Longrightarrow> tidy needed (read_peer_identity_owned api cert)"
  unfolding read_peer_identity_owned_def Let_def
  by (auto split: option.splits prod.splits intro!: tidy_rules)

lemma tidy_validate [tidy_rules]:
  "set_option (map_option Cert cert) \<subseteq> needed \<Longrightarrow> tidy needed (validate_certificate_profile_owned api cert)"
  unfolding validate_certificate_profile_owned_def
  by (auto split: option.splits prod.splits intro!: tidy_rules)

lemma tidy_validate_file: "tidy {} (validate_certificate_profile_from_file_owned api path)"
  unfolding validate_certificate_profile_from_file_owned_def
  by (auto split: option.splits intro!: tidy_rules)

lemma tidy_serve_session: "tidy {} (serve_session_owned pf srv observer ssl)"
  unfolding serve_session_owned_def by (intro tidy_rules) auto

lemma tidy_client_session: "tidy {} (client_session_owned pf ssl request)"
  unfolding client_session_owned_def by (intro tidy_rules) auto

lemma tidy_run: "tidy {} m \<Longrightarrow> m ([], s) = (r, calls, s') \<Longrightarrow> unwind [] calls = Some []"
  by (erule (1) tidyE) simp

text \<open>C32: nothing that OpenSSL handed out for a certificate is leaked, freed twice or used after it was freed.
The certificate checks and both sessions, translated with a log of these calls, give the results and the
states of the functions without it; and on every way out, exceptions included, each certificate, public key
and \<^verbatim>\<open>BIO\<close> obtained has been freed exactly once, after its last use, in the reverse order.\<close>

theorem certificate_objects_released:
  "(case serve_session_owned pf srv observer ssl ([], t, st) of (r, calls, t', st') \<Rightarrow>
      serve_session pf srv observer ssl (t, st) = (r, t', st') \<and> unwind [] calls = Some []) \<and>
   (case client_session_owned pf ssl request ([], k) of (r, calls, k') \<Rightarrow>
      client_session pf ssl request k = (r, k') \<and> unwind [] calls = Some []) \<and>
   (case validate_certificate_profile_from_file_owned (pf_x509 pf) path ([], ()) of (r, calls, _) \<Rightarrow>
      validate_certificate_profile_from_file (pf_x509 pf) path = r \<and> unwind [] calls = Some [])"
  by (auto split: prod.splits dest: forgets_toD [OF forget_serve_session] tidy_run [OF tidy_serve_session]
      forgets_toD [OF forget_client_session] tidy_run [OF tidy_client_session]
      forgets_toD [OF forget_validate_file] tidy_run [OF tidy_validate_file])

end
