(* ===== verification/Pipe_Platform.thy ===== *)
theory Pipe_Platform
  imports Initiator Responder Certificate_Objects
begin

text \<open>
  An environment on which the program's theorems are run: one TLS connection as a pair of byte
  streams, what is still to be read and what has been written, a certificate that meets the
  profile, a clock that stands still and a stop flag that is set. It keeps what OpenSSL documents of
  its calls; a write takes at most a thousand bytes, so that longer messages need several.
\<close>

type_synonym pipes = "byte_buffer \<times> byte_buffer"

definition pipe_x509 :: x509_api where
  "pipe_x509 =
     \<lparr>X509_get_pubkey = (\<lambda>x. if x = 1 then Some 2 else None), EVP_PKEY_base_id = (\<lambda>_. 6), EVP_PKEY_RSA = 6,
      EVP_PKEY_get0_RSA = (\<lambda>k. Some 3), RSA_get0_key = (\<lambda>r. (Some 4, Some 5)),
      BN_num_bits = (\<lambda>_. 2048), BN_get_word = (\<lambda>_. 65537),
      X509_digest = (\<lambda>x. (1, [0xab, 0xcd])), X509_get_subject_name = (\<lambda>_. None),
      X509_get_issuer_name = (\<lambda>_. None), print_name = (\<lambda>_. None),
      read_pem = (\<lambda>path. if path = ''cert.pem'' then Some (Some 1) else None)\<rparr>"

definition pipe_ctx :: "unit ssl_ctx_api" where
  "pipe_ctx =
     \<lparr>SSL_CTX_new = (\<lambda>_. Some ()), SSL_CTX_set_cipher_list = (\<lambda>_ _. (1, ())),
      SSL_CTX_set_min_proto_version = (\<lambda>_ _. (1, ())), SSL_CTX_set_max_proto_version = (\<lambda>_ _. (1, ())),
      SSL_CTX_set_security_level = (\<lambda>_ _. ()), SSL_CTX_set_options = (\<lambda>_ _. ()),
      SSL_CTX_use_certificate_file = (\<lambda>_ _. (1, ())), SSL_CTX_use_PrivateKey_file = (\<lambda>_ _. (1, ())),
      SSL_CTX_check_private_key = (\<lambda>_. (1, ())), SSL_CTX_load_verify_locations = (\<lambda>_ _. (1, ())),
      SSL_CTX_set_verify = (\<lambda>_ _. ()), TLS1_VERSION = 0x301, SSL_OP_NO_COMPRESSION = 0x20000,
      SSL_VERIFY_NONE = 0, SSL_VERIFY_PEER = 1, SSL_VERIFY_FAIL_IF_NO_PEER_CERT = 2\<rparr>"

definition pipe_ssl :: "(pipes, unit) ssl_api" where
  "pipe_ssl =
     \<lparr>SSL_new = (\<lambda>_ k. (Some 0, k)), SSL_free = (\<lambda>_ k. k), SSL_set_fd = (\<lambda>_ _ k. k),
      SSL_accept = (\<lambda>_ k. (1, k)), SSL_connect = (\<lambda>_ k. (1, k)),
      SSL_get1_peer_certificate = (\<lambda>_ _. Some 1),
      SSL_read = (\<lambda>_ buf (i, s). let n = min (length buf) (length i) in
                    ((int n, take n i @ drop n buf), (drop n i, s))),
      SSL_write = (\<lambda>_ bs (i, s). let n = min 1000 (length bs) in (int n, (i, s @ take n bs))),
      SSL_get_error = (\<lambda>_ _ _. 6), ERR_get_error = (\<lambda>k. (0, k))\<rparr>"

definition pipe_posix :: "pipes posix_api" where
  "pipe_posix =
     \<lparr>px_socket = (\<lambda>k. (3, k)), px_reuse_addr = (\<lambda>_ k. (0, k)), px_bind = (\<lambda>_ _ k. (0, k)),
      px_listen = (\<lambda>_ _ k. (0, k)), px_accept = (\<lambda>_ k. (4, k)),
      px_getaddrinfo = (\<lambda>_ _ k. ((0, [0]), k)), px_connect = (\<lambda>_ _ k. (0, k)),
      px_close = (\<lambda>_ k. k), px_select = (\<lambda>_ k. (1, k)), px_strerror = (\<lambda>_. ''error''),
      px_eintr = (\<lambda>_. False), px_gai_strerror = (\<lambda>_. ''error'')\<rparr>"

definition pipe_platform :: "(pipes, unit) platform" where
  "pipe_platform =
     \<lparr>pf_x509 = pipe_x509, pf_ctx = pipe_ctx, pf_ssl = pipe_ssl, pf_posix = pipe_posix,
      pf_now = (\<lambda>k. (1776758400000000000, k)), pf_stop = (\<lambda>k. (True, k))\<rparr>"

definition pipe_sent :: "ssl \<Rightarrow> pipes \<Rightarrow> byte_buffer" where
  "pipe_sent _ k = snd k"

definition pipe_incoming :: "ssl \<Rightarrow> pipes \<Rightarrow> byte_buffer" where
  "pipe_incoming _ k = fst k"

lemma pipe_platform_simps [simp]:
  "pf_x509 pipe_platform = pipe_x509" "pf_ctx pipe_platform = pipe_ctx"
  "pf_ssl pipe_platform = pipe_ssl" "pf_posix pipe_platform = pipe_posix"
  "pf_now pipe_platform k = (1776758400000000000, k)" "pf_stop pipe_platform k = (True, k)"
  by (simp_all add: pipe_platform_def)

lemma pipe_writes: "ssl_writes pipe_ssl pipe_sent"
  by (auto simp: ssl_writes_def pipe_ssl_def pipe_sent_def Let_def)

lemma pipe_reads: "ssl_reads pipe_ssl pipe_incoming"
  by (auto simp: ssl_reads_def pipe_ssl_def pipe_incoming_def Let_def)

lemma pipe_writes_succeed: "writes_succeed pipe_ssl"
  by (auto simp: writes_succeed_def pipe_ssl_def Let_def)

lemma pipe_clock_silent: "clock_silent pipe_platform pipe_sent"
  by (simp add: clock_silent_def)

lemma pipe_profile_ok: "profile_ok pipe_x509 1"
  by (simp add: profile_ok_def pipe_x509_def)

lemma pipe_reads_available: "reads_available pipe_ssl pipe_incoming"
  by (auto simp: reads_available_def pipe_ssl_def pipe_incoming_def Let_def)

lemma pipe_connection: "connection_ok pipe_ssl pipe_sent pipe_incoming"
  by (simp add: connection_ok_def pipe_writes pipe_writes_succeed pipe_reads)
    (auto simp: pipe_ssl_def pipe_sent_def Let_def)

lemma pipe_write_all_from:
  "write_all_from pipe_ssl ssl bytes offset (i, s) = (Inr (), i, s @ drop offset bytes)"
proof (induction "length bytes - offset" arbitrary: offset s rule: less_induct)
  case less
  show ?case
  proof (cases "offset < length bytes")
    case False
    then show ?thesis by (simp add: write_all_from.simps)
  next
    case True
    let ?n = "min 1000 (length (drop offset bytes))"
    have call: "SSL_write pipe_ssl ssl (drop offset bytes) (i, s) = (int ?n, i, s @ take ?n (drop offset bytes))"
      by (simp add: pipe_ssl_def Let_def)
    have pos: "0 < ?n" and "length bytes - (offset + ?n) < length bytes - offset" using True by auto
    moreover have split: "take n (drop offset bytes) @ drop (offset + n) bytes = drop offset bytes" for n
      by (metis add.commute append_take_drop_id drop_drop)
    ultimately have "write_all_from pipe_ssl ssl bytes (offset + ?n) (i, s @ take ?n (drop offset bytes))
        = (Inr (), i, s @ drop offset bytes)"
      using less [of "offset + ?n" "s @ take ?n (drop offset bytes)"] by (simp only: append_assoc split)
    with pos show ?thesis by (simp add: write_all_from_step [OF True call] del: min_less_iff_conj length_drop)
  qed
qed

lemma pipe_write_all: "write_all pipe_ssl ssl bytes (i, s) = (Inr (), i, s @ bytes)"
  by (simp add: write_all_def pipe_write_all_from)

text \<open>What the check of a certificate file obtains, uses and frees when the certificate passes.\<close>

lemma pipe_certificate_calls:
  "validate_certificate_profile_from_file_owned pipe_x509 ''cert.pem'' ([], ()) =
     (Inr (), [Got Bio, Uses Bio, Got (Cert 1), Uses (Cert 1), Got (Pkey 2)] @ replicate 5 (Uses (Pkey 2))
        @ [Frees (Pkey 2), Frees (Cert 1), Frees Bio], ())"
  by code_simp

lemma pipe_peer:
  "read_peer_identity pipe_x509 (Some 1) = Inr \<lparr>peer_subject = [], peer_issuer = [], peer_thumbprint = ''abcd''\<rparr>"
  by code_simp

lemma pipe_accepted:
  "accepted pipe_platform ssl k k \<lparr>peer_subject = [], peer_issuer = [], peer_thumbprint = ''abcd''\<rparr>"
  unfolding accepted_def pipe_platform_simps
  by (rule exI [of _ 1], rule exI [of _ 1], intro conjI pipe_profile_ok pipe_peer) (simp_all add: pipe_ssl_def)

lemma pipe_connected:
  "connected pipe_platform ssl k k \<lparr>peer_subject = [], peer_issuer = [], peer_thumbprint = ''abcd''\<rparr>"
  unfolding connected_def pipe_platform_simps
  by (rule exI [of _ 1], rule exI [of _ 1], intro conjI pipe_profile_ok pipe_peer) (simp_all add: pipe_ssl_def)

lemma pipe_create_ctx:
  "create_ctx pipe_x509 pipe_ctx (tls_config_default\<lparr>certificate := ''cert.pem'', private_key := ''key.pem'',
     ca_certificate := ca\<rparr>) server ossl = (Inr (), log_call (Ctx_New True) (ensure_openssl_initialized ossl))"
  by (simp add: create_ctx_def tls_profile_apply_def tls_profile_configure_def pipe_ctx_def
      pipe_x509_def validate_certificate_profile_from_file_def validate_certificate_profile_def tls_config_default_def
      expect_def run_call_def load_own_key_def bindO_def)

lemmas pipe_create_server = pipe_create_ctx [where server = True, folded create_server_def]
  and pipe_create_client = pipe_create_ctx [where server = False, folded create_client_def]

text \<open>The server's state before any connection: no keys, nothing to read, OpenSSL not yet used.\<close>

definition pipe_state :: "byte_buffer \<Rightarrow> (any_key_store, pipes) server_state" where
  "pipe_state bytes =
     \<lparr>st_keys = Inl \<lparr>mem_keys = []\<rparr>, st_env = (bytes, []), st_openssl = openssl_fresh, st_traces = []\<rparr>"

lemma pipe_state_simps [simp]:
  "st_keys (pipe_state bytes) = Inl \<lparr>mem_keys = []\<rparr>" "st_env (pipe_state bytes) = (bytes, [])"
  "st_openssl (pipe_state bytes) = openssl_fresh" "st_traces (pipe_state bytes) = []"
  "any_ok (Inl \<lparr>mem_keys = []\<rparr>)"
  by (simp_all add: pipe_state_def memory_ok_def)

lemma pipe_state_env: "pipe_state bytes\<lparr>st_env := (bytes, [])\<rparr> = pipe_state bytes"
  by (simp add: pipe_state_def)

end
