(* ===== verification/Conversation.thy ===== *)
theory Conversation
  imports Pipe_Platform
begin

text \<open>
  The two programs together: a request the initiator builds, as the bytes the responder reads, and
  the responder's frame, as the bytes the initiator decodes and prints. Every answer but those about
  events has a bounded size, so that it fits the one read the client makes.
\<close>

section \<open>The size of an answer\<close>

text \<open>\<open>xml_bound n events\<close>: no event of the log is rendered in more than \<open>n\<close> characters.\<close>

definition xml_bound :: "nat \<Rightarrow> event_record list \<Rightarrow> bool" where
  "xml_bound n events \<longleftrightarrow> (\<forall>e\<in>set events. length (render_event_xml e) \<le> n)"

definition answer_bound :: "nat \<Rightarrow> nat \<Rightarrow> command \<Rightarrow> nat" where
  "answer_bound n events c =
     (case c of get_event_list \<Rightarrow> 13 + 4 * events | get_event_id \<Rightarrow> 5 + n | _ \<Rightarrow> 77)"

lemma response_lengths [codec_simps]:
  "length (query_spb_encode_response p) = 2" "length (encode_load_response \<lparr>load_overflow = b\<rparr>) = 1"
  "length (encode_query_id_response \<lparr>query_id_key_present = b\<rparr>) = 1"
  "length (encode_purge_id_response \<lparr>purge_id_no_key_id = b\<rparr>) = 1"
  "length (event_list_encode_response \<lparr>listed_event_ids = ids\<rparr>) = 8 + 4 * length ids"
  "length (encode_query_all_response \<lparr>query_all_key_ids = ids\<rparr>) = 8 + 4 * length ids"
  by (simp_all add: query_spb_encode_response_def encode_load_response_def encode_flag_def
      encode_query_id_response_def encode_purge_id_response_def event_list_encode_response_def
      event_encode_u32_batch_eq encode_query_all_response_def key_encode_u32_batch_eq
      u32_items.length_encode_batch)

lemma length_answer: "length (response_value (answer r p code)) = 5 + length p"
  by (simp add: response_value_def response_prefix_def)

lemma served_size:
  assumes "serves w m r raw resp m'" and "req_id r \<noteq> 0" and "req_command r \<noteq> bad_request"
    and "card (dom m) \<le> kCapacity" and "xml_bound n (w_events w)"
  shows "length (response_value resp) \<le> answer_bound n (length (w_events w)) (req_command r)"
  using assms(1)
proof cases
  case (window q)
  have "length (filter (in_window (time_start q) (time_stop q)) (w_events w)) \<le> length (w_events w)"
    by (rule length_filter_le)
  with window show ?thesis by (simp add: length_answer answer_bound_def codec_simps)
next
  case (event i e)
  then have "e \<in> set (w_events w)" by (auto simp: find_Some_iff)
  with event assms(5) show ?thesis
    by (simp add: length_answer answer_bound_def xml_bound_def event_id_encode_response_def)
next
  case (query_all ids)
  then have "length ids \<le> kCapacity" using assms(4) distinct_card [of ids] by simp
  with query_all show ?thesis by (simp add: length_answer answer_bound_def codec_simps kCapacity_def)
qed (use assms(2,3) in \<open>simp_all add: length_answer answer_bound_def codec_simps\<close>)

text \<open>The initiator's own frames fit one read, and a reply to one is never a rejection.\<close>

lemma request_frame_short:
  assumes "build_request c argv = Inr r" and "c \<noteq> bad_request"
  shows "\<exists>bytes. encode_request_frame r = Inr bytes \<and> bytes \<noteq> [] \<and> length bytes \<le> 4096"
proof -
  obtain bytes where b: "encode_request_frame r = Inr bytes" "length bytes \<le> 4096"
    using encode_request_frame_total [of r] build_request_length [OF assms(1)] build_request_shape [OF assms(1)]
      assms(2) by auto
  then have "decode_request_frame bytes = Inr r" by (simp add: request_frame_iff)
  then have "bytes \<noteq> []" by (auto simp: decode_request_frame_def klv_decode_def)
  with b show ?thesis by blast
qed

lemma replies_to_initiator:
  assumes "build_request c argv = Inr r" and "c \<noteq> bad_request" and "encode_request_frame r = Inr bytes"
    and "card (dom m) \<le> kCapacity" and "xml_bound n (w_events w)"
    and "answer_bound n (length (w_events w)) c < 2 ^ 24"
    and "replies w m bytes resp m'"
  shows "serves w m r bytes resp m'"
proof -
  note shape = build_request_shape [OF assms(1)]
  have d: "decode_request_frame bytes = Inr r" using assms(3) by (simp add: request_frame_iff)
  have small: False if "serves w m r bytes big m" "2 ^ 24 \<le> length (response_value big)" for big
    using served_size [OF that(1) _ _ assms(4,5)] that(2) shape assms(2,6) by simp
  from assms(7) d show ?thesis
    using build_request_not_malformed [OF assms(1)] small by (auto simp: replies_def)
qed

text \<open>Whichever reply it is, only the refusal of a reversed window cannot be printed.\<close>

lemma served_command: "serves w m r raw resp m' \<Longrightarrow> req_id r \<noteq> 0 \<Longrightarrow> resp_command resp = req_command r"
  by (erule serves.cases) simp_all

lemma reply_printed:
  assumes "build_request c argv = Inr r" and "encode_request_frame r = Inr bytes"
    and "length (w_events w) < 2 ^ 32" and "card (dom m) \<le> kCapacity" and "replies w m bytes resp m'"
  shows "(\<exists>text. response_text \<lparr>cx_response = resp, cx_thumbprint = tp\<rparr> = Inr text) \<longleftrightarrow>
    \<not> (resp_command resp = get_event_list \<and> resp_code resp = invalid)"
proof -
  have d: "decode_request_frame bytes = Inr r" using assms(2) by (simp add: request_frame_iff)
  consider "serves w m r bytes resp m'" | "resp = rejected bytes"
    using assms(5) d by (auto simp: replies_def)
  then show ?thesis
  proof cases
    case 1
    have "resp_command resp = c" using served_command [OF 1] build_request_shape [OF assms(1)] by simp
    with served_payload_text [OF 1 assms(1,3,4)] show ?thesis by (simp add: response_text_def mapE_eq_Inr)
  next
    case 2
    then show ?thesis by (simp add: response_text_def payload_text_def)
  qed
qed

lemma decode_response_frame_length:
  assumes "decode_response_frame frame = Inr resp"
  shows "length frame = 20 + length (response_value resp)"
proof -
  obtain p where p: "klv_decode frame = Inr p" "codec_decode_response p = Inr resp"
    using assms by (auto simp: decode_response_frame_def bindE_eq_Inr)
  have "packet_value p = response_value resp" by (rule codec_decode_response_Inr(3) [OF p(2)])
  with klv_decode_Inr(2) [OF p(1)] show ?thesis by (metis length_klv_frame)
qed

end
