(* ===== verification/Session_Traces.thy ===== *)
theory Session_Traces
  imports Tls_Server
begin

text \<open>
  What the observer of \<^verbatim>\<open>TlsServer::run\<close> is told: a session reports its trace as its last step,
  a session that throws is reported by the loop, and nothing else reports. So every accepted connection is
  reported exactly once, as long as the observer does not throw; what it throws counts as a failure of the
  session, which is reported to it again, and what it throws then ends the loop.
\<close>

section \<open>Steps that report nothing\<close>

abbreviation unreported :: "('s, 'k, 'a) session_op \<Rightarrow> bool" where
  "unreported m \<equiv> keeps (\<lambda>s. st_traces (snd s)) m"

lemma unreported_in_env: "unreported (in_env m)"
  by (rule keeps_in_env) simp

lemma unreported_in_keys: "unreported (in_keys m)"
  by (rule keeps_in_keys) simp

lemma unreported_service_clock: "unreported (service_clock pf r received)"
  by (simp add: service_clock_def read_clock_def unreported_in_env keeps_returnO)

lemmas unreported_rules = unreported_in_env unreported_in_keys unreported_service_clock

lemma unreported_answer_request: "unreported (answer_request pf srv ssl peer bytes)"
  unfolding answer_request_def serve_request_def serve_failure_def Let_def read_clock_def
  by (intro keeps_rules unreported_rules)

section \<open>Sessions report once\<close>

text \<open>
  What the observer was told over an operation: one trace when it returned; when it threw none, or one
  whose report is what threw.
\<close>

definition reported :: "'k session_observer \<Rightarrow> unit result \<Rightarrow> session_trace list \<Rightarrow> session_trace list \<Rightarrow> bool" where
  "reported f r before after \<longleftrightarrow>
     (case r of
        Inr _ \<Rightarrow> (\<exists>trace. after = before @ [trace])
      | Inl e \<Rightarrow> after = before \<or> (\<exists>trace k. after = before @ [trace] \<and> fst (f trace k) = Inl e))"

lemma reported_simps [simp]:
  "reported f (Inr u) before after \<longleftrightarrow> (\<exists>trace. after = before @ [trace])"
  "reported f (Inl e) before after \<longleftrightarrow>
     after = before \<or> (\<exists>trace k. after = before @ [trace] \<and> fst (f trace k) = Inl e)"
  by (simp_all add: reported_def)

definition reports_once :: "'k session_observer \<Rightarrow> ('s, 'k, unit) session_op \<Rightarrow> bool" where
  "reports_once f m \<longleftrightarrow>
     (\<forall>t st r t' st'. m (t, st) = (r, t', st') \<longrightarrow> reported f r (st_traces st) (st_traces st'))"

lemma reports_onceI:
  "(\<And>t st r t' st'. m (t, st) = (r, t', st') \<Longrightarrow> reported f r (st_traces st) (st_traces st')) \<Longrightarrow> reports_once f m"
  unfolding reports_once_def by blast

lemma reports_onceD:
  "reports_once f m \<Longrightarrow> m (t, st) = (r, t', st') \<Longrightarrow> reported f r (st_traces st) (st_traces st')"
  unfolding reports_once_def by blast

lemma reports_once_bindO:
  assumes "unreported m" and "\<And>x. reports_once f (g x)"
  shows "reports_once f (bindO m g)"
proof (rule reports_onceI)
  fix t st r t' st' assume run: "bindO m g (t, st) = (r, t', st')"
  obtain x t1 st1 where m: "m (t, st) = (x, t1, st1)" by (metis prod.exhaust)
  have same: "st_traces st1 = st_traces st" using keepsD [OF assms(1) m] by simp
  show "reported f r (st_traces st) (st_traces st')"
  proof (cases x)
    case (Inl e)
    with run m same show ?thesis by (auto simp: bindO_def)
  next
    case (Inr y)
    with run m have "g y (t1, st1) = (r, t', st')" by (simp add: bindO_def)
    from reports_onceD [OF assms(2) this] same show ?thesis by simp
  qed
qed

lemma reports_once_notify:
  "reports_once f (\<lambda>(trace, st). case notify (Some f) trace st of (r, st') \<Rightarrow> (r, trace, st'))"
proof (rule reports_onceI)
  fix trace st r t' st'
  assume run: "(case (trace, st) of (trace, st) \<Rightarrow> case notify (Some f) trace st of (r, st') \<Rightarrow> (r, trace, st'))
      = (r, t', st')"
  obtain x k where f: "f trace (st_env st) = (x, k)" by (cases "f trace (st_env st)")
  with run have "r = x" and "st_traces st' = st_traces st @ [trace]" by (auto simp: notify_def)
  moreover have "fst (f trace (st_env st)) = x" using f by simp
  ultimately show "reported f r (st_traces st) (st_traces st')" by (cases x) auto
qed

lemma reports_once_session: "reports_once f (serve_session pf srv (Some f) ssl)"
  unfolding serve_session_def
  by (intro reports_once_bindO keeps_rules unreported_rules unreported_answer_request reports_once_notify)

text \<open>
  A session that would return without an observer has an observer's report as its last step, and ends as that
  report does: with what the observer throws.
\<close>

definition continues ::
    "(session_trace \<times> ('s, 'k) server_state \<Rightarrow> unit result \<times> session_trace \<times> ('s, 'k) server_state)
       \<Rightarrow> ('s, 'k, unit) session_op \<Rightarrow> ('s, 'k, unit) session_op \<Rightarrow> bool" where
  "continues F g h \<longleftrightarrow> (\<forall>s s'. g s = (Inr (), s') \<longrightarrow> h s = F s')"

lemma continuesI: "(\<And>s s'. g s = (Inr (), s') \<Longrightarrow> h s = F s') \<Longrightarrow> continues F g h"
  by (simp add: continues_def)

lemma continues_bindO:
  assumes "\<And>x. continues F (g x) (h x)"
  shows "continues F (bindO m g) (bindO m h)"
proof (rule continuesI)
  fix s s' assume run: "bindO m g s = (Inr (), s')"
  then obtain x s1 where "m s = (Inr x, s1)" "g x s1 = (Inr (), s')" by (rule bindO_InrE)
  then show "bindO m h s = F s'" using assms [of x] unfolding continues_def bindO_def by (cases s1, cases s') simp
qed

definition report :: "'k session_observer
    \<Rightarrow> session_trace \<times> ('s, 'k) server_state \<Rightarrow> unit result \<times> session_trace \<times> ('s, 'k) server_state" where
  "report f = (\<lambda>(trace, st). case notify (Some f) trace st of (r, st') \<Rightarrow> (r, trace, st'))"

lemma session_continues: "continues (report f) (serve_session pf srv None ssl) (serve_session pf srv (Some f) ssl)"
  unfolding serve_session_def
  by (intro continues_bindO) (auto simp: continues_def report_def notify_def)

lemma serve_session_observed:
  assumes "serve_session pf srv None ssl (t, st) = (Inr (), trace, st1)" and "f trace (st_env st1) = (r, k)"
  shows "serve_session pf srv (Some f) ssl (t, st) =
    (r, trace, st1\<lparr>st_env := k, st_traces := st_traces st @ [trace]\<rparr>)"
proof -
  have none: "unreported (\<lambda>(trace, st). case notify None trace st of (r, st') \<Rightarrow> (r, trace, st'))"
    by (simp add: keeps_def notify_def)
  have "unreported (serve_session pf srv None ssl)"
    unfolding serve_session_def by (intro keeps_rules unreported_rules unreported_answer_request none)
  from keepsD [OF this assms(1)] have "st_traces st1 = st_traces st" by simp
  then show ?thesis
    using session_continues [of f pf srv ssl] assms by (simp add: continues_def report_def notify_def)
qed

lemma serve_connection_reports:
  assumes "serve_connection pf srv (Some f) ctx fd st = (r, st')"
  shows "reported f r (st_traces st) (st_traces st')"
proof -
  obtain h k1 where new: "SSL_new (pf_ssl pf) ctx (st_env st) = (h, k1)"
    by (cases "SSL_new (pf_ssl pf) ctx (st_env st)")
  show ?thesis
  proof (cases h)
    case None
    with new assms show ?thesis by (auto simp: serve_connection_def)
  next
    case (Some ssl)
    let ?st = "st\<lparr>st_env := SSL_set_fd (pf_ssl pf) ssl fd k1\<rparr>"
    obtain x t1 st1 where e: "serve_session pf srv (Some f) ssl (session_trace_default, ?st) = (x, t1, st1)"
      by (metis prod.exhaust)
    have "r = x" "st_traces st' = st_traces st1"
      using assms by (auto simp: serve_connection_def new Some Let_def e)
    with reports_onceD [OF reports_once_session e] show ?thesis by simp
  qed
qed

lemma serve_client_reports:
  assumes "serve_client pf srv (Some f) fd st = (r, st')"
  shows "reported f r (st_traces st) (st_traces st')"
proof -
  obtain c ossl where c: "create_server (pf_x509 pf) (pf_ctx pf) (srv_config srv) (st_openssl st) = (c, ossl)"
    by (cases "create_server (pf_x509 pf) (pf_ctx pf) (srv_config srv) (st_openssl st)")
  show ?thesis
  proof (cases c)
    case (Inl e)
    with assms c show ?thesis by (auto simp: serve_client_def)
  next
    case (Inr ctx)
    obtain x st1 where e: "serve_connection pf srv (Some f) ctx fd (st\<lparr>st_openssl := ossl\<rparr>) = (x, st1)"
      by (cases "serve_connection pf srv (Some f) ctx fd (st\<lparr>st_openssl := ossl\<rparr>)")
    have "r = x" "st_traces st' = st_traces st1" using assms by (auto simp: serve_client_def c Inr e)
    with serve_connection_reports [OF e] show ?thesis by simp
  qed
qed

section \<open>A round that accepts a connection\<close>

definition never_throws :: "'k session_observer \<Rightarrow> bool" where
  "never_throws f \<longleftrightarrow> (\<forall>trace k. fst (f trace k) = Inr ())"

lemma never_throwsD: "never_throws f \<Longrightarrow> fst (f trace k) \<noteq> Inl e"
  by (simp add: never_throws_def)

lemma run_round_accepts:
  assumes "pf_stop pf (st_env st) = (False, k1)"
    and "px_select (pf_posix pf) (sock_fd sock) k1 = (ready, k2)" and "0 < ready"
    and "socket_accept (pf_posix pf) sock k2 = (Inr client, k3)"
  shows "run_round pf srv observer sock st = handle_client pf srv observer client (st\<lparr>st_env := k3\<rparr>)"
  using assms by (simp add: run_round_def)

lemma socket_close_accepted:
  assumes "socket_accept api sock k2 = (Inr client, k3)"
  shows "snd (socket_close api client k) = px_close api (sock_fd client) k"
proof -
  have "0 \<le> sock_fd client" using assms by (auto simp: socket_accept_def split: prod.splits if_splits)
  then show ?thesis by (simp add: socket_close_def)
qed

lemma handle_client_reported:
  assumes "never_throws f" and c: "serve_client pf srv (Some f) (sock_fd client) st = (r, st1)"
  shows "\<exists>trace st'. handle_client pf srv (Some f) client st = (None, st') \<and>
    st_traces st' = st_traces st @ [trace] \<and> st_keys st' = st_keys st1 \<and>
    st_env st' = snd (socket_close (pf_posix pf) client
      (case r of Inr _ \<Rightarrow> st_env st1 | Inl e \<Rightarrow> snd (f (session_trace_default\<lparr>tr_note := what e\<rparr>) (st_env st1)))) \<and>
    (\<forall>e. r = Inl e \<longrightarrow> trace = session_trace_default\<lparr>tr_note := what e\<rparr>)"
proof (cases r)
  case (Inl e)
  with serve_client_reports [OF c] assms(1) have same: "st_traces st1 = st_traces st"
    by (auto dest: never_throwsD)
  let ?t = "session_trace_default\<lparr>tr_note := what e\<rparr>"
  obtain x k where f: "f ?t (st_env st1) = (x, k)" by (cases "f ?t (st_env st1)")
  have "fst (f ?t (st_env st1)) = Inr ()" using assms(1) by (simp add: never_throws_def)
  with f have "x = Inr ()" by simp
  with f c Inl same show ?thesis by (simp add: handle_client_def notify_def)
next
  case (Inr u)
  with serve_client_reports [OF c] obtain trace where "st_traces st1 = st_traces st @ [trace]" by auto
  with Inr c show ?thesis by (simp add: handle_client_def)
qed

text \<open>An observer that throws at the report of a session that went well is told again, of a failure.\<close>

lemma serve_client_observer_throws:
  assumes "create_server (pf_x509 pf) (pf_ctx pf) (srv_config srv) (st_openssl st) = (Inr ctx, ossl)"
    and "SSL_new (pf_ssl pf) ctx (st_env st) = (Some ssl, k1)"
    and "serve_session pf srv None ssl
      (session_trace_default, st\<lparr>st_env := SSL_set_fd (pf_ssl pf) ssl fd k1, st_openssl := ossl\<rparr>) = (Inr (), trace, st1)"
    and "f trace (st_env st1) = (Inl ex, k2)"
  shows "\<exists>st2. serve_client pf srv (Some f) fd st = (Inl ex, st2) \<and> st_env st2 = SSL_free (pf_ssl pf) ssl k2 \<and>
    st_keys st2 = st_keys st1 \<and> st_traces st2 = st_traces st @ [trace]"
proof -
  have order: "st\<lparr>st_openssl := ossl, st_env := k\<rparr> = st\<lparr>st_env := k, st_openssl := ossl\<rparr>" for k
    by (cases st) simp
  have "serve_session pf srv (Some f) ssl
      (session_trace_default, st\<lparr>st_openssl := ossl, st_env := SSL_set_fd (pf_ssl pf) ssl fd k1\<rparr>) =
    (Inl ex, trace, st1\<lparr>st_env := k2, st_traces := st_traces st @ [trace]\<rparr>)"
    unfolding order using serve_session_observed [where f = f, OF assms(3,4)] by simp
  then show ?thesis
    by (simp add: serve_client_def assms(1,2) serve_connection_def free_context_def Let_def ssl_deleter_def)
qed

lemma handle_client_observer_throws:
  assumes "serve_client pf srv (Some f) (sock_fd client) st = (Inl ex, st2)"
    and "f (session_trace_default\<lparr>tr_note := what ex\<rparr>) (st_env st2) = (r, k)"
  shows "\<exists>st'. handle_client pf srv (Some f) client st = (case r of Inr _ \<Rightarrow> None | Inl ex' \<Rightarrow> Some (Inl ex'), st') \<and>
    st_env st' = snd (socket_close (pf_posix pf) client k) \<and> st_keys st' = st_keys st2 \<and>
    st_traces st' = st_traces st2 @ [session_trace_default\<lparr>tr_note := what ex\<rparr>]"
  using assms by (cases r) (simp_all add: handle_client_def notify_def close_socket_def)

end
