(* ===== verification/Descriptors.thy ===== *)
theory Descriptors
  imports Tls_Client Pipe_Platform
begin

text \<open>
  The descriptors of the process across whole operations of the program: the server's sessions, its
  accept loop, \<^verbatim>\<open>run\<close>, and the client's exchange. \<open>fds k\<close> is the set of descriptors that are
  open in the state \<open>k\<close> of the environment; \<open>fd_platform\<close> is what the system documents of it:
  \<^verbatim>\<open>socket\<close> and \<^verbatim>\<open>accept\<close> open a new one when they succeed, \<^verbatim>\<open>close\<close> closes
  the one it is given, and no other call opens or closes any (\<^verbatim>\<open>SSL_set_fd\<close> does not hand the
  descriptor over, so \<^verbatim>\<open>SSL_free\<close> does not close it).
\<close>

section \<open>What the system documents\<close>

definition opens_fd :: "('k \<Rightarrow> int set) \<Rightarrow> ('k \<Rightarrow> int \<times> 'k) \<Rightarrow> bool" where
  "opens_fd fds call \<longleftrightarrow> (\<forall>k fd k'. call k = (fd, k') \<longrightarrow>
     (if fd < 0 then fds k' = fds k else fd \<notin> fds k \<and> fds k' = insert fd (fds k)))"

definition leaves_fds :: "('k \<Rightarrow> int set) \<Rightarrow> ('k \<Rightarrow> 'r \<times> 'k) \<Rightarrow> bool" where
  "leaves_fds fds call \<longleftrightarrow> (\<forall>k rc k'. call k = (rc, k') \<longrightarrow> fds k' = fds k)"

definition fd_posix :: "'k posix_api \<Rightarrow> ('k \<Rightarrow> int set) \<Rightarrow> bool" where
  "fd_posix api fds \<longleftrightarrow> opens_fd fds (px_socket api) \<and> (\<forall>fd. opens_fd fds (px_accept api fd)) \<and>
     (\<forall>fd k. fds (px_close api fd k) = fds k - {fd}) \<and>
     (\<forall>fd. leaves_fds fds (px_reuse_addr api fd)) \<and> (\<forall>fd p. leaves_fds fds (px_bind api fd p)) \<and>
     (\<forall>fd b. leaves_fds fds (px_listen api fd b)) \<and> (\<forall>h p. leaves_fds fds (px_getaddrinfo api h p)) \<and>
     (\<forall>fd a. leaves_fds fds (px_connect api fd a)) \<and> (\<forall>fd. leaves_fds fds (px_select api fd))"

definition fd_ssl :: "('k, 'c) ssl_api \<Rightarrow> ('k \<Rightarrow> int set) \<Rightarrow> bool" where
  "fd_ssl api fds \<longleftrightarrow> (\<forall>c. leaves_fds fds (SSL_new api c)) \<and> (\<forall>x k. fds (SSL_free api x k) = fds k) \<and>
     (\<forall>x fd k. fds (SSL_set_fd api x fd k) = fds k) \<and> (\<forall>x. leaves_fds fds (SSL_accept api x)) \<and>
     (\<forall>x. leaves_fds fds (SSL_connect api x)) \<and> (\<forall>x b. leaves_fds fds (SSL_read api x b)) \<and>
     (\<forall>x b. leaves_fds fds (SSL_write api x b)) \<and> leaves_fds fds (ERR_get_error api)"

definition fd_platform :: "('k, 'c) platform \<Rightarrow> ('k \<Rightarrow> int set) \<Rightarrow> bool" where
  "fd_platform pf fds \<longleftrightarrow> fd_posix (pf_posix pf) fds \<and> fd_ssl (pf_ssl pf) fds \<and>
     leaves_fds fds (pf_now pf) \<and> leaves_fds fds (pf_stop pf)"

lemma leaves_fdsD: "leaves_fds fds call \<Longrightarrow> call k = (rc, k') \<Longrightarrow> fds k' = fds k"
  by (simp add: leaves_fds_def)

lemma opens_fdD:
  "opens_fd fds call \<Longrightarrow> call k = (fd, k') \<Longrightarrow>
     if fd < 0 then fds k' = fds k else fd \<notin> fds k \<and> fds k' = insert fd (fds k)"
  by (simp add: opens_fd_def)

lemma fd_posixD:
  assumes "fd_posix api fds"
  shows "fds (px_close api fd k) = fds k - {fd}"
    and "px_reuse_addr api fd k = (rc, k') \<Longrightarrow> fds k' = fds k"
    and "px_bind api fd p k = (rc, k') \<Longrightarrow> fds k' = fds k"
    and "px_listen api fd b k = (rc, k') \<Longrightarrow> fds k' = fds k"
    and "px_getaddrinfo api h s k = (res, k') \<Longrightarrow> fds k' = fds k"
    and "px_connect api fd a k = (rc, k') \<Longrightarrow> fds k' = fds k"
    and "px_select api fd k = (rc, k') \<Longrightarrow> fds k' = fds k"
  using assms by (simp_all add: fd_posix_def leaves_fdsD [where call = "px_reuse_addr api fd"]
      leaves_fdsD [where call = "px_bind api fd p"] leaves_fdsD [where call = "px_listen api fd b"]
      leaves_fdsD [where call = "px_getaddrinfo api h s"] leaves_fdsD [where call = "px_connect api fd a"]
      leaves_fdsD [where call = "px_select api fd"])

lemma fd_sslD:
  assumes "fd_ssl api fds"
  shows "SSL_new api c k = (x, k') \<Longrightarrow> fds k' = fds k" and "fds (SSL_free api ssl k) = fds k"
    and "fds (SSL_set_fd api ssl fd k) = fds k" and "SSL_accept api ssl k = (rc, k') \<Longrightarrow> fds k' = fds k"
    and "SSL_connect api ssl k = (rc, k') \<Longrightarrow> fds k' = fds k"
    and "SSL_read api ssl b k = (res, k') \<Longrightarrow> fds k' = fds k"
    and "SSL_write api ssl bs k = (rc, k') \<Longrightarrow> fds k' = fds k"
    and "ERR_get_error api k = (e, k') \<Longrightarrow> fds k' = fds k"
  using assms by (simp_all add: fd_ssl_def leaves_fdsD [where call = "SSL_new api c"]
      leaves_fdsD [where call = "SSL_accept api ssl"] leaves_fdsD [where call = "SSL_connect api ssl"]
      leaves_fdsD [where call = "SSL_read api ssl b"] leaves_fdsD [where call = "SSL_write api ssl bs"]
      leaves_fdsD [where call = "ERR_get_error api"])

section \<open>Sockets\<close>

lemma socket_accept_fds:
  assumes "fd_posix api fds" and "socket_accept api s k = (r, k')"
  shows "case r of Inl _ \<Rightarrow> fds k' = fds k
    | Inr c \<Rightarrow> 0 \<le> sock_fd c \<and> sock_fd c \<notin> fds k \<and> fds k' = insert (sock_fd c) (fds k)"
proof -
  obtain fd k1 where a: "px_accept api (sock_fd s) k = (fd, k1)" by (cases "px_accept api (sock_fd s) k")
  have "opens_fd fds (px_accept api (sock_fd s))" using assms(1) by (simp add: fd_posix_def)
  from this a have "if fd < 0 then fds k1 = fds k else fd \<notin> fds k \<and> fds k1 = insert fd (fds k)"
    by (rule opens_fdD)
  with assms(2) a show ?thesis by (auto simp: socket_accept_def split: if_splits)
qed

lemma make_tcp_socket_fds:
  assumes "fd_posix api fds" and "make_tcp_socket api k = (r, k')"
  shows "case r of Inl _ \<Rightarrow> fds k' = fds k
    | Inr c \<Rightarrow> 0 \<le> sock_fd c \<and> sock_fd c \<notin> fds k \<and> fds k' = insert (sock_fd c) (fds k)"
proof -
  obtain fd k1 where a: "px_socket api k = (fd, k1)" by (cases "px_socket api k")
  have "opens_fd fds (px_socket api)" using assms(1) by (simp add: fd_posix_def)
  from this a have "if fd < 0 then fds k1 = fds k else fd \<notin> fds k \<and> fds k1 = insert fd (fds k)"
    by (rule opens_fdD)
  with assms(2) a show ?thesis by (auto simp: make_tcp_socket_def split: if_splits)
qed

text \<open>Closing what was opened gives back the descriptors there were.\<close>

lemma close_opened:
  assumes "fd_posix api fds" and "0 \<le> sock_fd s" and "sock_fd s \<notin> before" and "fds k = insert (sock_fd s) before"
  shows "fds (snd (socket_close api s k)) = before"
  using assms fd_posixD(1) [OF assms(1)] by (simp add: socket_close_def)

lemma keeps_set_reuse_addr: "fd_posix api fds \<Longrightarrow> keeps fds (set_reuse_addr api s)"
  by (rule keepsI) (auto simp: set_reuse_addr_def dest: fd_posixD(2) split: prod.splits)

lemma keeps_bind_and_listen:
  assumes "fd_posix api fds"
  shows "keeps fds (bind_and_listen api s port backlog)"
proof (rule keepsI)
  fix k r k' assume run: "bind_and_listen api s port backlog k = (r, k')"
  obtain rc k1 where b: "px_bind api (sock_fd s) port k = (rc, k1)"
    by (cases "px_bind api (sock_fd s) port k")
  obtain rc' k2 where l: "px_listen api (sock_fd s) backlog k1 = (rc', k2)"
    by (cases "px_listen api (sock_fd s) backlog k1")
  from run fd_posixD(3) [OF assms b] fd_posixD(4) [OF assms l] show "fds k' = fds k"
    by (auto simp: bind_and_listen_def b l split: if_splits)
qed

lemma try_connect_fds: "fd_posix api fds \<Longrightarrow> try_connect api s addrs k = (b, k') \<Longrightarrow> fds k' = fds k"
proof (induction addrs arbitrary: k)
  case Nil
  then show ?case by simp
next
  case (Cons a addrs)
  obtain rc k1 where c: "px_connect api (sock_fd s) a k = (rc, k1)"
    by (cases "px_connect api (sock_fd s) a k")
  from fd_posixD(6) [OF Cons.prems(1) c] Cons c show ?case by (auto split: if_splits)
qed

lemma keeps_socket_connect:
  assumes "fd_posix api fds"
  shows "keeps fds (socket_connect api s host port)"
proof (rule keepsI)
  fix k r k' assume run: "socket_connect api s host port k = (r, k')"
  obtain rc results k1 where g: "px_getaddrinfo api host (dec_string port) k = ((rc, results), k1)"
    by (metis prod.exhaust)
  obtain b k2 where t: "try_connect api s results k1 = (b, k2)" by (cases "try_connect api s results k1")
  from run fd_posixD(5) [OF assms g] try_connect_fds [OF assms t] show "fds k' = fds k"
    by (auto simp: socket_connect_def g t split: if_splits)
qed

section \<open>Reading and writing\<close>

lemma keeps_expect_positive: "fd_ssl api fds \<Longrightarrow> keeps fds (ssl_expect_positive api rc ssl action)"
  by (rule keepsI)
    (auto simp: ssl_expect_positive_def Let_def dest: fd_sslD(8) split: prod.splits if_splits)

lemma write_all_from_fds:
  "fd_ssl api fds \<Longrightarrow> write_all_from api ssl bytes offset k = (r, k') \<Longrightarrow> fds k' = fds k"
proof (induction api ssl bytes offset k arbitrary: r k' rule: write_all_from.induct)
  case (1 api ssl bytes offset k)
  obtain rc k1 where w: "SSL_write api ssl (drop offset bytes) k = (rc, k1)"
    by (cases "SSL_write api ssl (drop offset bytes) k")
  obtain x k2 where e: "ssl_expect_positive api rc ssl ''SSL_write'' k1 = (x, k2)"
    by (cases "ssl_expect_positive api rc ssl ''SSL_write'' k1")
  have same: "fds k2 = fds k"
    using fd_sslD(7) [OF 1(2) w] keepsD [OF keeps_expect_positive [OF 1(2)] e] by simp
  show ?case
  proof (cases "offset < length bytes")
    case False
    with 1(3) show ?thesis by (simp add: write_all_from.simps)
  next
    case True
    show ?thesis
    proof (cases x)
      case (Inl a)
      with True 1(3) w e same show ?thesis by (simp add: write_all_from.simps [of api ssl bytes offset])
    next
      case (Inr u)
      with True 1(3) w e have "write_all_from api ssl bytes (offset + nat rc) k2 = (r, k')"
        by (simp add: write_all_from.simps [of api ssl bytes offset])
      from 1(1) [OF True w [symmetric] refl e [unfolded Inr, symmetric] refl 1(2) this] same show ?thesis by simp
    qed
  qed
qed

lemma keeps_write_all: "fd_ssl api fds \<Longrightarrow> keeps fds (write_all api ssl bytes)"
  by (rule keepsI) (simp add: write_all_def write_all_from_fds)

lemma keeps_read_one_message:
  assumes "fd_ssl api fds"
  shows "keeps fds (read_one_message api ssl)"
proof (rule keepsI)
  fix k r k' assume run: "read_one_message api ssl k = (r, k')"
  obtain rc out k1 where s: "SSL_read api ssl (replicate 4096 0) k = ((rc, out), k1)" by (metis prod.exhaust)
  obtain x k2 where e: "ssl_expect_positive api rc ssl ''SSL_read'' k1 = (x, k2)"
    by (cases "ssl_expect_positive api rc ssl ''SSL_read'' k1")
  from run fd_sslD(6) [OF assms s] keepsD [OF keeps_expect_positive [OF assms] e] show "fds k' = fds k"
    by (auto simp: read_one_message_def s e split: sum.splits)
qed

lemmas keeps_ssl_io = keeps_write_all keeps_read_one_message

lemmas keeps_socket_io = keeps_socket_connect keeps_set_reuse_addr keeps_bind_and_listen

lemma keeps_handshake:
  assumes "fd_ssl api fds" and "\<And>k rc k1. call k = (rc, k1) \<Longrightarrow> fds k1 = fds k"
  shows "keeps fds (\<lambda>k. case call k of (rc, k1) \<Rightarrow> ssl_expect_positive api rc ssl action k1)"
  by (rule keepsI)
    (auto split: prod.splits dest!: assms(2) keepsD [OF keeps_expect_positive [OF assms(1)]])

lemma keeps_pure: "keeps fds (\<lambda>k. (f k, k))"
  by (simp add: keeps_def)

section \<open>The client\<close>

lemma keeps_client_session:
  assumes "fd_platform pf fds"
  shows "keeps fds (client_session pf ssl request)"
proof -
  have s: "fd_ssl (pf_ssl pf) fds" using assms by (simp add: fd_platform_def)
  show ?thesis
    unfolding client_session_def client_helpers
    by (intro keeps_rules keeps_pure keeps_handshake [OF s] keeps_ssl_io [OF s] fd_sslD(5) [OF s])
qed

lemma keeps_client_exchange:
  assumes "fd_platform pf fds"
  shows "keeps fds (client_exchange pf ctx socket request)"
proof (rule keepsI)
  fix k r k' assume run: "client_exchange pf ctx socket request k = (r, k')"
  have s: "fd_ssl (pf_ssl pf) fds" using assms by (simp add: fd_platform_def)
  obtain h k1 where n: "SSL_new (pf_ssl pf) ctx k = (h, k1)" by (cases "SSL_new (pf_ssl pf) ctx k")
  note new = fd_sslD(1) [OF s n]
  show "fds k' = fds k"
  proof (cases h)
    case None
    with run n new show ?thesis by (simp add: client_exchange_def)
  next
    case (Some ssl)
    obtain x k2 where c: "client_session pf ssl request (SSL_set_fd (pf_ssl pf) ssl (sock_fd socket) k1) = (x, k2)"
      by (metis prod.exhaust)
    from keepsD [OF keeps_client_session [OF assms] c] new run show ?thesis
      by (auto simp: client_exchange_def n Some c client_helpers fd_sslD(2,3) [OF s])
  qed
qed

lemma keeps_client_connect:
  assumes "fd_platform pf fds"
  shows "keeps fds (client_connect pf ctx host port request)"
proof (rule keepsI)
  fix k r k' assume run: "client_connect pf ctx host port request k = (r, k')"
  have p: "fd_posix (pf_posix pf) fds" using assms by (simp add: fd_platform_def)
  obtain m k1 where mk: "make_tcp_socket (pf_posix pf) k = (m, k1)" by (cases "make_tcp_socket (pf_posix pf) k")
  note opened = make_tcp_socket_fds [OF p mk]
  show "fds k' = fds k"
  proof (cases m)
    case (Inl e)
    with run mk opened show ?thesis by (simp add: client_connect_def)
  next
    case m: (Inr s)
    let ?body = "bindO (socket_connect (pf_posix pf) s host port) (\<lambda>_. client_exchange pf ctx s request)"
    obtain x k2 where b: "?body k1 = (x, k2)" by (cases "?body k1")
    have "keeps fds ?body" by (intro keeps_rules keeps_socket_io [OF p] keeps_client_exchange [OF assms])
    from keepsD [OF this b] opened m have "fds k2 = insert (sock_fd s) (fds k)" by simp
    with close_opened [OF p, of s "fds k" k2] opened m
    show ?thesis using run by (auto simp: client_connect_def mk m b)
  qed
qed

lemma send_request_fds:
  assumes "fd_platform pf fds" and "send_request pf config host port request st = (r, st')"
  shows "fds (cl_env st') = fds (cl_env st)"
proof -
  obtain c ossl where c: "create_client (pf_x509 pf) (pf_ctx pf) config (cl_openssl st) = (c, ossl)"
    by (cases "create_client (pf_x509 pf) (pf_ctx pf) config (cl_openssl st)")
  show ?thesis
  proof (cases c)
    case (Inl e)
    with assms(2) c show ?thesis by (auto simp: send_request_def)
  next
    case (Inr ctx)
    obtain x k where b: "client_connect pf ctx host port request (cl_env st) = (x, k)"
      by (cases "client_connect pf ctx host port request (cl_env st)")
    with assms(2) c Inr have "cl_env st' = k" by (auto simp: send_request_def)
    with keepsD [OF keeps_client_connect [OF assms(1)] b] show ?thesis by simp
  qed
qed

section \<open>The server\<close>

text \<open>The same for operations inside a session, whose environment is a part of the state.\<close>

abbreviation session_fds :: "('k \<Rightarrow> int set) \<Rightarrow> session_trace \<times> ('s, 'k) server_state \<Rightarrow> int set" where
  "session_fds fds \<equiv> \<lambda>s. fds (st_env (snd s))"

lemma session_fds_in_env: "keeps fds m \<Longrightarrow> keeps (session_fds fds) (in_env m)"
  by (rule keeps_in_env, simp, rule keepsD)

lemma session_fds_in_keys: "keeps (session_fds fds) (in_keys m)"
  by (rule keeps_in_keys) simp

lemma session_fds_set_trace: "keeps (session_fds fds) (set_trace f)"
  by (simp add: keeps_def)

lemma keeps_clock: "leaves_fds fds (pf_now pf) \<Longrightarrow> keeps fds (\<lambda>k. case pf_now pf k of (now, k') \<Rightarrow> (Inr now, k'))"
  by (rule keepsI) (auto dest: leaves_fdsD split: prod.splits)

lemma session_fds_service_clock:
  "leaves_fds fds (pf_now pf) \<Longrightarrow> keeps (session_fds fds) (service_clock pf r received)"
  by (simp add: service_clock_def read_clock_def session_fds_in_env keeps_clock keeps_returnO)

lemmas session_rules = session_fds_in_env session_fds_in_keys session_fds_set_trace

lemma keeps_answer_request:
  assumes "fd_platform pf fds"
  shows "keeps (session_fds fds) (answer_request pf srv ssl peer bytes)"
proof -
  have s: "fd_ssl (pf_ssl pf) fds" and n: "leaves_fds fds (pf_now pf)"
    using assms by (simp_all add: fd_platform_def)
  show ?thesis
    unfolding answer_request_def serve_request_def serve_failure_def Let_def read_clock_def
    by (intro keeps_bindO keeps_catchO keeps_liftO session_rules keeps_ssl_io [OF s] keeps_clock [OF n]
        session_fds_service_clock [OF n])
qed

text \<open>An observer that neither opens nor closes a descriptor.\<close>

definition observer_leaves_fds :: "('k \<Rightarrow> int set) \<Rightarrow> 'k session_observer option \<Rightarrow> bool" where
  "observer_leaves_fds fds observer \<longleftrightarrow> (\<forall>f. observer = Some f \<longrightarrow> (\<forall>trace. leaves_fds fds (f trace)))"

lemma notify_fds:
  assumes "observer_leaves_fds fds observer" and "notify observer trace st = (r, st')"
  shows "fds (st_env st') = fds (st_env st)"
proof (cases observer)
  case None
  with assms(2) show ?thesis by (simp add: notify_def)
next
  case (Some f)
  obtain x k where f: "f trace (st_env st) = (x, k)" by (cases "f trace (st_env st)")
  have "leaves_fds fds (f trace)" using assms(1) Some by (simp add: observer_leaves_fds_def)
  note same = leaves_fdsD [OF this f]
  have "st_env st' = k" using assms(2) Some f by (auto simp: notify_def)
  with same show ?thesis by simp
qed

lemma keeps_report:
  assumes "observer_leaves_fds fds observer"
  shows "keeps (session_fds fds) (\<lambda>(trace, st). case notify observer trace st of (r, st') \<Rightarrow> (r, trace, st'))"
proof (rule keepsI)
  fix s r s'
  assume run: "(\<lambda>(trace, st). case notify observer trace st of (r, st') \<Rightarrow> (r, trace, st')) s = (r, s')"
  obtain x st' where n: "notify observer (fst s) (snd s) = (x, st')" by (cases "notify observer (fst s) (snd s)")
  with run have "s' = (fst s, st')" by (simp add: case_prod_beta)
  with notify_fds [OF assms n] show "session_fds fds s' = session_fds fds s" by simp
qed

lemma keeps_serve_session:
  assumes "fd_platform pf fds" and "observer_leaves_fds fds observer"
  shows "keeps (session_fds fds) (serve_session pf srv observer ssl)"
proof -
  have s: "fd_ssl (pf_ssl pf) fds" using assms by (simp add: fd_platform_def)
  show ?thesis
    unfolding serve_session_def
    by (intro keeps_bindO keeps_liftO session_rules keeps_ssl_io [OF s] keeps_pure keeps_report [OF assms(2)]
        keeps_handshake [OF s] fd_sslD(4) [OF s] keeps_answer_request [OF assms(1)])
qed

lemma serve_connection_fds:
  assumes "fd_platform pf fds" and "observer_leaves_fds fds observer"
    and "serve_connection pf srv observer ctx fd st = (r, st')"
  shows "fds (st_env st') = fds (st_env st)"
proof -
  have s: "fd_ssl (pf_ssl pf) fds" using assms(1) by (simp add: fd_platform_def)
  obtain h k1 where new: "SSL_new (pf_ssl pf) ctx (st_env st) = (h, k1)"
    by (cases "SSL_new (pf_ssl pf) ctx (st_env st)")
  note same = fd_sslD(1) [OF s new]
  show ?thesis
  proof (cases h)
    case None
    then have "st' = st\<lparr>st_env := k1\<rparr>" using assms(3) by (simp add: serve_connection_def new)
    then show ?thesis using same by simp
  next
    case (Some ssl)
    obtain x t1 st1 where e: "serve_session pf srv observer ssl
        (session_trace_default, st\<lparr>st_env := SSL_set_fd (pf_ssl pf) ssl fd k1\<rparr>) = (x, t1, st1)"
      by (metis prod.exhaust)
    have "fds (st_env st') = fds (st_env st1)"
      using assms(3) by (auto simp: serve_connection_def new Some Let_def e fd_sslD(2) [OF s])
    with keepsD [OF keeps_serve_session [OF assms(1,2)] e] same show ?thesis
      by (simp add: fd_sslD(3) [OF s])
  qed
qed

lemma serve_client_fds:
  assumes "fd_platform pf fds" and "observer_leaves_fds fds observer"
    and "serve_client pf srv observer fd st = (r, st')"
  shows "fds (st_env st') = fds (st_env st)"
proof -
  obtain c ossl where c: "create_server (pf_x509 pf) (pf_ctx pf) (srv_config srv) (st_openssl st) = (c, ossl)"
    by (cases "create_server (pf_x509 pf) (pf_ctx pf) (srv_config srv) (st_openssl st)")
  show ?thesis
  proof (cases c)
    case (Inl e)
    with assms c show ?thesis by (auto simp: serve_client_def)
  next
    case (Inr ctx)
    obtain x st1 where e: "serve_connection pf srv observer ctx fd (st\<lparr>st_openssl := ossl\<rparr>) = (x, st1)"
      by (cases "serve_connection pf srv observer ctx fd (st\<lparr>st_openssl := ossl\<rparr>)")
    have "st_env st' = st_env st1" using assms(3) by (auto simp: serve_client_def c Inr e)
    with serve_connection_fds [OF assms(1,2) e] show ?thesis by simp
  qed
qed

lemma handle_client_fds:
  assumes "fd_platform pf fds" and "observer_leaves_fds fds observer"
    and "0 \<le> sock_fd c" and "sock_fd c \<notin> before" and "fds (st_env st) = insert (sock_fd c) before"
    and "handle_client pf srv observer c st = (r, st')"
  shows "fds (st_env st') = before"
proof -
  have p: "fd_posix (pf_posix pf) fds" using assms(1) by (simp add: fd_platform_def)
  obtain x st1 where sc: "serve_client pf srv observer (sock_fd c) st = (x, st1)"
    by (cases "serve_client pf srv observer (sock_fd c) st")
  have closed: "fds (st_env (close_socket pf c st2)) = before" if "fds (st_env st2) = fds (st_env st1)" for st2
    using that serve_client_fds [OF assms(1,2) sc] close_opened [OF p assms(3,4)] assms(5) by simp
  show ?thesis
  proof (cases x)
    case (Inr u)
    with assms(6) sc have "st' = close_socket pf c st1" by (simp add: handle_client_def)
    with closed [OF refl] show ?thesis by simp
  next
    case (Inl ex)
    obtain y st2 where n: "notify observer (session_trace_default\<lparr>tr_note := what ex\<rparr>) st1 = (y, st2)"
      by (cases "notify observer (session_trace_default\<lparr>tr_note := what ex\<rparr>) st1")
    have "st' = close_socket pf c st2"
      using assms(6) sc Inl n by (auto simp: handle_client_def split: sum.splits)
    with closed [OF notify_fds [OF assms(2) n]] show ?thesis by simp
  qed
qed

lemma run_round_fds:
  assumes "fd_platform pf fds" and "observer_leaves_fds fds observer"
    and "run_round pf srv observer sock st = (x, st')"
  shows "fds (st_env st') = fds (st_env st)"
proof -
  have p: "fd_posix (pf_posix pf) fds" and stop: "leaves_fds fds (pf_stop pf)"
    using assms(1) by (simp_all add: fd_platform_def)
  obtain b k1 where b: "pf_stop pf (st_env st) = (b, k1)" by (cases "pf_stop pf (st_env st)")
  obtain n k2 where n: "px_select (pf_posix pf) (sock_fd sock) k1 = (n, k2)"
    by (cases "px_select (pf_posix pf) (sock_fd sock) k1")
  obtain b' k' where b': "pf_stop pf k2 = (b', k')" by (cases "pf_stop pf k2")
  obtain a k3 where a: "socket_accept (pf_posix pf) sock k2 = (a, k3)"
    by (cases "socket_accept (pf_posix pf) sock k2")
  note same = leaves_fdsD [OF stop b] fd_posixD(7) [OF p n] leaves_fdsD [OF stop b']
  note accepted = socket_accept_fds [OF p a]
  show ?thesis
  proof (cases "\<not> b \<and> 0 < n \<and> (\<exists>c. a = Inr c)")
    case True
    then obtain c where c: "a = Inr c" by blast
    have h: "handle_client pf srv observer c (st\<lparr>st_env := k3\<rparr>) = (x, st')"
      using assms(3) True by (simp add: run_round_def b n a c)
    have "fds (st_env st') = fds k2"
      using accepted c by (intro handle_client_fds [OF assms(1,2) _ _ _ h]) simp_all
    then show ?thesis using same by simp
  next
    case False
    with assms(3) same accepted show ?thesis
      by (auto simp: run_round_def b n b' a split: if_splits sum.splits)
  qed
qed

lemma rounds_fds:
  "fd_platform pf fds \<Longrightarrow> observer_leaves_fds fds observer \<Longrightarrow>
     rounds pf srv observer sock n st = (x, st') \<Longrightarrow> fds (st_env st') = fds (st_env st)"
proof (induction n arbitrary: st)
  case 0
  then show ?case by simp
next
  case (Suc n)
  obtain y st1 where r: "run_round pf srv observer sock st = (y, st1)" by (metis prod.exhaust)
  note one = run_round_fds [OF Suc.prems(1,2) r]
  show ?case
  proof (cases y)
    case None
    with Suc r one show ?thesis by simp
  next
    case (Some z)
    with Suc.prems(3) r one show ?thesis by simp
  qed
qed

lemma run_loop_fds:
  assumes "fd_platform pf fds" and "observer_leaves_fds fds observer"
    and "run_loop pf srv observer sock st = Some (r, st')"
  shows "fds (st_env st') = fds (st_env st)"
proof -
  obtain n where "rounds pf srv observer sock n st = (Some r, st')"
    using run_loop_rounds [OF assms(3)] by auto
  from rounds_fds [OF assms(1,2) this] show ?thesis .
qed

lemma server_listen_fds:
  assumes "fd_platform pf fds" and "observer_leaves_fds fds observer"
    and "server_listen pf srv observer st = Some (r, st')"
  shows "fds (st_env st') = fds (st_env st)"
proof -
  have p: "fd_posix (pf_posix pf) fds" using assms(1) by (simp add: fd_platform_def)
  obtain m k1 where mk: "make_tcp_socket (pf_posix pf) (st_env st) = (m, k1)"
    by (cases "make_tcp_socket (pf_posix pf) (st_env st)")
  note opened = make_tcp_socket_fds [OF p mk]
  show ?thesis
  proof (cases m)
    case (Inl e)
    then have "st' = st\<lparr>st_env := k1\<rparr>" using assms(3) by (simp add: server_listen_def mk)
    then show ?thesis using opened Inl by simp
  next
    case m: (Inr s)
    let ?listen = "bindO (set_reuse_addr (pf_posix pf) s) (\<lambda>_. bind_and_listen (pf_posix pf) s (srv_port srv) 16)"
    obtain x k2 where b: "?listen k1 = (x, k2)" by (cases "?listen k1")
    have "keeps fds ?listen" by (intro keeps_rules keeps_socket_io [OF p])
    from keepsD [OF this b] opened m have k2: "fds k2 = insert (sock_fd s) (fds (st_env st))" by simp
    have closed: "fds (st_env (close_socket pf s st1)) = fds (st_env st)"
      if "fds (st_env st1) = insert (sock_fd s) (fds (st_env st))" for st1
      using that opened m close_opened [OF p] by simp
    show ?thesis
    proof (cases x)
      case (Inl e)
      then have "st' = close_socket pf s (st\<lparr>st_env := k2\<rparr>)"
        using assms(3) by (simp add: server_listen_def mk m b)
      then show ?thesis using closed [of "st\<lparr>st_env := k2\<rparr>"] k2 by simp
    next
      case x: (Inr u)
      then obtain st1 where loop: "run_loop pf srv observer s (st\<lparr>st_env := k2\<rparr>) = Some (r, st1)"
        and st': "st' = close_socket pf s st1"
        using assms(3) by (auto simp: server_listen_def mk m b)
      from run_loop_fds [OF assms(1,2) loop] k2 closed [of st1] st' show ?thesis by simp
    qed
  qed
qed

lemma server_run_fds:
  assumes "fd_platform pf fds" and "observer_leaves_fds fds observer"
    and "server_run pf srv observer st = Some (r, st')"
  shows "fds (st_env st') = fds (st_env st)"
proof -
  obtain c ossl where c: "create_server (pf_x509 pf) (pf_ctx pf) (srv_config srv) (st_openssl st) = (c, ossl)"
    by (cases "create_server (pf_x509 pf) (pf_ctx pf) (srv_config srv) (st_openssl st)")
  show ?thesis
  proof (cases c)
    case (Inl e)
    with assms c show ?thesis by (auto simp: server_run_def)
  next
    case (Inr ctx)
    then obtain st1 where l: "server_listen pf srv observer (st\<lparr>st_openssl := ossl\<rparr>) = Some (r, st1)"
      and "st' = free_context ctx st1"
      using assms(3) c by (auto simp: server_run_def)
    with server_listen_fds [OF assms(1,2) l] show ?thesis by simp
  qed
qed

section \<open>An environment that keeps a ledger of descriptors\<close>

text \<open>The open descriptors as a list; a new one is larger than all of them.\<close>

definition ledger_next :: "int list \<Rightarrow> int" where
  "ledger_next ks = foldr max ks 2 + 1"

lemma ledger_next_fresh [simp]: "ledger_next ks \<notin> set ks" "\<not> ledger_next ks < 0"
proof -
  have "x \<in> set ks \<Longrightarrow> x \<le> foldr max ks 2" for x by (induction ks) auto
  then show "ledger_next ks \<notin> set ks" by (force simp: ledger_next_def)
  have "2 \<le> foldr max ks 2" by (induction ks) auto
  then show "\<not> ledger_next ks < 0" by (simp add: ledger_next_def)
qed

definition ledger_posix :: "int list posix_api" where
  "ledger_posix =
     \<lparr>px_socket = (\<lambda>k. (ledger_next k, ledger_next k # k)), px_reuse_addr = (\<lambda>_ k. (0, k)),
      px_bind = (\<lambda>_ _ k. (0, k)), px_listen = (\<lambda>_ _ k. (0, k)),
      px_accept = (\<lambda>_ k. (ledger_next k, ledger_next k # k)), px_getaddrinfo = (\<lambda>_ _ k. ((0, [0]), k)),
      px_connect = (\<lambda>_ _ k. (0, k)), px_close = (\<lambda>fd k. removeAll fd k), px_select = (\<lambda>_ k. (1, k)),
      px_strerror = (\<lambda>_. ''error''), px_eintr = (\<lambda>_. False), px_gai_strerror = (\<lambda>_. ''error'')\<rparr>"

text \<open>A connection that is lost while the response is read.\<close>

definition ledger_ssl :: "(int list, unit) ssl_api" where
  "ledger_ssl =
     \<lparr>SSL_new = (\<lambda>_ k. (Some 0, k)), SSL_free = (\<lambda>_ k. k), SSL_set_fd = (\<lambda>_ _ k. k),
      SSL_accept = (\<lambda>_ k. (1, k)), SSL_connect = (\<lambda>_ k. (1, k)),
      SSL_get1_peer_certificate = (\<lambda>_ _. Some 1), SSL_read = (\<lambda>_ buf k. ((0, buf), k)),
      SSL_write = (\<lambda>_ bs k. (int (length bs), k)), SSL_get_error = (\<lambda>_ _ _. 6), ERR_get_error = (\<lambda>k. (0, k))\<rparr>"

definition ledger_platform :: "(int list, unit) platform" where
  "ledger_platform =
     \<lparr>pf_x509 = pipe_x509, pf_ctx = pipe_ctx, pf_ssl = ledger_ssl, pf_posix = ledger_posix,
      pf_now = (\<lambda>k. (0, k)), pf_stop = (\<lambda>k. (True, k))\<rparr>"

lemma ledger_fd_platform: "fd_platform ledger_platform set"
  by (auto simp: fd_platform_def fd_posix_def fd_ssl_def opens_fd_def leaves_fds_def ledger_platform_def
      ledger_posix_def ledger_ssl_def)

section \<open>Properties\<close>

text \<open>C22: on every path, exceptions included, the program closes the descriptors it opens and no other:
the client's exchange, the server's session, each round of the accept loop and, when it returns, the whole
of \<^verbatim>\<open>run\<close> leave the process with the descriptors it had; an observer that throws changes
nothing of it.\<close>

theorem descriptors_released:
  assumes "fd_platform pf fds" and "observer_leaves_fds fds observer"
  shows "(send_request pf config host port request cl = (r, cl') \<longrightarrow> fds (cl_env cl') = fds (cl_env cl)) \<and>
    (serve_client pf srv observer fd st = (r1, st1) \<longrightarrow> fds (st_env st1) = fds (st_env st)) \<and>
    (run_round pf srv observer sock st = (r2, st2) \<longrightarrow> fds (st_env st2) = fds (st_env st)) \<and>
    (server_run pf srv observer st = Some (r3, st3) \<longrightarrow> fds (st_env st3) = fds (st_env st))"
  using send_request_fds [OF assms(1)] serve_client_fds [OF assms] run_round_fds [OF assms]
    server_run_fds [OF assms] by (intro conjI impI)

theorem descriptors_released_witness:
  "\<exists>e cl'. send_request ledger_platform (tls_config_default\<lparr>certificate := ''cert.pem'', private_key := ''key.pem'',
      ca_certificate := ''ca.pem''\<rparr>) ''host'' 1173 \<lparr>req_command = get_time, req_id = 1, req_payload = []\<rparr>
      \<lparr>cl_env = [0, 1, 2], cl_openssl = openssl_fresh\<rparr> = (Inl e, cl') \<and> set (cl_env cl') = {0, 1, 2}"
proof -
  let ?run = "send_request ledger_platform (tls_config_default\<lparr>certificate := ''cert.pem'', private_key := ''key.pem'',
      ca_certificate := ''ca.pem''\<rparr>) ''host'' 1173 \<lparr>req_command = get_time, req_id = 1, req_payload = []\<rparr>
      \<lparr>cl_env = [0, 1, 2], cl_openssl = openssl_fresh\<rparr>"
  obtain r cl' where run: "?run = (r, cl')" by (cases ?run)
  have "isl (fst ?run)" by code_simp
  then obtain e where "r = Inl e" using run by (cases r) simp_all
  moreover have "observer_leaves_fds set None" by (simp add: observer_leaves_fds_def)
  from descriptors_released [OF ledger_fd_platform this, THEN conjunct1, THEN mp, OF run]
  have "set (cl_env cl') = set [0, 1, 2]" by simp
  ultimately show ?thesis using run by auto
qed

end
