(* ===== verification/Contexts.thy ===== *)
theory Contexts
  imports Descriptors
begin

text \<open>
  OpenSSL across whole operations of the program: wherever a run starts, the library is initialised once,
  before the first context is asked for, and every context that is made is freed, on every way out.
\<close>

section \<open>Steps that do not concern the library\<close>

abbreviation session_openssl :: "session_trace \<times> ('s, 'k) server_state \<Rightarrow> openssl_state" where
  "session_openssl \<equiv> \<lambda>s. st_openssl (snd s)"

lemma openssl_in_env: "keeps session_openssl (in_env m)"
  by (rule keeps_in_env) simp

lemma openssl_in_keys: "keeps session_openssl (in_keys m)"
  by (rule keeps_in_keys) simp

lemma openssl_service_clock: "keeps session_openssl (service_clock pf r received)"
  by (simp add: service_clock_def read_clock_def openssl_in_env keeps_returnO)

lemma notify_openssl: "notify observer trace st = (r, st') \<Longrightarrow> st_openssl st' = st_openssl st"
  by (erule keepsD [OF keeps_notify, rotated]) simp

lemma openssl_report:
  "keeps session_openssl (\<lambda>(trace, st). case notify observer trace st of (r, st') \<Rightarrow> (r, trace, st'))"
proof (rule keepsI)
  fix s r s'
  assume run: "(\<lambda>(trace, st). case notify observer trace st of (r, st') \<Rightarrow> (r, trace, st')) s = (r, s')"
  obtain x st' where n: "notify observer (fst s) (snd s) = (x, st')" by (cases "notify observer (fst s) (snd s)")
  with run have "s' = (fst s, st')" by (simp add: case_prod_beta)
  with notify_openssl [OF n] show "session_openssl s' = session_openssl s" by simp
qed

lemmas openssl_rules = openssl_in_env openssl_in_keys openssl_service_clock openssl_report

lemma openssl_answer_request: "keeps session_openssl (answer_request pf srv ssl peer bytes)"
  unfolding answer_request_def serve_request_def serve_failure_def Let_def read_clock_def
  by (intro keeps_rules openssl_rules)

lemma openssl_session: "keeps session_openssl (serve_session pf srv observer ssl)"
  unfolding serve_session_def by (intro keeps_rules openssl_rules openssl_answer_request)

lemma serve_connection_openssl:
  assumes "serve_connection pf srv observer ctx fd st = (r, st')"
  shows "st_openssl st' = st_openssl st"
proof -
  obtain h k1 where new: "SSL_new (pf_ssl pf) ctx (st_env st) = (h, k1)"
    by (cases "SSL_new (pf_ssl pf) ctx (st_env st)")
  show ?thesis
  proof (cases h)
    case None
    then have "st' = st\<lparr>st_env := k1\<rparr>" using assms by (simp add: serve_connection_def new)
    then show ?thesis by simp
  next
    case (Some ssl)
    obtain x t1 st1 where e: "serve_session pf srv observer ssl
        (session_trace_default, st\<lparr>st_env := SSL_set_fd (pf_ssl pf) ssl fd k1\<rparr>) = (x, t1, st1)"
      by (metis prod.exhaust)
    have "st_openssl st' = st_openssl st1"
      using assms by (auto simp: serve_connection_def new Some Let_def e)
    with keepsD [OF openssl_session e] show ?thesis by simp
  qed
qed

section \<open>Steps that make and free contexts\<close>

text \<open>The library's state may only grow into one that is in order, with as many contexts as before.\<close>

definition balanced :: "openssl_state \<Rightarrow> openssl_state \<Rightarrow> bool" where
  "balanced ossl ossl' \<longleftrightarrow> openssl_ok ossl' \<and> live_contexts ossl' = live_contexts ossl \<and>
     (once_done ossl \<longrightarrow> once_done ossl')"

lemma balanced_refl: "openssl_ok ossl \<Longrightarrow> balanced ossl ossl"
  by (simp add: balanced_def)

lemma balanced_trans: "balanced a b \<Longrightarrow> balanced b c \<Longrightarrow> balanced a c"
  by (simp add: balanced_def)

lemma create_use_free:
  assumes "openssl_ok ossl" and "create_ctx x509 api config server ossl = (Inr ctx, ossl1)" and "balanced ossl1 ossl2"
  shows "balanced ossl (ssl_ctx_deleter (Some ctx) ossl2)" and "once_done (ssl_ctx_deleter (Some ctx) ossl2)"
  using create_ctx_openssl [OF assms(1,2)] assms(3) ssl_ctx_deleter_openssl [of ossl2 ctx]
  by (simp_all add: balanced_def)

lemma create_fails:
  assumes "openssl_ok ossl" and "create_ctx x509 api config server ossl = (Inl e, ossl1)"
  shows "balanced ossl ossl1" and "once_done ossl1"
  using create_ctx_openssl [OF assms] by (simp_all add: balanced_def)

lemma serve_client_openssl:
  assumes ok: "openssl_ok (st_openssl st)" and "serve_client pf srv observer fd st = (r, st')"
  shows "balanced (st_openssl st) (st_openssl st') \<and> once_done (st_openssl st')"
proof -
  obtain c ossl where c: "create_ctx (pf_x509 pf) (pf_ctx pf) (srv_config srv) True (st_openssl st) = (c, ossl)"
    by (cases "create_ctx (pf_x509 pf) (pf_ctx pf) (srv_config srv) True (st_openssl st)")
  show ?thesis
  proof (cases c)
    case (Inl e)
    with assms(2) c have "st_openssl st' = ossl" by (auto simp: serve_client_def create_server_def)
    with create_fails [OF ok c [unfolded Inl]] show ?thesis by simp
  next
    case (Inr ctx)
    obtain x st1 where e: "serve_connection pf srv observer ctx fd (st\<lparr>st_openssl := ossl\<rparr>) = (x, st1)"
      by (cases "serve_connection pf srv observer ctx fd (st\<lparr>st_openssl := ossl\<rparr>)")
    have "st_openssl st' = ssl_ctx_deleter (Some ctx) ossl"
      using assms(2) serve_connection_openssl [OF e] by (auto simp: serve_client_def create_server_def c Inr e)
    with create_use_free [OF ok c [unfolded Inr] balanced_refl] create_ctx_openssl [OF ok c]
    show ?thesis by simp
  qed
qed

lemma handle_client_openssl:
  assumes ok: "openssl_ok (st_openssl st)" and "handle_client pf srv observer sock st = (r, st')"
  shows "balanced (st_openssl st) (st_openssl st')"
proof -
  obtain x st1 where c: "serve_client pf srv observer (sock_fd sock) st = (x, st1)"
    by (cases "serve_client pf srv observer (sock_fd sock) st")
  have "st_openssl st' = st_openssl st1"
    using assms(2) by (auto simp: handle_client_def c dest: notify_openssl split: sum.splits prod.splits)
  with serve_client_openssl [OF ok c] show ?thesis by simp
qed

lemma run_round_openssl:
  assumes ok: "openssl_ok (st_openssl st)" and "run_round pf srv observer sock st = (r, st')"
  shows "balanced (st_openssl st) (st_openssl st')"
proof -
  have client: "balanced (st_openssl st) (st_openssl st1)"
    if "handle_client pf srv obs c (st\<lparr>st_env := k\<rparr>) = (x, st1)" for obs c k x st1
    using handle_client_openssl [OF _ that] ok by simp
  show ?thesis
    using assms(2) balanced_refl [OF ok]
    by (auto simp: run_round_def Let_def split: prod.splits if_splits sum.splits dest!: client)
qed

lemma rounds_openssl:
  "openssl_ok (st_openssl st) \<Longrightarrow> rounds pf srv observer sock n st = (r, st') \<Longrightarrow>
     balanced (st_openssl st) (st_openssl st')"
proof (induction n arbitrary: st)
  case 0
  then show ?case by (simp add: balanced_refl)
next
  case (Suc n)
  obtain x st1 where round: "run_round pf srv observer sock st = (x, st1)" by (metis prod.exhaust)
  note one = run_round_openssl [OF Suc.prems(1) round]
  show ?case
  proof (cases x)
    case None
    with Suc.prems(2) round have "rounds pf srv observer sock n st1 = (r, st')" by simp
    from Suc.IH [OF _ this] one show ?thesis by (simp add: balanced_def)
  next
    case (Some y)
    with Suc.prems(2) round one show ?thesis by simp
  qed
qed

lemma server_listen_openssl:
  assumes ok: "openssl_ok (st_openssl st)" and "server_listen pf srv observer st = Some (r, st')"
  shows "balanced (st_openssl st) (st_openssl st')"
proof -
  have loop: "balanced (st_openssl st) (st_openssl st1)"
    if "run_loop pf srv observer sock (st\<lparr>st_env := k\<rparr>) = Some (x, st1)" for sock k x st1
  proof -
    from run_loop_rounds [OF that]
    obtain n where "rounds pf srv observer sock n (st\<lparr>st_env := k\<rparr>) = (Some x, st1)" by auto
    from rounds_openssl [OF _ this] ok show ?thesis by simp
  qed
  show ?thesis
    using assms(2) balanced_refl [OF ok]
    by (auto simp: server_listen_def split: sum.splits prod.splits dest!: loop)
qed

lemma server_run_openssl:
  assumes ok: "openssl_ok (st_openssl st)" and "server_run pf srv observer st = Some (r, st')"
  shows "balanced (st_openssl st) (st_openssl st') \<and> once_done (st_openssl st')"
proof -
  obtain c ossl where c: "create_ctx (pf_x509 pf) (pf_ctx pf) (srv_config srv) True (st_openssl st) = (c, ossl)"
    by (cases "create_ctx (pf_x509 pf) (pf_ctx pf) (srv_config srv) True (st_openssl st)")
  show ?thesis
  proof (cases c)
    case (Inl e)
    with assms(2) c have "st_openssl st' = ossl" by (auto simp: server_run_def create_server_def)
    with create_fails [OF ok c [unfolded Inl]] show ?thesis by simp
  next
    case (Inr ctx)
    then obtain st1 where l: "server_listen pf srv observer (st\<lparr>st_openssl := ossl\<rparr>) = Some (r, st1)"
      and st': "st' = free_context ctx st1"
      using assms(2) c by (auto simp: server_run_def create_server_def)
    have "balanced ossl (st_openssl st1)"
      using server_listen_openssl [OF _ l] create_ctx_openssl [OF ok c] by simp
    with create_use_free [OF ok c [unfolded Inr]] st' show ?thesis by simp
  qed
qed

lemma send_request_openssl:
  assumes ok: "openssl_ok (cl_openssl st)" and "send_request pf config host port request st = (r, st')"
  shows "balanced (cl_openssl st) (cl_openssl st') \<and> once_done (cl_openssl st')"
proof -
  obtain c ossl where c: "create_ctx (pf_x509 pf) (pf_ctx pf) config False (cl_openssl st) = (c, ossl)"
    by (cases "create_ctx (pf_x509 pf) (pf_ctx pf) config False (cl_openssl st)")
  show ?thesis
  proof (cases c)
    case (Inl e)
    with assms(2) c have "cl_openssl st' = ossl" by (auto simp: send_request_def create_client_def)
    with create_fails [OF ok c [unfolded Inl]] show ?thesis by simp
  next
    case (Inr ctx)
    have "cl_openssl st' = ssl_ctx_deleter (Some ctx) ossl"
      using assms(2) by (auto simp: send_request_def create_client_def c Inr split: prod.splits)
    with create_use_free [OF ok c [unfolded Inr] balanced_refl] create_ctx_openssl [OF ok c]
    show ?thesis by simp
  qed
qed

section \<open>Properties\<close>

definition initialised_once :: "openssl_state \<Rightarrow> bool" where
  "initialised_once ossl \<longleftrightarrow> (\<exists>calls. openssl_log ossl = init_log @ calls \<and> list_all is_ctx_call calls)"

lemma once_done_initialised: "openssl_ok ossl \<Longrightarrow> once_done ossl \<Longrightarrow> initialised_once ossl"
  by (simp add: openssl_ok_def initialised_once_def)

text \<open>C33: however often a server or a client makes a context, OpenSSL is initialised once, with the two
calls of \<^verbatim>\<open>openssl_init.cpp\<close> and before the first \<^verbatim>\<open>SSL_CTX_new\<close>; and every context
made is freed again, whatever was thrown. This holds for the client's request, for one session and, when it
returns, for the whole of \<^verbatim>\<open>run\<close>.\<close>

theorem openssl_initialised_once:
  assumes "openssl_ok (cl_openssl cl)" and "openssl_ok (st_openssl st)"
  shows "(send_request pf' config host port request cl = (r, cl') \<longrightarrow>
      initialised_once (cl_openssl cl') \<and> live_contexts (cl_openssl cl') = live_contexts (cl_openssl cl)) \<and>
    (serve_client pf srv observer fd st = (r1, st1) \<longrightarrow>
      initialised_once (st_openssl st1) \<and> live_contexts (st_openssl st1) = live_contexts (st_openssl st)) \<and>
    (server_run pf srv observer st = Some (r2, st2) \<longrightarrow>
      initialised_once (st_openssl st2) \<and> live_contexts (st_openssl st2) = live_contexts (st_openssl st))"
  using send_request_openssl [OF assms(1)] serve_client_openssl [OF assms(2)] server_run_openssl [OF assms(2)]
    once_done_initialised
  unfolding balanced_def by (intro conjI impI) blast+

theorem openssl_initialised_once_witness:
  "\<exists>r cl'. send_request ledger_platform (tls_config_default\<lparr>certificate := ''cert.pem'', private_key := ''key.pem'',
      ca_certificate := ''ca.pem''\<rparr>) ''host'' 1173 \<lparr>req_command = get_time, req_id = 1, req_payload = []\<rparr>
      \<lparr>cl_env = [0, 1, 2], cl_openssl = openssl_fresh\<rparr> = (r, cl') \<and>
    initialised_once (cl_openssl cl') \<and> live_contexts (cl_openssl cl') = 0"
proof -
  let ?cl = "\<lparr>cl_env = [0, 1, 2], cl_openssl = openssl_fresh\<rparr> :: int list client_state"
  let ?run = "send_request ledger_platform (tls_config_default\<lparr>certificate := ''cert.pem'', private_key := ''key.pem'',
      ca_certificate := ''ca.pem''\<rparr>) ''host'' 1173 \<lparr>req_command = get_time, req_id = 1, req_payload = []\<rparr> ?cl"
  obtain r cl' where run: "?run = (r, cl')" by (cases ?run)
  have ok: "openssl_ok (cl_openssl ?cl)" "openssl_ok (st_openssl (pipe_state []))" by simp_all
  from openssl_initialised_once [OF ok, THEN conjunct1, THEN mp, OF run]
  have "initialised_once (cl_openssl cl')" "live_contexts (cl_openssl cl') = 0" by simp_all
  with run show ?thesis by blast
qed

end
