(* ===== verification/Store_Simulation.thy ===== *)
theory Store_Simulation
  imports Responder
begin

text \<open>
  One key store that behaves like another, operation by operation: \<open>view\<close> takes a state of the first to the
  state of the second it stands for, and every operation gives the same result on both, order of the listed
  ids and exceptions included. The service over the one then answers every sequence of requests as the
  service over the other. The store behind a file behaves like the one in memory.
\<close>

section \<open>Operations that agree\<close>

definition op_sim :: "('s \<Rightarrow> bool) \<Rightarrow> ('s \<Rightarrow> 't) \<Rightarrow> ('s, 'a) op \<Rightarrow> ('t, 'a) op \<Rightarrow> bool" where
  "op_sim ok view m m' \<longleftrightarrow> (\<forall>s r s'. ok s \<and> m s = (r, s') \<longrightarrow> m' (view s) = (r, view s') \<and> ok s')"

named_theorems op_sim_rules

lemma op_simI: "(\<And>s r s'. ok s \<Longrightarrow> m s = (r, s') \<Longrightarrow> m' (view s) = (r, view s') \<and> ok s') \<Longrightarrow> op_sim ok view m m'"
  unfolding op_sim_def by blast

lemma op_simD: "op_sim ok view m m' \<Longrightarrow> ok s \<Longrightarrow> m s = (r, s') \<Longrightarrow> m' (view s) = (r, view s') \<and> ok s'"
  by (simp add: op_sim_def)

lemma op_sim_returnO [op_sim_rules]: "op_sim ok view (returnO x) (returnO x)"
  by (simp add: op_sim_def)

lemma op_sim_liftO [op_sim_rules]: "op_sim ok view (liftO x) (liftO x)"
  by (cases x) (simp_all add: op_sim_def)

lemma op_sim_bindO [op_sim_rules]:
  assumes "op_sim ok view m m'" and "\<And>x. op_sim ok view (f x) (f' x)"
  shows "op_sim ok view (bindO m f) (bindO m' f')"
proof (rule op_simI)
  fix s r s' assume ok: "ok s" and run: "bindO m f s = (r, s')"
  obtain x s1 where m: "m s = (x, s1)" by (cases "m s")
  from op_simD [OF assms(1) ok m] have m': "m' (view s) = (x, view s1)" and ok1: "ok s1" by simp_all
  show "bindO m' f' (view s) = (r, view s') \<and> ok s'"
  proof (cases x)
    case (Inl e)
    with run m m' ok1 show ?thesis by (simp add: bindO_def)
  next
    case (Inr y)
    with run m have "f y s1 = (r, s')" by (simp add: bindO_def)
    from op_simD [OF assms(2) ok1 this] Inr m' show ?thesis by (simp add: bindO_def)
  qed
qed

lemma op_sim_read: "(\<And>s. ok s \<Longrightarrow> g s = g' (view s)) \<Longrightarrow> op_sim ok view (\<lambda>s. (g s, s)) (\<lambda>t. (g' t, t))"
  by (simp add: op_sim_def)

section \<open>Stores that agree\<close>

text \<open>A client's requests, each with the clock, the raw bytes and the context it is handled with.\<close>

type_synonym service_call = "int \<times> standard_request \<times> byte_buffer \<times> request_context"

primrec serve_all :: "'s asm_service \<Rightarrow> service_call list \<Rightarrow> 's \<Rightarrow> service_result result list \<times> 's" where
  "serve_all svc [] s = ([], s)"
| "serve_all svc (call # calls) s =
     (case call of (now, request, raw, context) \<Rightarrow>
      case handle_request svc now request raw context s of (r, s1) \<Rightarrow>
      case serve_all svc calls s1 of (rs, s2) \<Rightarrow> (r # rs, s2))"

locale store_simulation =
  fixes concrete :: "'s le_key_store" and abstract :: "'t le_key_store"
    and view :: "'s \<Rightarrow> 't" and ok :: "'s \<Rightarrow> bool"
  assumes load_sim: "op_sim ok view (load_keys concrete ks) (load_keys abstract ks)"
    and contains_sim: "ok s \<Longrightarrow> contains_key concrete i s = contains_key abstract i (view s)"
    and list_sim: "ok s \<Longrightarrow> list_key_ids concrete s = list_key_ids abstract (view s)"
    and purge_sim: "op_sim ok view (purge_key concrete i) (purge_key abstract i)"
    and purge_all_sim: "op_sim ok view (purge_all concrete) (purge_all abstract)"
begin

lemma handle_request_sim:
  assumes "key_store svc = concrete" and "key_store svc' = abstract"
    and "event_log svc' = event_log svc" and "spb_provider svc' = spb_provider svc"
  shows "op_sim ok view (handle_request svc now request raw context) (handle_request svc' now request raw context)"
proof -
  have load: "op_sim ok view (handle_le_key_load svc request) (handle_le_key_load svc' request)"
    unfolding handle_le_key_load_def assms by (intro op_sim_rules load_sim)
  have query: "op_sim ok view (handle_le_key_query_id svc request) (handle_le_key_query_id svc' request)"
    unfolding handle_le_key_query_id_def assms by (rule op_sim_read) (simp add: contains_sim)
  have query_all: "op_sim ok view (handle_le_key_query_all svc request) (handle_le_key_query_all svc' request)"
    unfolding handle_le_key_query_all_def assms by (rule op_sim_read) (simp add: list_sim)
  have purge: "op_sim ok view (handle_le_key_purge_id svc request) (handle_le_key_purge_id svc' request)"
    unfolding handle_le_key_purge_id_def assms by (intro op_sim_rules purge_sim)
  have purge_all: "op_sim ok view (handle_le_key_purge_all svc request) (handle_le_key_purge_all svc' request)"
    unfolding handle_le_key_purge_all_def assms
    by (cases "req_payload request = []") (simp_all add: op_sim_bindO purge_all_sim op_sim_returnO)
  have rest: "handle_get_event_list svc' request = handle_get_event_list svc request"
    "handle_get_event_id svc' request = handle_get_event_id svc request"
    "handle_query_spb svc' request = handle_query_spb svc request"
    unfolding handle_get_event_list_def handle_get_event_id_def handle_query_spb_def assms(3,4) by (rule refl)+
  show ?thesis
    by (cases "req_command request"; cases "req_id request = 0")
      (simp_all add: handle_request_def rest load query query_all purge purge_all op_sim_returnO op_sim_liftO)
qed

lemma serve_all_sim:
  assumes "key_store svc = concrete" and "key_store svc' = abstract"
    and "event_log svc' = event_log svc" and "spb_provider svc' = spb_provider svc"
  shows "ok s \<Longrightarrow> serve_all svc calls s = (rs, s') \<Longrightarrow> serve_all svc' calls (view s) = (rs, view s') \<and> ok s'"
proof (induction calls arbitrary: s rs s')
  case Nil
  then show ?case by simp
next
  case (Cons call calls)
  obtain now request raw ctx where call: "call = (now, request, raw, ctx)" by (cases call)
  obtain r s1 where h: "handle_request svc now request raw ctx s = (r, s1)"
    by (cases "handle_request svc now request raw ctx s")
  obtain rs' s2 where rest: "serve_all svc calls s1 = (rs', s2)" by (cases "serve_all svc calls s1")
  note one = op_simD [OF handle_request_sim [OF assms] Cons.prems(1) h]
  from Cons.prems(2) have "rs = r # rs'" "s' = s2" by (simp_all add: call h rest)
  with one Cons.IH [OF _ rest] show ?case by (simp add: call)
qed

end

section \<open>The file store and the store in memory\<close>

definition memory_of :: "jsonl_le_key_store \<Rightarrow> in_memory_le_key_store" where
  "memory_of f = \<lparr>mem_keys = js_keys f\<rparr>"

lemma jsonl_load_sim: "op_sim file_ok memory_of (jsonl_load_keys ks) (in_memory_load_keys ks)"
proof (rule op_simI)
  fix f r f' assume ok: "file_ok f" and run: "jsonl_load_keys ks f = (r, f')"
  show "in_memory_load_keys ks (memory_of f) = (r, memory_of f') \<and> file_ok f'"
  proof (cases "would_overflow ks (js_keys f) kCapacity")
    case True
    with ok run show ?thesis by (auto simp: jsonl_load_keys_def in_memory_load_keys_def memory_of_def)
  next
    case False
    let ?f = "f\<lparr>js_keys := foldl upsert (js_keys f) ks\<rparr>"
    have "keys_ok (js_keys ?f)"
      using ok False by (simp add: file_ok_def would_overflow_refuses keys_ok_loads)
    then obtain f1 where "bindO persist (\<lambda>_. returnO False) ?f = (Inr False, f1)" "file_ok f1" "js_keys f1 = js_keys ?f"
      using persist_then [of ?f False] ok by (auto simp: file_ok_def)
    with False run show ?thesis
      by (auto simp: jsonl_load_keys_def in_memory_load_keys_def memory_of_def)
  qed
qed

lemma jsonl_purge_sim: "op_sim file_ok memory_of (jsonl_purge_key i) (in_memory_purge_key i)"
proof (rule op_simI)
  fix f r f' assume ok: "file_ok f" and run: "jsonl_purge_key i f = (r, f')"
  let ?keys = "filter (\<lambda>key. key_id key \<noteq> i) (js_keys f)"
  show "in_memory_purge_key i (memory_of f) = (r, memory_of f') \<and> file_ok f'"
  proof (cases "length ?keys = length (js_keys f)")
    case True
    then have "?keys = js_keys f" by (metis (mono_tags, lifting) filter_True length_filter_less nat_less_le)
    with ok run show ?thesis by (auto simp: jsonl_purge_key_def in_memory_purge_key_def memory_of_def)
  next
    case False
    obtain f1 where "bindO persist (\<lambda>_. returnO True) (f\<lparr>js_keys := ?keys\<rparr>) = (Inr True, f1)" "file_ok f1"
      "js_keys f1 = ?keys"
      using persist_then [of "f\<lparr>js_keys := ?keys\<rparr>" True] ok by (auto simp: file_ok_def keys_ok_purge)
    with False run show ?thesis
      by (auto simp: jsonl_purge_key_def in_memory_purge_key_def memory_of_def Let_def)
  qed
qed

lemma jsonl_purge_all_sim: "op_sim file_ok memory_of jsonl_purge_all in_memory_purge_all"
proof (rule op_simI)
  fix f r f' assume ok: "file_ok f" and run: "jsonl_purge_all f = (r, f')"
  obtain f1 where "persist (f\<lparr>js_keys := []\<rparr>) = (Inr (), f1)" "file_ok f1" "js_keys f1 = []"
    using persist_file_ok [of "f\<lparr>js_keys := []\<rparr>"] ok by (auto simp: file_ok_def)
  with run show "in_memory_purge_all (memory_of f) = (r, memory_of f') \<and> file_ok f'"
    by (simp add: jsonl_purge_all_def in_memory_purge_all_def memory_of_def)
qed

interpretation file_in_memory: store_simulation jsonl_store in_memory_store memory_of file_ok
  by unfold_locales
    (simp_all add: jsonl_store_def in_memory_store_def jsonl_load_sim jsonl_purge_sim jsonl_purge_all_sim
      jsonl_contains_key_def in_memory_contains_key_def jsonl_list_key_ids_def in_memory_list_key_ids_def memory_of_def)

text \<open>The same for the store the responder was given: the one behind a file put into memory.\<close>

definition in_memory_of :: "any_key_store \<Rightarrow> any_key_store" where
  "in_memory_of = case_sum Inl (\<lambda>f. Inl (memory_of f))"

lemma any_op_sim:
  assumes "op_sim memory_ok (\<lambda>m. m) mem mem" and "op_sim file_ok memory_of file mem"
  shows "op_sim any_ok in_memory_of (any_op mem file) (any_op mem file)"
proof (rule op_simI)
  fix s r s' assume ok: "any_ok s" and run: "any_op mem file s = (r, s')"
  show "any_op mem file (in_memory_of s) = (r, in_memory_of s') \<and> any_ok s'"
  proof (cases s)
    case (Inl m)
    obtain r1 m1 where m: "mem m = (r1, m1)" by (cases "mem m")
    from op_simD [OF assms(1) _ m] ok run Inl m show ?thesis by (auto simp: any_op_def in_memory_of_def)
  next
    case (Inr f)
    obtain r1 f1 where f: "file f = (r1, f1)" by (cases "file f")
    from op_simD [OF assms(2) _ f] ok run Inr f show ?thesis by (auto simp: any_op_def in_memory_of_def)
  qed
qed

lemma op_sim_self: "(\<And>s. ok s \<Longrightarrow> \<exists>r s'. m s = (r, s') \<and> ok s') \<Longrightarrow> op_sim ok (\<lambda>s. s) m m"
  by (intro op_simI) fastforce

lemma memory_sims:
  "op_sim memory_ok (\<lambda>m. m) (in_memory_load_keys ks) (in_memory_load_keys ks)"
  "op_sim memory_ok (\<lambda>m. m) (in_memory_purge_key i) (in_memory_purge_key i)"
  "op_sim memory_ok (\<lambda>m. m) in_memory_purge_all in_memory_purge_all"
  using memory_keys.load [where ks = ks] memory_keys.purge [where i = i] memory_keys.purge_everything
  by (simp_all add: in_memory_store_def) (rule op_sim_self, blast)+

text \<open>A store stays the kind it is.\<close>

lemma keeps_any_op: "keeps isl (any_op mem file)"
  by (rule keepsI) (auto simp: any_op_def split: sum.splits prod.splits)

lemma keeps_kind:
  assumes "key_store svc = any_store"
  shows "keeps isl (handle_request svc now request raw context)"
proof -
  have query: "keeps isl (handle_le_key_query_id svc request)" "keeps isl (handle_le_key_query_all svc request)"
    by (simp_all add: keeps_def handle_le_key_query_id_def handle_le_key_query_all_def)
  have change: "keeps isl (handle_le_key_load svc request)" "keeps isl (handle_le_key_purge_id svc request)"
    unfolding handle_le_key_load_def handle_le_key_purge_id_def assms
    by (simp_all add: any_store_def keeps_bindO keeps_liftO keeps_returnO keeps_any_op)
  have purge_all: "keeps isl (handle_le_key_purge_all svc request)"
    unfolding handle_le_key_purge_all_def assms
    by (simp add: any_store_def keeps_bindO keeps_returnO keeps_any_op)
  show ?thesis
    by (cases "req_command request"; cases "req_id request = 0")
      (simp_all add: handle_request_def query change purge_all keeps_returnO keeps_liftO)
qed

lemma serve_all_keeps:
  assumes "\<And>now request raw context. keeps f (handle_request svc now request raw context)"
  shows "serve_all svc calls s = (rs, s') \<Longrightarrow> f s' = f s"
proof (induction calls arbitrary: s rs s')
  case Nil
  then show ?case by simp
next
  case (Cons call calls)
  obtain now request raw ctx where call: "call = (now, request, raw, ctx)" by (cases call)
  obtain r s1 where h: "handle_request svc now request raw ctx s = (r, s1)"
    by (cases "handle_request svc now request raw ctx s")
  obtain rs' s2 where rest: "serve_all svc calls s1 = (rs', s2)" by (cases "serve_all svc calls s1")
  from Cons.prems have "s' = s2" by (simp add: call h rest)
  with Cons.IH [OF rest] keepsD [OF assms h] show ?case by simp
qed

interpretation any_in_memory: store_simulation any_store any_store in_memory_of any_ok
proof unfold_locales
  fix s :: any_key_store and ks :: "le_key_record list" and i :: u32
  show "op_sim any_ok in_memory_of (load_keys any_store ks) (load_keys any_store ks)"
    "op_sim any_ok in_memory_of (purge_key any_store i) (purge_key any_store i)"
    "op_sim any_ok in_memory_of (purge_all any_store) (purge_all any_store)"
    by (simp_all add: any_store_def any_op_sim memory_sims jsonl_load_sim jsonl_purge_sim jsonl_purge_all_sim)
  assume ok: "any_ok s"
  show "contains_key any_store i s = contains_key any_store i (in_memory_of s)"
    "list_key_ids any_store s = list_key_ids any_store (in_memory_of s)"
    using ok file_in_memory.contains_sim file_in_memory.list_sim
    by (cases s; simp add: any_store_left any_store_right in_memory_of_def)+
qed

end
