(* ===== verification/Wire_Format.thy ===== *)
theory Wire_Format
  imports Codec
begin

text \<open>
  What the encoders of \<^verbatim>\<open>asm/codec.cpp\<close> and \<^verbatim>\<open>klv/klv.cpp\<close> put on the wire, byte by
  byte, stated without their table and helpers: the Annex A labels that \<^verbatim>\<open>docs/constraints.md\<close> and
  \<^verbatim>\<open>docs/protocol-vectors.md\<close> refer to, the fixed four-byte BER length, big-endian integers.
\<close>

section \<open>The layout\<close>

text \<open>
  The two bytes of a label that name the command, as a request; a response has the next number.
  BadRequest has a response only.
\<close>

primrec annex_a :: "command \<Rightarrow> byte \<times> byte" where
  "annex_a bad_request = (0x01, 0x00)"
| "annex_a get_time = (0x02, 0x10)"
| "annex_a get_event_list = (0x02, 0x12)"
| "annex_a get_event_id = (0x02, 0x14)"
| "annex_a query_spb = (0x02, 0x16)"
| "annex_a le_key_load = (0x03, 0x20)"
| "annex_a le_key_query_id = (0x03, 0x22)"
| "annex_a le_key_query_all = (0x03, 0x24)"
| "annex_a le_key_purge_id = (0x03, 0x26)"
| "annex_a le_key_purge_all = (0x03, 0x28)"

definition label_bytes :: "command \<Rightarrow> bool \<Rightarrow> byte_buffer" where
  "label_bytes c response =
     (case annex_a c of (area, number) \<Rightarrow>
        [0x06, 0x0e, 0x2b, 0x34, 0x02, 0x05, 0x01, 0x01, 0x02, 0x07, 0x01,
         area, if response then number + 1 else number, 0x00, 0x00, 0x00])"

text \<open>A number in \<open>k\<close> bytes, most significant first.\<close>

definition be_bytes :: "nat \<Rightarrow> nat \<Rightarrow> byte_buffer" where
  "be_bytes k n = map (\<lambda>i. word_of_nat (n div 256 ^ i)) (rev [0..<k])"

definition wire_frame :: "command \<Rightarrow> bool \<Rightarrow> byte_buffer \<Rightarrow> byte_buffer" where
  "wire_frame c response v = label_bytes c response @ [0x83] @ be_bytes 3 (length v) @ v"

lemma length_be_bytes: "length (be_bytes k n) = k"
  by (simp add: be_bytes_def)

section \<open>The encoders produce it\<close>

lemma byte_at_div: "byte_at k w = word_of_nat (unat w div 2 ^ k)"
  for w :: "'a::len word"
proof -
  have "byte_at k w = ucast (drop_bit k w)"
    by (rule bit_word_eqI) (auto simp: bit_byte_at bit_simps)
  also have "\<dots> = word_of_nat (unat (drop_bit k w))" by simp
  also have "\<dots> = word_of_nat (drop_bit k (unat w))" by (simp only: unat_drop_bit_eq)
  finally show ?thesis by (simp only: drop_bit_eq_div [of k "unat w"])
qed

lemma be_bytes_unfold:
  "be_bytes 3 n = [word_of_nat (n div 2 ^ 16), word_of_nat (n div 2 ^ 8), word_of_nat (n div 2 ^ 0)]"
  "be_bytes 4 n = [word_of_nat (n div 2 ^ 24), word_of_nat (n div 2 ^ 16), word_of_nat (n div 2 ^ 8),
     word_of_nat (n div 2 ^ 0)]"
  by (simp_all add: be_bytes_def upt_rec)

lemma be_bytes_u32: "append_be_u32 [] v = be_bytes 4 (unat v)"
  by (simp only: append_be_u32_bytes byte_at_div be_bytes_unfold append_Nil)

lemma be_bytes_length:
  assumes "n < 2 ^ 24"
  shows "[byte_at 16 (word_of_nat n :: u32), byte_at 8 (word_of_nat n :: u32), byte_at 0 (word_of_nat n :: u32)]
    = be_bytes 3 n"
  by (simp only: unat_word_of_nat_u32 [OF assms] byte_at_div be_bytes_unfold)

lemma ul_for_label: "mapE bytes16 (ul_for c d) =
    (if (c, d) = (bad_request, False) then Inl (AsmError ''missing UL mapping'') else Inr (label_bytes c d))"
  by (cases c; cases d) (simp_all add: ul_for_def lookup_entry_def kUlMap_def label_bytes_def make_ul_def)

lemma klv_encode_wire:
  assumes "mapE bytes16 (ul_for c d) = Inr (label_bytes c d)" and "ul_for c d = Inr u"
  shows "klv_encode \<lparr>packet_ul = u, packet_length = word_of_nat (length v), packet_value = v\<rparr> = Inr bs \<longleftrightarrow>
    length v < 2 ^ 24 \<and> bs = wire_frame c d v"
proof (cases "length v < 2 ^ 24")
  case True
  with assms be_bytes_length [OF True] show ?thesis
    by (auto simp: klv_encode_sized klv_frame_def wire_frame_def)
next
  case False
  then show ?thesis using klv_encode_oversized [of v u] by auto
qed

lemma request_frame_wire:
  "encode_request_frame r = Inr bs \<longleftrightarrow> req_command r \<noteq> bad_request \<and> 4 + length (req_payload r) < 2 ^ 24 \<and>
     bs = wire_frame (req_command r) False (be_bytes 4 (unat (req_id r)) @ req_payload r)"
proof (cases "ul_for (req_command r) False")
  case (Inl e)
  then show ?thesis
    using ul_for_label [of "req_command r" False]
    by (auto simp: encode_request_frame_def codec_encode_request_def split: if_splits)
next
  case (Inr u)
  then have "req_command r \<noteq> bad_request" using ul_for_request by blast
  with Inr ul_for_label [of "req_command r" False] show ?thesis
    using klv_encode_wire [of "req_command r" False u "append_be_u32 [] (req_id r) @ req_payload r" bs]
    by (auto simp: encode_request_frame_def codec_encode_request_def Let_def be_bytes_u32 [symmetric])
qed

lemma response_frame_wire:
  "encode_response_frame r = Inr bs \<longleftrightarrow>
     (\<exists>prefix. (if resp_command r = bad_request then prefix = []
                else \<exists>i. resp_id r = Some i \<and> prefix = be_bytes 4 (unat i)) \<and>
        length prefix + length (resp_payload r) + 1 < 2 ^ 24 \<and>
        bs = wire_frame (resp_command r) True (prefix @ resp_payload r @ [general_response_byte (resp_code r)]))"
proof -
  obtain u where u: "ul_for (resp_command r) True = Inr u" using ul_for_response by blast
  note wire = klv_encode_wire [of "resp_command r" True u, OF _ u]
  show ?thesis
  proof (cases "resp_command r = bad_request")
    case True
    with u ul_for_label [of "resp_command r" True] show ?thesis
      using wire [of "resp_payload r @ [general_response_byte (resp_code r)]" bs]
      by (simp add: encode_response_frame_def codec_encode_response_def Let_def)
  next
    case False
    show ?thesis
    proof (cases "resp_id r")
      case None
      with False show ?thesis
        by (simp add: encode_response_frame_def codec_encode_response_missing_id)
    next
      case (Some i)
      with False u ul_for_label [of "resp_command r" True] show ?thesis
        using wire [of "append_be_u32 [] i @ resp_payload r @ [general_response_byte (resp_code r)]" bs]
        by (simp add: encode_response_frame_def codec_encode_response_def Let_def be_bytes_u32 [symmetric])
    qed
  qed
qed

section \<open>Properties\<close>

text \<open>C36: the encoders produce exactly the documented wire format and nothing else: the sixteen bytes of
the command's label, 0x83 and the length of the value in three bytes, then the value, all integers most
significant byte first. The value is the request id and the payload; in a response it ends with the response
code, and only BadRequest has no request id. A BadRequest request, a response without its id and a value of
\<open>2 ^ 24\<close> bytes or more have no frame.\<close>

theorem frames_on_the_wire:
  "(encode_request_frame r = Inr bytes \<longleftrightarrow> req_command r \<noteq> bad_request \<and> 4 + length (req_payload r) < 2 ^ 24 \<and>
      bytes = label_bytes (req_command r) False @ [0x83] @ be_bytes 3 (4 + length (req_payload r))
        @ be_bytes 4 (unat (req_id r)) @ req_payload r) \<and>
   (encode_response_frame s = Inr bytes' \<longleftrightarrow>
      (\<exists>prefix. (if resp_command s = bad_request then prefix = []
                 else \<exists>i. resp_id s = Some i \<and> prefix = be_bytes 4 (unat i)) \<and>
         length prefix + length (resp_payload s) + 1 < 2 ^ 24 \<and>
         bytes' = label_bytes (resp_command s) True @ [0x83]
           @ be_bytes 3 (length prefix + length (resp_payload s) + 1)
           @ prefix @ resp_payload s @ [general_response_byte (resp_code s)]))"
  using request_frame_wire [of r bytes] response_frame_wire [of s bytes']
  by (simp add: wire_frame_def add.assoc length_be_bytes)

end
