(* ===== verification/Spec2Isabelle.thy ===== *)
theory Spec2Isabelle
  imports Conversation Session_Traces Contexts Store_Simulation Wire_Format
begin

text \<open>
  A model of \<^verbatim>\<open>asmproto\<close>, a prototype of the ISO 26430-6 auditorium security
  messages: a responder that keeps the link-encryption (LE) keys of a projector and answers nine
  commands over TLS, and an initiator that sends one of them and prints the answer.

  \<^bold>\<open>The parts and how they meet.\<close> A message is a KLV packet (a 16-byte universal label, a
  fixed four-byte BER length, a value); the label names a command and a direction, the value holds the
  request id, the payload and, in a response, a response code. The responder's accept loop hands each
  connection to a session: handshake, check of the peer's certificate, one read, decoding, the service,
  encoding, one write. Whatever is thrown between decoding and writing is answered BadRequest with a copy
  of the message; whatever is thrown elsewhere ends the session and is reported to the observer; what the observer throws then
  ends the server. The
  service reads an event log and a playback status and changes a key store, which lives in memory or in a
  file that is rewritten at every change.

  \<^bold>\<open>Theories\<close>, in import order, with the sources under \<^verbatim>\<open>src/\<close> (headers under
  \<^verbatim>\<open>src/include\<close>, code under \<^verbatim>\<open>src/src\<close>):
    \<^item> \<open>Asm_Prelude\<close>: bytes and words, exceptions as values (\<open>exn + 'a\<close>), operations on shared
      state that keep their effects when they throw (\<open>op\<close>), arrays of sixteen bytes.
    \<^item> \<open>Big_Endian\<close>, \<open>Codec\<close>: \<^verbatim>\<open>asm/codec.cpp\<close>, \<^verbatim>\<open>asm/common.hpp\<close>.
      \<open>Klv\<close>: \<^verbatim>\<open>klv/klv.cpp\<close>. \<open>Wire_Format\<close>: the frames byte by byte, as the documents
      give them, and that the encoders make these. \<open>Batch\<close>: the count / item length / items pattern of three
      payload codecs, as the locale \<open>item_codec\<close>.
    \<^item> \<open>Std_Text\<close>, \<open>Std_Regex\<close>, \<open>Std_Time\<close>: what the sources use of the C++ library
      (\<^verbatim>\<open>stoul\<close>, stream insertion of numbers, \<^verbatim>\<open>getline\<close>, \<^verbatim>\<open>regex_match\<close>,
      \<^verbatim>\<open>get_time\<close>, \<^verbatim>\<open>timegm\<close>). \<open>Std_Regex\<close> also says of a pattern of tokens, without the
      pattern, which lines it matches: those tokens with white space between them (\<open>spaced\<close>).
    \<^item> \<open>Event_Log\<close>: \<^verbatim>\<open>asm/event_log.cpp\<close>. \<open>Query_Spb\<close>: \<^verbatim>\<open>asm/query_spb.cpp\<close>.
      \<open>Le_Key\<close>, \<open>Le_Key_Store\<close>: \<^verbatim>\<open>asm/le_key.cpp\<close>, records and payloads, then the stores.
    \<^item> \<open>Service\<close>: \<^verbatim>\<open>asm/service.cpp\<close>, one definition per handler, and the abstract service
      \<open>serves\<close>, an inductive relation over the finite map of keys.
    \<^item> \<open>Openssl_Init\<close>: \<^verbatim>\<open>security/openssl_init.cpp\<close>.
      \<open>Security\<close>: \<^verbatim>\<open>security/certificate_utils.cpp\<close>, \<^verbatim>\<open>security/tls_profile.cpp\<close>,
      \<^verbatim>\<open>transport/tls_context.cpp\<close>. \<open>Socket\<close>: \<^verbatim>\<open>transport/socket.cpp\<close>, the calls
      and, as a step relation over a heap of sockets, who owns which descriptor.
    \<^item> \<open>Ssl_Io\<close>: the read and write helpers of \<^verbatim>\<open>transport/tls_server.cpp\<close>.
      \<open>Tls_Server\<close>: the rest of it. \<open>Tls_Client\<close>: \<^verbatim>\<open>transport/tls_client.cpp\<close>, with its own
      copies of the helpers, which are shown to be the same functions.
    \<^item> \<open>Initiator\<close>, \<open>Responder\<close>: the programs under \<^verbatim>\<open>apps/\<close>. \<open>Pipe_Platform\<close>: an
      environment for examples. \<open>Session_Replies\<close>: a session that succeeds. \<open>Session_Traces\<close>: what
      the observer is told. \<open>Descriptors\<close>: what is open before and after. \<open>Certificate_Objects\<close>: the
      certificate checks and both sessions once more, with a log of the certificates, keys and \<^verbatim>\<open>BIO\<close>s
      they obtain, use and free. \<open>Contexts\<close>: what OpenSSL is asked for as a whole.
      \<open>Store_Simulation\<close>: the two key stores against each other. \<open>Conversation\<close>: the two programs
      against each other.

  \<^bold>\<open>State.\<close> A class is a record of its members, a member function that changes it an operation
  \<open>'s \<Rightarrow> result \<times> 's\<close>. The virtual classes \<^verbatim>\<open>LeKeyStore\<close> and \<^verbatim>\<open>EventLogStore\<close> are
  records of functions. The program's whole state in a session is \<open>server_state\<close>: the key store's state,
  the environment's, OpenSSL's once flag, and the traces given to the observer; the client's is
  \<open>client_state\<close>. Beside the once flag stands a log of the calls that initialise the library and make or
  free contexts, which the code does not keep.

  \<^bold>\<open>Parameters.\<close> OpenSSL, the socket calls, the system clock, the signal that sets the stop flag
  and the files are not under \<^verbatim>\<open>src/\<close>; they are the records \<open>x509_api\<close>, \<open>ssl_ctx_api\<close>,
  \<open>ssl_api\<close>, \<open>posix_api\<close> and \<open>platform\<close>, over an arbitrary state of the environment. The theorems
  about sent bytes assume what OpenSSL documents of \<^verbatim>\<open>SSL_write\<close> and \<^verbatim>\<open>SSL_read\<close>
  (\<open>ssl_writes\<close>, \<open>ssl_reads\<close>), and where a session is to succeed that writes do (\<open>writes_succeed\<close>,
  \<open>connection_ok\<close>), that a read takes what has arrived (\<open>reads_available\<close>) and that the handshake passes
  (\<open>accepted\<close>, \<open>connected\<close>); \<open>Pipe_Platform\<close> keeps all of it.

  \<^bold>\<open>Contracts.\<close> \<open>item_codec\<close> (interpreted for 32-bit ids and key records), \<open>event_log_contract\<close>
  (both providers), \<open>le_key_store_contract\<close> (both stores, and the choice between them in \<open>Responder\<close>),
  \<open>service_contract\<close> (a service over any store that keeps the previous two; the three constructors of
  \<^verbatim>\<open>AsmService\<close>) and \<open>server_contract\<close> (the assembled responder). The handlers refine \<open>serves\<close> once,
  for every store. \<open>store_simulation\<close> is what it takes for a store to be indistinguishable from another
  (the file store from the one in memory, and the responder's choice of either).

  \<^bold>\<open>What the lemmas show.\<close> Codecs: decoding and encoding are inverse, errors included, no frame
  is a proper prefix of another, and the frames are the documented bytes (C4, C5, C12, C13, C16, C17, C35,
  C36). Stores: exact effect of a load,
  capacity, durability, the file store against the one in memory (C6, C7, C34), and what they do not ensure
  (C30, C31). Event log: exactly the lines that show an event object are read, and as
  what they show, dates, XML (C18 to C21). Service: refinement and
  sequences of requests (C2, C8, C9). Transport: one answer per message, whole writes, the accept loop,
  descriptors, contexts, reports (C1, C3, C10, C11, C14, C15, C22, C25, C26, C29, C32, C33, C37 to C39). Security
  profile: C24. Initiator and the whole: C23, C27, C28, C40.

  What an operation leaves alone (the keys, the traces, the open descriptors, the once flag) is \<open>keeps\<close>,
  with one rule per way of building operations, collected in \<open>keeps_rules\<close>; that two operations agree is
  \<open>op_sim\<close>, with \<open>op_sim_rules\<close>.

  \<^bold>\<open>Termination.\<close> \<^verbatim>\<open>write_all\<close> and \<^verbatim>\<open>getline\<close> loops are functions with a
  measure (bytes left, characters left); the search of \<^verbatim>\<open>regex_match\<close> recurses on the pattern. The
  accept loop may run for ever: \<open>run_loop\<close> is a partial function whose value \<open>None\<close> means that, and
  \<open>rounds n\<close> is its first \<open>n\<close> rounds; the loop returns exactly when some number of rounds does.

  \<^bold>\<open>Bounds.\<close> A read delivers at most 4096 bytes, and a longer message is not put together from several
  reads: a load of 128 keys is answered BadRequest (C14), and an answer about more than about a thousand
  events ends the initiator's session in an exception (C40). A frame's value is shorter than \<open>2 ^ 24\<close>, a store
  holds at most sixteen keys. The key file is its content, whether it can be opened, and how many characters
  its device takes (\<open>file_room\<close>): a line is at most 125 characters long, so 2016 always suffice (\<open>roomy\<close>).

  \<^bold>\<open>Not modelled.\<close> What OpenSSL's initialisation returns (the code ignores it), SIGPIPE, a key file that
  something else changes while the program runs or whose reading fails half-way, \<^verbatim>\<open>std::filesystem::exists\<close> throwing in the constructor of the
  file store, the holder of what \<^verbatim>\<open>getaddrinfo\<close> returns and its \<^verbatim>\<open>freeaddrinfo\<close>, the pieces of
  the initiator's line that were streamed before a decoder threw (they are in a buffer that is not flushed),
  stack exhaustion in \<^verbatim>\<open>std::regex\<close>, wrap-around of \<^verbatim>\<open>size_t\<close> (all lengths stay below \<open>2 ^ 38\<close>), the tests, the build files and the scripts.
\<close>

section \<open>The service\<close>

text \<open>The responder's service, over a log read from a file and whichever key store it was given.\<close>

abbreviation the_service :: "event_record list \<Rightarrow> string list \<Rightarrow> any_key_store asm_service" where
  "the_service events argv \<equiv> srv_service (responder_server (jsonl_event_log_store events) argv)"

text \<open>C2: every request gets an answer that the abstract service allows for the map of keys the store
stands for, and the store afterwards stands for the map the answer says; only a payload that no value
of the command's request type encodes to is refused by an exception, an \<^verbatim>\<open>AsmError\<close>, and then
nothing has changed. This holds for the in-memory store and for the one behind a file.\<close>

theorem service_refines_abstract:
  assumes "any_ok s"
  shows "case handle_request (the_service events argv) now r raw ctx s of
      (Inr sr, s') \<Rightarrow> any_ok s' \<and>
        serves (world_of (the_service events argv) events now) (any_map s) r raw (sr_response sr) (any_map s')
    | (Inl e, s') \<Rightarrow> malformed r \<and> s' = s \<and> (\<exists>m. e = AsmError m)"
  using responder_jsonl_service.handle_request_outcome [OF assms, where events = events and argv = argv
      and now = now and r = r and raw = raw and ctx = ctx]
  by (auto simp: outcome_def split: prod.splits sum.splits)

theorem service_refines_abstract_witness:
  "\<exists>sr s'. handle_request (the_service [] []) 0
       \<lparr>req_command = le_key_purge_id, req_id = 9, req_payload = encode_purge_id_request \<lparr>purge_id_key_id = 7\<rparr>\<rparr> []
       \<lparr>ctx_peer = None, ctx_received_at = 0\<rparr> (Inl \<lparr>mem_keys = [sample_key 7]\<rparr>) = (Inr sr, s') \<and>
     any_map s' = Map.empty"
proof -
  let ?r = "\<lparr>req_command = le_key_purge_id, req_id = 9, req_payload = encode_purge_id_request \<lparr>purge_id_key_id = 7\<rparr>\<rparr>"
  let ?s = "Inl \<lparr>mem_keys = [sample_key 7]\<rparr> :: any_key_store"
  let ?h = "handle_request (the_service [] []) 0 ?r [] \<lparr>ctx_peer = None, ctx_received_at = 0\<rparr> ?s"
  have ok: "any_ok ?s" by (simp add: memory_ok_def keys_ok_def kCapacity_def)
  have m: "memory_map \<lparr>mem_keys = [sample_key 7]\<rparr> = [7 \<mapsto> sample_key 7]"
    by (rule ext) (simp add: memory_map_def key_map_def sample_key_def)
  have wf: "\<not> malformed ?r" by (auto simp: malformed_def)
  obtain x s' where h: "?h = (x, s')" by (cases ?h)
  from service_refines_abstract [OF ok, where events = "[]" and argv = "[]" and now = 0 and r = ?r
      and raw = "[]" and ctx = "\<lparr>ctx_peer = None, ctx_received_at = 0\<rparr>"]
  have out: "case x of Inr sr \<Rightarrow>
      serves (world_of (the_service [] []) [] 0) [7 \<mapsto> sample_key 7] ?r [] (sr_response sr) (any_map s')
    | Inl e \<Rightarrow> False"
    using wf by (auto simp: h m split: sum.splits)
  then obtain sr where sr: "x = Inr sr" and
    sv: "serves (world_of (the_service [] []) [] 0) [7 \<mapsto> sample_key 7] ?r [] (sr_response sr) (any_map s')"
    by (cases x) auto
  from sv have "any_map s' = Map.empty"
  proof cases
    case (purge i)
    then have "Inr \<lparr>purge_id_key_id = i\<rparr> = decode_purge_id_request (encode_purge_id_request \<lparr>purge_id_key_id = 7\<rparr>)"
      by (simp add: decode_encode_requests)
    then have "i = 7" by (simp add: decode_encode_requests)
    with purge show ?thesis by simp
  qed simp_all
  with h sr show ?thesis by blast
qed

section \<open>Sessions\<close>

text \<open>C1: whatever bytes a message holds, and whether or not they are a request, a session with an
accepted peer writes exactly one response frame for it, raises nothing, and reports to the observer who was
answered and with which code; the response in the frame and the keys afterwards are what the abstract service
allows, or BadRequest with a copy of the message and the keys untouched, for bytes that are no request, a
malformed payload or an answer that does not fit a frame. Assumed of OpenSSL: what it documents of reads and
writes, and that writes make progress.\<close>

theorem session_answers_once:
  assumes "any_ok (st_keys st)"
    and "connection_ok (pf_ssl pf) sent incoming" and "clock_silent pf sent"
    and "accepted pf ssl (st_env st) k1 peer"
    and "read_one_message (pf_ssl pf) ssl k1 = (Inr bytes, k2)"
  shows "\<exists>trace st' frame resp.
    serve_session pf (responder_server (jsonl_event_log_store events) argv) (Some print_observer) ssl (t, st)
      = (Inr (), trace, st') \<and>
    any_ok (st_keys st') \<and> sent ssl (st_env st') = sent ssl k1 @ frame \<and>
    decode_response_frame frame = Inr resp \<and> st_traces st' = st_traces st @ [trace] \<and>
    tr_thumbprint trace = peer_thumbprint peer \<and> tr_status trace = resp_code resp \<and>
    replies (world_of (the_service events argv) events (session_now pf k2))
      (any_map (st_keys st)) bytes resp (any_map (st_keys st'))"
  using assms by (rule responder_jsonl_service.serve_session_replies) (rule print_observer_silent)

theorem session_answers_once_witness:
  "\<exists>trace st' frame. serve_session pipe_platform (responder_server (jsonl_event_log_store []) [])
       (Some print_observer) 0 (session_trace_default, pipe_state [1, 2, 3]) = (Inr (), trace, st') \<and>
     pipe_sent 0 (st_env st') = frame \<and> decode_response_frame frame = Inr (rejected [1, 2, 3])"
proof -
  let ?st = "pipe_state [1, 2, 3]"
  have "any_ok (st_keys ?st)" by (simp add: memory_ok_def)
  moreover obtain k2 where "read_one_message pipe_ssl 0 (st_env ?st) = (Inr [1, 2, 3], k2)"
    using read_one_message_whole [OF pipe_reads pipe_reads_available, of 0 "st_env ?st"]
    by (auto simp: pipe_incoming_def)
  moreover have "decode_request_frame [1, 2, 3] = Inl (AsmError ''KLV packet too short'')"
    by (simp add: decode_request_frame_def klv_decode_def)
  ultimately show ?thesis
    using session_answers_once [where st = ?st and bytes = "[1, 2, 3]" and pf = pipe_platform
        and sent = pipe_sent and events = "[]" and argv = "[]" and ssl = 0 and t = session_trace_default,
        OF _ _ pipe_clock_silent pipe_accepted]
      pipe_connection
    by (fastforce simp: replies_def pipe_sent_def)
qed

text \<open>C10: a peer that presents no certificate, or one outside the profile (RSA, 2048 bits, exponent
65537), is not served: the session ends with an \<^verbatim>\<open>AsmError\<close> right after the handshake,
before anything is read or written and with the keys untouched, whatever the configuration says of
requiring a certificate.\<close>

theorem unverified_peer_not_served:
  assumes "SSL_accept (pf_ssl pf) ssl (st_env st) = (rc, k')" and "0 < rc"
    and "case SSL_get1_peer_certificate (pf_ssl pf) ssl k' of None \<Rightarrow> True | Some x \<Rightarrow> \<not> profile_ok (pf_x509 pf) x"
  shows "\<exists>m. serve_session pf srv observer ssl (t, st) = (Inl (AsmError m), t, st\<lparr>st_env := k'\<rparr>)"
proof -
  let ?c = "SSL_get1_peer_certificate (pf_ssl pf) ssl k'"
  have "validate_certificate_profile (pf_x509 pf) ?c \<noteq> Inr ()"
    using assms(3) by (auto simp: validate_Inr_iff)
  then obtain m where m: "validate_certificate_profile (pf_x509 pf) ?c = Inl (AsmError m)"
    by (cases "validate_certificate_profile (pf_x509 pf) ?c") (auto dest: validate_Inl_AsmError)
  have "ssl_expect_positive (pf_ssl pf) rc ssl ''SSL_accept'' k' = (Inr (), k')"
    using assms(2) by (simp add: ssl_expect_positive_def)
  then have "serve_session pf srv observer ssl (t, st) = (Inl (AsmError m), t, st\<lparr>st_env := k'\<rparr>)"
    by (simp add: serve_session_def in_env_apply assms(1) m bindO_def)
  then show ?thesis by blast
qed

theorem unverified_peer_not_served_witness:
  "\<exists>m. serve_session (pipe_platform\<lparr>pf_ssl := pipe_ssl\<lparr>SSL_get1_peer_certificate := \<lambda>_ _. None\<rparr>\<rparr>)
       (responder_server (jsonl_event_log_store []) []) (Some print_observer) 0
       (session_trace_default, pipe_state [1])
     = (Inl (AsmError m), session_trace_default,
        pipe_state [1])"
  using unverified_peer_not_served
    [where pf = "pipe_platform\<lparr>pf_ssl := pipe_ssl\<lparr>SSL_get1_peer_certificate := \<lambda>_ _. None\<rparr>\<rparr>"
      and st = "pipe_state [1]"
      and ssl = 0 and rc = 1 and k' = "([1], [])" and observer = "Some print_observer" and t = session_trace_default
      and srv = "responder_server (jsonl_event_log_store []) []"]
  by (simp add: pipe_ssl_def pipe_state_env)

text \<open>A load of \<open>n\<close> keys is a frame of \<open>32 + 32 n\<close> bytes, of which no proper prefix decodes.\<close>

abbreviation load_of :: "u32 \<Rightarrow> le_key_record list \<Rightarrow> standard_request" where
  "load_of i ks \<equiv> \<lparr>req_command = le_key_load, req_id = i,
     req_payload = encode_load_request \<lparr>load_request_keys = ks\<rparr>\<rparr>"

lemma load_frame:
  assumes "encode_request_frame (load_of i ks) = Inr frame"
  shows "length frame = 32 + 32 * length ks"
    and "n < length frame \<Longrightarrow> \<exists>e. decode_request_frame (take n frame) = Inl e"
proof -
  have d: "decode_request_frame frame = Inr (load_of i ks)" using assms by (simp add: request_frame_iff)
  then obtain p where p: "klv_decode frame = Inr p"
    "packet_value p = append_be_u32 [] i @ encode_load_request \<lparr>load_request_keys = ks\<rparr>"
    using codec_decode_request_Inr(2) by (fastforce simp: decode_request_frame_def bindE_eq_Inr)
  have "frame = klv_frame (packet_ul p) (packet_length p) (packet_value p)"
    by (rule klv_decode_Inr(2) [OF p(1)])
  then have "length frame = 20 + length (packet_value p)" by (metis length_klv_frame)
  then show "length frame = 32 + 32 * length ks" by (simp add: p(2) length_encode_load_request)
  show "n < length frame \<Longrightarrow> \<exists>e. decode_request_frame (take n frame) = Inl e"
    by (rule decode_request_truncated [OF d])
qed

text \<open>C14: a load of 128 keys or more makes a frame that one read of the server never holds. When such a
frame is all that an accepted peer has sent, the session reads at most its first 4096 bytes, answers them
BadRequest with a copy of them, and loads nothing, even when every key would have replaced one the store
holds.\<close>

theorem large_load_rejected:
  assumes "any_ok (st_keys st)" and "connection_ok (pf_ssl pf) sent incoming" and "clock_silent pf sent"
    and "accepted pf ssl (st_env st) k1 peer"
    and "encode_request_frame (load_of i ks) = Inr frame" and "128 \<le> length ks"
    and "incoming ssl k1 = frame" and "read_one_message (pf_ssl pf) ssl k1 = (Inr bytes, k2)"
  shows "\<exists>trace st' answer n.
    serve_session pf (responder_server (jsonl_event_log_store events) argv) (Some print_observer) ssl (t, st)
      = (Inr (), trace, st') \<and>
    4096 < length frame \<and> n \<le> 4096 \<and> bytes = take n frame \<and>
    sent ssl (st_env st') = sent ssl k1 @ answer \<and> decode_response_frame answer = Inr (rejected bytes) \<and>
    tr_status trace = invalid \<and> any_map (st_keys st') = any_map (st_keys st)"
proof -
  note c = connection_okD [OF assms(2)]
  have long: "4096 < length frame" using load_frame(1) [OF assms(5)] assms(6) by simp
  have n: "length bytes \<le> 4096" "bytes = take (length bytes) frame"
    using read_one_message_prefix [OF c(3) assms(8)] assms(7) by simp_all
  then obtain e where e: "decode_request_frame bytes = Inl e"
    using load_frame(2) [OF assms(5), of "length bytes"] long by auto
  obtain trace st' answer resp where s:
    "serve_session pf (responder_server (jsonl_event_log_store events) argv) (Some print_observer) ssl (t, st)
      = (Inr (), trace, st')"
    "sent ssl (st_env st') = sent ssl k1 @ answer" "decode_response_frame answer = Inr resp"
    "tr_status trace = resp_code resp"
    "replies (world_of (the_service events argv) events (session_now pf k2))
      (any_map (st_keys st)) bytes resp (any_map (st_keys st'))"
    using responder_jsonl_service.serve_session_replies
      [where f = print_observer and t = t and events = events and argv = argv,
        OF assms(1-4,8) print_observer_silent] by blast
  with e have "resp = rejected bytes" "any_map (st_keys st') = any_map (st_keys st)"
    by (auto simp: replies_def)
  with s n long show ?thesis by (intro exI [of _ trace] exI [of _ st'] exI [of _ answer] exI [of _ "length bytes"]) simp
qed

theorem large_load_rejected_witness:
  "\<exists>frame trace st'. encode_request_frame (load_of 1 (replicate 128 (sample_key 7))) = Inr frame \<and>
    serve_session pipe_platform (responder_server (jsonl_event_log_store []) []) (Some print_observer) 0
      (session_trace_default, pipe_state frame) = (Inr (), trace, st') \<and>
    decode_response_frame (pipe_sent 0 (st_env st')) = Inr (rejected (take 4096 frame)) \<and>
    any_map (st_keys st') = Map.empty"
proof -
  obtain frame where f: "encode_request_frame (load_of 1 (replicate 128 (sample_key 7))) = Inr frame"
    using encode_request_frame_total [of "load_of 1 (replicate 128 (sample_key 7))"]
    by (auto simp: length_encode_load_request)
  have "frame \<noteq> []" using load_frame(1) [OF f] by auto
  then obtain k2 where "read_one_message pipe_ssl 0 (st_env (pipe_state frame)) = (Inr (take 4096 frame), k2)"
    using read_one_message_available [OF pipe_reads pipe_reads_available, of 0 "st_env (pipe_state frame)"]
    by (auto simp: pipe_incoming_def)
  then have r: "read_one_message (pf_ssl pipe_platform) 0 (st_env (pipe_state frame)) = (Inr (take 4096 frame), k2)"
    by simp
  have ok: "any_ok (st_keys (pipe_state frame))"
    and c: "connection_ok (pf_ssl pipe_platform) pipe_sent pipe_incoming"
    and i: "pipe_incoming 0 (st_env (pipe_state frame)) = frame"
    by (simp_all add: memory_ok_def pipe_connection pipe_incoming_def)
  from large_load_rejected [where events = "[]" and argv = "[]" and t = session_trace_default,
      OF ok c pipe_clock_silent pipe_accepted f _ i r]
  obtain trace st' answer where
    "serve_session pipe_platform (responder_server (jsonl_event_log_store []) []) (Some print_observer) 0
      (session_trace_default, pipe_state frame) = (Inr (), trace, st')"
    "pipe_sent 0 (st_env st') = pipe_sent 0 (st_env (pipe_state frame)) @ answer"
    "decode_response_frame answer = Inr (rejected (take 4096 frame))"
    "any_map (st_keys st') = any_map (st_keys (pipe_state frame))" by auto
  with f show ?thesis
    by (intro exI [of _ frame] exI [of _ trace] exI [of _ st']) (simp add: pipe_sent_def memory_map_def)
qed

text \<open>C11: when the client returns a response, its whole request went out as one frame right after the
handshake, and if what the server has sent when that frame is out is one response frame, that is the
response returned, and it fit into one read.\<close>

theorem client_returns_what_was_sent:
  assumes "client_session pf ssl request k = (Inr res, k')"
    and "ssl_writes (pf_ssl pf) sent" and "ssl_reads (pf_ssl pf) incoming"
    and "SSL_connect (pf_ssl pf) ssl k = (rc, k1)"
  shows "\<exists>encoded k2. encode_request_frame request = Inr encoded \<and>
    write_all (pf_ssl pf) ssl encoded k1 = (Inr (), k2) \<and> sent ssl k2 = sent ssl k1 @ encoded \<and>
    (\<forall>resp. decode_response_frame (incoming ssl k2) = Inr resp \<longrightarrow>
       cx_response res = resp \<and> length (incoming ssl k2) \<le> 4096)"
proof -
  obtain encoded k2 n where x: "encode_request_frame request = Inr encoded"
    "write_all (pf_ssl pf) ssl encoded k1 = (Inr (), k2)"
    "sent ssl k2 = sent ssl k1 @ encoded" "n \<le> 4096"
    "decode_response_frame (take n (incoming ssl k2)) = Inr (cx_response res)"
    using client_session_exchange [OF assms(1-3)] assms(4) by auto
  have "cx_response res = resp \<and> length (incoming ssl k2) \<le> 4096"
    if d: "decode_response_frame (incoming ssl k2) = Inr resp" for resp
  proof -
    have le: "length (incoming ssl k2) \<le> n"
    proof (rule ccontr)
      assume "\<not> length (incoming ssl k2) \<le> n"
      then obtain e where "decode_response_frame (take n (incoming ssl k2)) = Inl e"
        using decode_response_truncated [OF d, of n] by auto
      with x(5) show False by simp
    qed
    with x d show ?thesis by simp
  qed
  with x show ?thesis by blast
qed

definition sample_time_frame :: byte_buffer where
  "sample_time_frame =
     klv_frame (make_ul 2 0x11) 13 (append_be_u32 [] 1 @ append_be_u64 [] 1776758400 @ [0])"

theorem client_returns_what_was_sent_witness:
  "\<exists>res k' encoded k2. client_session pipe_platform 0 \<lparr>req_command = get_time, req_id = 1, req_payload = []\<rparr>
       (sample_time_frame, []) = (Inr res, k') \<and>
    encode_request_frame \<lparr>req_command = get_time, req_id = 1, req_payload = []\<rparr> = Inr encoded \<and>
    pipe_sent 0 k2 = encoded \<and>
    (\<forall>resp. decode_response_frame (pipe_incoming 0 k2) = Inr resp \<longrightarrow> cx_response res = resp)"
proof -
  let ?req = "\<lparr>req_command = get_time, req_id = 1, req_payload = []\<rparr>"
  have "isl (fst (client_session pipe_platform 0 ?req (sample_time_frame, []))) = False"
    by code_simp
  then obtain res k' where r: "client_session pipe_platform 0 ?req (sample_time_frame, []) = (Inr res, k')"
    by (cases "client_session pipe_platform 0 ?req (sample_time_frame, [])";
        cases "fst (client_session pipe_platform 0 ?req (sample_time_frame, []))") auto
  have io: "ssl_writes (pf_ssl pipe_platform) pipe_sent" "ssl_reads (pf_ssl pipe_platform) pipe_incoming"
    using pipe_writes pipe_reads by simp_all
  have "SSL_connect (pf_ssl pipe_platform) 0 (sample_time_frame, []) = (1, (sample_time_frame, []))"
    by (simp add: pipe_ssl_def)
  from client_returns_what_was_sent [OF r io this] r show ?thesis by (auto simp: pipe_sent_def)
qed

text \<open>C38: the client does return a response: when the handshake succeeds with a certificate that passes and
can be read, writes go through, and once the request is out its answer, one frame of at most 4096 bytes, is
there to be read in one piece.\<close>

theorem client_completes:
  assumes "SSL_connect (pf_ssl pf) ssl k = (rc, k1)" and "0 < rc"
    and "SSL_get1_peer_certificate (pf_ssl pf) ssl k1 = Some x" and "profile_ok (pf_x509 pf) x"
    and "read_peer_identity (pf_x509 pf) (Some x) = Inr peer"
    and "encode_request_frame request = Inr encoded"
    and "ssl_writes (pf_ssl pf) sent" and "writes_succeed (pf_ssl pf)"
    and "ssl_reads (pf_ssl pf) incoming" and "reads_available (pf_ssl pf) incoming"
    and "\<And>k2. write_all (pf_ssl pf) ssl encoded k1 = (Inr (), k2) \<Longrightarrow> incoming ssl k2 = frame"
    and "length frame \<le> 4096" and "decode_response_frame frame = Inr resp"
  shows "\<exists>k'. client_session pf ssl request k =
     (Inr \<lparr>cx_response = resp, cx_thumbprint = peer_thumbprint peer\<rparr>, k')"
  using assms by (rule client_session_completes)

definition sample_time_response :: standard_response where
  "sample_time_response = \<lparr>resp_command = get_time, resp_id = Some 1,
     resp_payload = append_be_u64 [] 1776758400, resp_code = successful\<rparr>"

lemma sample_time_exchange:
  "\<exists>encoded. encode_request_frame \<lparr>req_command = get_time, req_id = 1, req_payload = []\<rparr> = Inr encoded \<and>
     (\<forall>k2. write_all pipe_ssl 0 encoded (sample_time_frame, []) = (Inr (), k2) \<longrightarrow>
       pipe_incoming 0 k2 = sample_time_frame)"
  "read_peer_identity pipe_x509 (Some 1) = Inr \<lparr>peer_subject = [], peer_issuer = [], peer_thumbprint = ''abcd''\<rparr>"
  "decode_response_frame sample_time_frame = Inr sample_time_response" "length sample_time_frame \<le> 4096"
  "SSL_connect (pf_ssl pipe_platform) 0 k = (1, k)" "SSL_get1_peer_certificate (pf_ssl pipe_platform) 0 k = Some 1"
proof -
  obtain encoded where "encode_request_frame \<lparr>req_command = get_time, req_id = 1, req_payload = []\<rparr> = Inr encoded"
    and "length encoded = 24"
    using encode_request_frame_total [of "\<lparr>req_command = get_time, req_id = 1, req_payload = []\<rparr>"] by auto
  then show "\<exists>encoded. encode_request_frame \<lparr>req_command = get_time, req_id = 1, req_payload = []\<rparr> = Inr encoded \<and>
     (\<forall>k2. write_all pipe_ssl 0 encoded (sample_time_frame, []) = (Inr (), k2) \<longrightarrow>
       pipe_incoming 0 k2 = sample_time_frame)"
    by (auto simp: write_all_def write_all_from.simps pipe_ssl_def ssl_expect_positive_def Let_def pipe_incoming_def)
  show "read_peer_identity pipe_x509 (Some 1) =
      Inr \<lparr>peer_subject = [], peer_issuer = [], peer_thumbprint = ''abcd''\<rparr>"
    "decode_response_frame sample_time_frame = Inr sample_time_response" "length sample_time_frame \<le> 4096"
    by code_simp+
qed (simp_all add: pipe_ssl_def)

theorem client_completes_witness:
  "\<exists>k'. client_session pipe_platform 0 \<lparr>req_command = get_time, req_id = 1, req_payload = []\<rparr> (sample_time_frame, [])
     = (Inr \<lparr>cx_response = sample_time_response, cx_thumbprint = ''abcd''\<rparr>, k')"
proof -
  obtain encoded where "encode_request_frame \<lparr>req_command = get_time, req_id = 1, req_payload = []\<rparr> = Inr encoded"
    and "\<And>k2. write_all pipe_ssl 0 encoded (sample_time_frame, []) = (Inr (), k2) \<Longrightarrow>
      pipe_incoming 0 k2 = sample_time_frame"
    using sample_time_exchange(1) by blast
  from client_completes [where pf = pipe_platform, OF sample_time_exchange(5) _ sample_time_exchange(6),
      unfolded pipe_platform_simps, OF _ pipe_profile_ok sample_time_exchange(2) this(1) pipe_writes
      pipe_writes_succeed pipe_reads pipe_reads_available this(2) sample_time_exchange(4,3)]
  show ?thesis by simp
qed

lemma sample_session:
  "\<exists>k'. client_session pipe_platform 0 \<lparr>req_command = get_time, req_id = 1, req_payload = []\<rparr> (sample_time_frame, [])
     = (Inr \<lparr>cx_response = sample_time_response, cx_thumbprint = ''abcd''\<rparr>, k')"
proof -
  obtain encoded where "encode_request_frame \<lparr>req_command = get_time, req_id = 1, req_payload = []\<rparr> = Inr encoded"
    and "\<And>k2. write_all pipe_ssl 0 encoded (sample_time_frame, []) = (Inr (), k2) \<Longrightarrow>
      pipe_incoming 0 k2 = sample_time_frame"
    using sample_time_exchange(1) by blast
  from client_session_completes [where pf = pipe_platform, OF sample_time_exchange(5) _ sample_time_exchange(6),
      unfolded pipe_platform_simps, OF _ pipe_profile_ok sample_time_exchange(2) this(1) pipe_writes
      pipe_writes_succeed pipe_reads pipe_reads_available this(2) sample_time_exchange(4,3)]
  show ?thesis by simp
qed

text \<open>C15: a write either sends the whole buffer, in order and nothing twice, or throws an
\<^verbatim>\<open>AsmError\<close> after a proper prefix of it, however OpenSSL splits it; it always returns.\<close>

theorem write_all_sends:
  assumes "ssl_writes api sent"
  shows "case write_all api ssl bytes k of
      (Inr _, k') \<Rightarrow> sent ssl k' = sent ssl k @ bytes
    | (Inl e, k') \<Rightarrow> (\<exists>m. e = AsmError m) \<and> (\<exists>n < length bytes. sent ssl k' = sent ssl k @ take n bytes)"
  using write_all_sent [OF assms, of ssl bytes k] by (auto split: prod.splits sum.splits)

theorem write_all_sends_witness:
  "\<exists>k'. write_all pipe_ssl 0 (replicate 2500 7) ([], []) = (Inr (), k') \<and> pipe_sent 0 k' = replicate 2500 7"
proof -
  obtain r k' where w: "write_all pipe_ssl 0 (replicate 2500 7) ([], []) = (r, k')"
    by (cases "write_all pipe_ssl 0 (replicate 2500 7) ([], [])")
  moreover have "r = Inr ()"
    using write_all_from_succeeds [OF pipe_writes_succeed, where ssl = 0 and bytes = "replicate 2500 7"
        and offset = 0 and k = "([], [])"] w
    by (simp add: write_all_def)
  ultimately show ?thesis
    using write_all_sends [OF pipe_writes, where ssl = 0 and bytes = "replicate 2500 7" and k = "([], [])"]
    by (simp add: pipe_sent_def)
qed

section \<open>The running server\<close>

text \<open>C3: however long the responder ran, over any sequence of connections and failures, the store it
ends with keeps its invariant, holds at most sixteen keys under distinct ids, and its keys came from the
store it started with by steps each of which is one answer the abstract service allows. If it is a file,
opening that file again gives the same store: a restarted responder goes on where the last one ended.\<close>

theorem responder_keys_reachable:
  assumes "responder_main pf read_file key_file_at argv k = Some (r, Some s, out)"
    and "\<And>s0. choose_keys key_file_at argv = Inr s0 \<Longrightarrow> any_ok s0"
  shows "any_ok s \<and> card (dom (any_map s)) \<le> kCapacity \<and>
    (\<exists>s0. choose_keys key_file_at argv = Inr s0 \<and> keys_step\<^sup>*\<^sup>* (any_map s0) (any_map s)) \<and>
    (\<forall>f. s = Inr f \<and> file_readable (js_file f) \<longrightarrow> open_jsonl_le_key_store (js_file f) = Inr f)"
proof -
  from assms(1) obtain log events s0 x st where
    ev: "choose_events read_file argv = Inr (log, events)"
    and ks: "choose_keys key_file_at argv = Inr s0"
    and run: "server_run pf (responder_server log argv) (Some print_observer)
      \<lparr>st_keys = s0, st_env = k, st_openssl = openssl_fresh, st_traces = []\<rparr> = Some (x, st)"
    and s: "s = st_keys st"
    by (auto simp: responder_main_def split: if_splits sum.splits)
  have "any_ok (st_keys \<lparr>st_keys = s0, st_env = k, st_openssl = openssl_fresh, st_traces = []\<rparr>)"
    using assms(2) [OF ks] by simp
  from server_contract.server_run_keeps [OF choose_events_contract [OF ev] this run]
  have "any_ok s \<and> keys_step\<^sup>*\<^sup>* (any_map s0) (any_map s)" by (simp add: s)
  moreover from this have "open_jsonl_le_key_store (js_file f) = Inr f"
    if "s = Inr f" "file_readable (js_file f)" for f
    using that by (simp add: file_ok_def durable_reopen)
  ultimately show ?thesis using ks any_keys.capacity [of s] by blast
qed

theorem responder_keys_reachable_witness:
  "\<exists>s. responder_main pipe_platform (\<lambda>_. None) (\<lambda>_. sample_file)
      [''asm_responder'', ''cert.pem'', ''key.pem'', ''ca.pem''] ([], []) = Some (Inr 0, Some s, []) \<and>
    card (dom (any_map s)) \<le> kCapacity"
proof -
  let ?argv = "[''asm_responder'', ''cert.pem'', ''key.pem'', ''ca.pem'']"
  let ?s = "Inl \<lparr>mem_keys = []\<rparr> :: any_key_store"
  have main: "responder_main pipe_platform (\<lambda>_. None) (\<lambda>_. sample_file) ?argv ([], []) = Some (Inr 0, Some ?s, [])"
    by (simp add: responder_main_def choose_events_def choose_keys_def server_run_def server_listen_def
        responder_server_def pipe_create_server make_tcp_socket_def pipe_posix_def set_reuse_addr_def
        bind_and_listen_def bindO_def run_loop.simps run_round_def socket_close_def free_context_def close_socket_def)
  have "any_ok s0" if "choose_keys (\<lambda>_. sample_file) ?argv = Inr s0" for s0
    using that by (intro choose_keys_memory [of ?argv]) simp_all
  from responder_keys_reachable [OF main this] main show ?thesis by blast
qed

text \<open>C26: the accept loop runs for ever exactly when no round of it leaves it, and it ends normally in
the round that finds the stop flag set, however many came before.\<close>

theorem loop_stops:
  "(run_loop pf srv observer sock st = None \<longleftrightarrow> (\<forall>n. fst (rounds pf srv observer sock n st) = None)) \<and>
   (rounds pf srv observer sock n st = (None, st') \<and> pf_stop pf (st_env st') = (True, k) \<longrightarrow>
     run_loop pf srv observer sock st = Some (Inr (), st'\<lparr>st_env := k\<rparr>))"
  by (intro conjI impI, rule run_loop_None_iff, erule conjE, rule run_loop_stops)

theorem loop_stops_witness:
  "run_loop pipe_platform (responder_server (jsonl_event_log_store []) []) (Some print_observer) \<lparr>sock_fd = 3\<rparr>
     (pipe_state []) = Some (Inr (), pipe_state [])"
  using loop_stops [where pf = pipe_platform and srv = "responder_server (jsonl_event_log_store []) []"
      and observer = "Some print_observer" and sock = "\<lparr>sock_fd = 3\<rparr>" and n = 0 and k = "([], [])"
      and st = "pipe_state []" and st' = "pipe_state []"] by (simp add: pipe_state_env)

text \<open>C39: no session ends the accept loop, whatever it throws: the only exceptions that leave the
loop are a failed \<^verbatim>\<open>select\<close>, a failed \<^verbatim>\<open>accept\<close>, and one of the observer's own.\<close>

theorem loop_survives_sessions:
  assumes "run_loop pf srv observer sock st = Some (Inl e, st')"
  shows "e = AsmError ''select failed'' \<or> (\<exists>m. e = AsmError (''accept failed: '' @ m)) \<or>
    (\<exists>f trace k. observer = Some f \<and> fst (f trace k) = Inl e)"
proof -
  obtain n where "rounds pf srv observer sock n st = (Some (Inl e), st')"
    using run_loop_rounds [OF assms] by auto
  from rounds_leaves [OF this] show ?thesis by (simp add: loop_exit_def)
qed

theorem loop_survives_sessions_witness:
  "\<exists>e st'. run_loop (pipe_platform\<lparr>pf_stop := (\<lambda>k. (False, k)), pf_posix := pipe_posix\<lparr>px_accept := (\<lambda>_ k. (-1, k))\<rparr>\<rparr>)
      (responder_server (jsonl_event_log_store []) []) (Some print_observer) \<lparr>sock_fd = 3\<rparr> (pipe_state []) = Some (Inl e, st') \<and>
    (\<exists>m. e = AsmError (''accept failed: '' @ m))"
proof -
  let ?pf = "pipe_platform\<lparr>pf_stop := (\<lambda>k. (False, k)), pf_posix := pipe_posix\<lparr>px_accept := (\<lambda>_ k. (-1, k))\<rparr>\<rparr>"
  have run: "run_loop ?pf (responder_server (jsonl_event_log_store []) []) (Some print_observer) \<lparr>sock_fd = 3\<rparr> (pipe_state [])
      = Some (Inl (AsmError (''accept failed: '' @ ''error'')), pipe_state [])"
    by (simp add: run_loop.simps run_round_def pipe_posix_def socket_accept_def pipe_state_env)
  have "fst (print_observer trace k) \<noteq> Inl e" for trace k e by (simp add: print_observer_def)
  with run loop_survives_sessions [OF run] show ?thesis by auto
qed

text \<open>C37: every accepted connection is reported to an observer that does not throw exactly once, whatever
happened in it: its own trace when the session came to its end, otherwise one that carries the text of the
exception; then its descriptor is closed and the loop goes round again.\<close>

theorem connection_reported_once:
  assumes "never_throws f" and "pf_stop pf (st_env st) = (False, k1)"
    and "px_select (pf_posix pf) (sock_fd sock) k1 = (ready, k2)" and "0 < ready"
    and "socket_accept (pf_posix pf) sock k2 = (Inr client, k3)"
    and "serve_client pf srv (Some f) (sock_fd client) (st\<lparr>st_env := k3\<rparr>) = (r, st1)"
  shows "\<exists>trace st'. run_round pf srv (Some f) sock st = (None, st') \<and>
    st_traces st' = st_traces st @ [trace] \<and> st_keys st' = st_keys st1 \<and>
    st_env st' = px_close (pf_posix pf) (sock_fd client)
      (case r of Inr _ \<Rightarrow> st_env st1 | Inl e \<Rightarrow> snd (f (session_trace_default\<lparr>tr_note := what e\<rparr>) (st_env st1))) \<and>
    (\<forall>e. r = Inl e \<longrightarrow> trace = session_trace_default\<lparr>tr_note := what e\<rparr>)"
  using handle_client_reported [OF assms(1,6)] run_round_accepts [OF assms(2-5), of srv "Some f"]
  by (simp add: socket_close_accepted [OF assms(5)])

lemma print_observer_calm: "never_throws print_observer"
  by (simp add: never_throws_def print_observer_def)

text \<open>A connection for which no \<^verbatim>\<open>SSL\<close> object can be allocated, on the example environment.\<close>

definition failing_platform :: "(pipes, unit) platform" where
  "failing_platform =
     pipe_platform\<lparr>pf_stop := (\<lambda>k. (False, k)), pf_ssl := pipe_ssl\<lparr>SSL_new := \<lambda>_ k. (None, k)\<rparr>\<rparr>"

abbreviation failing_server :: "any_key_store tls_server" where
  "failing_server \<equiv>
     responder_server (jsonl_event_log_store []) [[], ''cert.pem'', ''key.pem'', ''ca.pem'']"

lemma failing_accepts:
  "pf_stop failing_platform (st_env (pipe_state [])) = (False, ([], []))"
  "px_select (pf_posix failing_platform) (sock_fd \<lparr>sock_fd = 3\<rparr>) ([], []) = (1, ([], []))"
  "(0 :: int) < 1"
  "socket_accept (pf_posix failing_platform) \<lparr>sock_fd = 3\<rparr> ([], []) = (Inr \<lparr>sock_fd = 4\<rparr>, ([], []))"
  by (simp_all add: failing_platform_def socket_accept_def pipe_posix_def)

lemma failing_client:
  "\<exists>st1. serve_client failing_platform failing_server observer (sock_fd \<lparr>sock_fd = 4\<rparr>)
       (pipe_state []\<lparr>st_env := ([], [])\<rparr>) = (Inl (AsmError ''failed to allocate SSL object''), st1) \<and>
     st_env st1 = ([], [])"
  by (simp add: failing_platform_def serve_client_def serve_connection_def responder_server_def pipe_create_server)

theorem connection_reported_once_witness:
  "\<exists>trace st'. run_round failing_platform failing_server (Some print_observer) \<lparr>sock_fd = 3\<rparr> (pipe_state []) = (None, st') \<and>
    st_traces st' = [trace] \<and> tr_note trace = ''failed to allocate SSL object''"
proof -
  obtain st1 where client: "serve_client failing_platform failing_server (Some print_observer)
      (sock_fd \<lparr>sock_fd = 4\<rparr>) (pipe_state []\<lparr>st_env := ([], [])\<rparr>)
      = (Inl (AsmError ''failed to allocate SSL object''), st1)"
    using failing_client by blast
  obtain trace st' where "run_round failing_platform failing_server (Some print_observer) \<lparr>sock_fd = 3\<rparr> (pipe_state [])
      = (None, st')" "st_traces st' = st_traces (pipe_state []) @ [trace]"
    "\<forall>e. Inl (AsmError ''failed to allocate SSL object'') = (Inl e :: unit result) \<longrightarrow>
      trace = session_trace_default\<lparr>tr_note := what e\<rparr>"
    using connection_reported_once [OF print_observer_calm failing_accepts client] by blast
  then show ?thesis by (intro exI [of _ trace] exI [of _ st'] conjI) simp_all
qed

text \<open>C29: an observer that throws is not contained. What it throws at the report of a session that went
well comes out of the session as that session's failure: the same observer is told of it a second time, in a
new trace that says the response was Successful. When it takes that report the loop goes on; what it throws
at that report leaves \<^verbatim>\<open>run\<close> and ends the server. The keys are as the session left them, and
the TLS session and the socket are closed.\<close>

theorem throwing_observer_ends_loop:
  assumes "pf_stop pf (st_env st) = (False, k1)"
    and "px_select (pf_posix pf) (sock_fd sock) k1 = (ready, k2)" and "0 < ready"
    and "socket_accept (pf_posix pf) sock k2 = (Inr client, k3)"
    and "create_server (pf_x509 pf) (pf_ctx pf) (srv_config srv) (st_openssl st) = (Inr ctx, ossl)"
    and "SSL_new (pf_ssl pf) ctx k3 = (Some ssl, k4)"
    and "serve_session pf srv None ssl (session_trace_default,
        st\<lparr>st_env := SSL_set_fd (pf_ssl pf) ssl (sock_fd client) k4, st_openssl := ossl\<rparr>) = (Inr (), trace, st1)"
    and "f trace (st_env st1) = (Inl ex, k5)"
    and "note = session_trace_default\<lparr>tr_note := what ex\<rparr>"
    and "f note (SSL_free (pf_ssl pf) ssl k5) = (r, k6)"
  shows "\<exists>st'. run_round pf srv (Some f) sock st = (case r of Inr _ \<Rightarrow> None | Inl ex' \<Rightarrow> Some (Inl ex'), st') \<and>
    st_traces st' = st_traces st @ [trace, note] \<and> tr_status note = successful \<and>
    st_keys st' = st_keys st1 \<and> st_env st' = px_close (pf_posix pf) (sock_fd client) k6 \<and>
    (\<forall>ex'. r = Inl ex' \<longrightarrow> run_loop pf srv (Some f) sock st = Some (Inl ex', st'))"
proof -
  obtain st2 where c: "serve_client pf srv (Some f) (sock_fd client) (st\<lparr>st_env := k3\<rparr>) = (Inl ex, st2)"
    "st_env st2 = SSL_free (pf_ssl pf) ssl k5" "st_keys st2 = st_keys st1"
    "st_traces st2 = st_traces st @ [trace]"
    using serve_client_observer_throws [of pf srv "st\<lparr>st_env := k3\<rparr>" ctx ossl ssl k4 "sock_fd client" trace st1 f ex k5]
      assms(5-8) by auto
  obtain st' where h: "handle_client pf srv (Some f) client (st\<lparr>st_env := k3\<rparr>)
      = (case r of Inr _ \<Rightarrow> None | Inl ex' \<Rightarrow> Some (Inl ex'), st')"
    "st_env st' = snd (socket_close (pf_posix pf) client k6)" "st_keys st' = st_keys st2"
    "st_traces st' = st_traces st2 @ [note]"
    using handle_client_observer_throws [where f = f, OF c(1), of r k6] assms(9,10) c(2) by auto
  have r: "run_round pf srv (Some f) sock st = (case r of Inr _ \<Rightarrow> None | Inl ex' \<Rightarrow> Some (Inl ex'), st')"
    using run_round_accepts [OF assms(1-4), of srv "Some f"] h(1) by simp
  have "run_loop pf srv (Some f) sock st = Some (Inl ex', st')" if "r = Inl ex'" for ex'
    using r that by (simp add: run_loop.simps)
  moreover have "tr_status note = successful" by (simp add: assms(9) session_trace_default_def)
  ultimately show ?thesis using r h(2-4) c(3,4) socket_close_accepted [OF assms(4)] by auto
qed

text \<open>A session of the example environment without an observer, on a message that is no request.\<close>

abbreviation running_platform :: "(pipes, unit) platform" where
  "running_platform \<equiv> pipe_platform\<lparr>pf_stop := (\<lambda>k. (False, k))\<rparr>"

lemma rejected_session:
  "\<exists>trace st1. serve_session running_platform failing_server None 0
      (session_trace_default, pipe_state [1, 2, 3]\<lparr>st_openssl := ossl\<rparr>) = (Inr (), trace, st1) \<and> tr_status trace = invalid"
proof -
  let ?st = "pipe_state [1, 2, 3]\<lparr>st_openssl := ossl\<rparr>"
    and ?peer = "\<lparr>peer_subject = [], peer_issuer = [], peer_thumbprint = ''abcd''\<rparr>"
  have "accepted running_platform 0 (st_env ?st) (st_env ?st) ?peer"
    using pipe_accepted [of 0 "st_env ?st"] by (simp add: accepted_def)
  moreover obtain k2 where "read_one_message pipe_ssl 0 (st_env ?st) = (Inr [1, 2, 3], k2)"
    using read_one_message_whole [OF pipe_reads pipe_reads_available, of 0 "st_env ?st"]
    by (auto simp: pipe_incoming_def)
  then have "read_one_message (pf_ssl running_platform) 0 (st_env ?st) = (Inr [1, 2, 3], k2)" by simp
  ultimately have s: "serve_session running_platform failing_server None 0 (session_trace_default, ?st) =
      bindO (answer_request running_platform failing_server 0 ?peer [1, 2, 3])
        (\<lambda>_. \<lambda>(trace, st). case notify None trace st of (r, st') \<Rightarrow> (r, trace, st'))
        (session_trace_default\<lparr>tr_thumbprint := peer_thumbprint ?peer\<rparr>, ?st\<lparr>st_env := k2\<rparr>)"
    by (rule serve_session_accepted)
  obtain t' st' where a: "answer_request running_platform failing_server 0 ?peer [1, 2, 3]
      (session_trace_default\<lparr>tr_thumbprint := peer_thumbprint ?peer\<rparr>, ?st\<lparr>st_env := k2\<rparr>) = (Inr (), t', st')"
    and invalid: "tr_status t' = invalid"
  proof -
    have w: "ssl_writes (pf_ssl running_platform) pipe_sent" "writes_succeed (pf_ssl running_platform)"
      "clock_silent running_platform pipe_sent"
      using pipe_writes pipe_writes_succeed pipe_clock_silent by (simp_all add: clock_silent_def)
    have no: "decode_request_frame [1, 2, 3] = Inl (AsmError ''KLV packet too short'')"
      by (simp add: decode_request_frame_def klv_decode_def)
    have ok: "any_ok (st_keys (?st\<lparr>st_env := k2\<rparr>))" by (simp add: memory_ok_def)
    obtain t' st' frame resp where "answer_request running_platform failing_server 0 ?peer [1, 2, 3]
      (session_trace_default\<lparr>tr_thumbprint := peer_thumbprint ?peer\<rparr>, ?st\<lparr>st_env := k2\<rparr>) = (Inr (), t', st')"
      "tr_status t' = resp_code resp"
      "replies (world_of (srv_service failing_server) [] (session_now running_platform k2))
         (any_map (st_keys (?st\<lparr>st_env := k2\<rparr>))) [1, 2, 3] resp (any_map (st_keys st'))"
      using responder_jsonl_service.answer_request_replies
        [where bytes = "[1, 2, 3]", OF ok _ w, where ssl = 0 and peer = ?peer and events = "[]"
          and argv = "[[], ''cert.pem'', ''key.pem'', ''ca.pem'']"
          and t = "session_trace_default\<lparr>tr_thumbprint := peer_thumbprint ?peer\<rparr>"] by auto
    with no that show ?thesis by (auto simp: replies_def)
  qed
  have "serve_session running_platform failing_server None 0 (session_trace_default, ?st) = (Inr (), t', st')"
    unfolding s by (subst bindO_Inr, rule a) (simp add: notify_def)
  with invalid show ?thesis by blast
qed

theorem throwing_observer_ends_loop_witness:
  "\<exists>st'. run_loop running_platform failing_server (Some (\<lambda>trace. liftO (Inl (RuntimeError ''disk full''))))
      \<lparr>sock_fd = 3\<rparr> (pipe_state [1, 2, 3]) = Some (Inl (RuntimeError ''disk full''), st') \<and>
    map tr_status (st_traces st') = [invalid, successful]"
proof -
  let ?f = "\<lambda>trace. liftO (Inl (RuntimeError ''disk full'')) :: (pipes, unit) op" and ?k = "([1, 2, 3], [])"
  let ?note = "session_trace_default\<lparr>tr_note := what (RuntimeError ''disk full'')\<rparr>"
  obtain ossl where c: "create_server pipe_x509 pipe_ctx (srv_config failing_server) openssl_fresh = (Inr (), ossl)"
    by (simp add: responder_server_def pipe_create_server)
  obtain trace st1 where s: "serve_session running_platform failing_server None 0
      (session_trace_default, pipe_state [1, 2, 3]\<lparr>st_openssl := ossl\<rparr>) = (Inr (), trace, st1)" "tr_status trace = invalid"
    using rejected_session by blast
  have thrown: "?f t k = (Inl (RuntimeError ''disk full''), k)" for t k by (simp add: liftO_def)
  have accepts: "pf_stop running_platform (st_env (pipe_state [1, 2, 3])) = (False, ?k)"
    "px_select (pf_posix running_platform) (sock_fd \<lparr>sock_fd = 3\<rparr>) ?k = (1, ?k)" "(0 :: int) < 1"
    "socket_accept (pf_posix running_platform) \<lparr>sock_fd = 3\<rparr> ?k = (Inr \<lparr>sock_fd = 4\<rparr>, ?k)"
    by (simp_all add: socket_accept_def pipe_posix_def)
  have "create_server (pf_x509 running_platform) (pf_ctx running_platform) (srv_config failing_server)
      (st_openssl (pipe_state [1, 2, 3])) = (Inr (), ossl)"
    and "SSL_new (pf_ssl running_platform) () ?k = (Some 0, ?k)"
    and "serve_session running_platform failing_server None 0 (session_trace_default, pipe_state [1, 2, 3]
      \<lparr>st_env := SSL_set_fd (pf_ssl running_platform) 0 (sock_fd \<lparr>sock_fd = 4\<rparr>) ?k, st_openssl := ossl\<rparr>)
      = (Inr (), trace, st1)"
    using c s(1) by (simp_all add: pipe_ssl_def pipe_state_env)
  from throwing_observer_ends_loop [where f = ?f, OF accepts this thrown refl thrown] s(2)
  show ?thesis by (auto simp: session_trace_default_def)
qed

section \<open>Sequences of requests\<close>

lemma load_response_code:
  "handle_le_key_load svc r s = (Inr sr, s') \<Longrightarrow> decode_load_request (req_payload r) = Inr \<lparr>load_request_keys = ks\<rparr> \<Longrightarrow>
     \<exists>b. load_keys (key_store svc) ks s = (Inr b, s') \<and> (resp_code (sr_response sr) = successful \<longleftrightarrow> \<not> b)"
  by (auto simp: handle_le_key_load_def bindO_def reply_def split: prod.splits sum.splits if_splits)

text \<open>C8: after a successful LEKeyLoad, LEKeyQueryID answers that a key is present exactly for the ids
that were loaded and those that were present before.\<close>

theorem load_then_query:
  assumes "any_ok s" and "i \<noteq> 0" and "j \<noteq> 0" and "length ks < 2 ^ 32"
    and "handle_request (the_service events argv) now
        \<lparr>req_command = le_key_load, req_id = i, req_payload = encode_load_request \<lparr>load_request_keys = ks\<rparr>\<rparr> raw ctx s = (Inr sr, s')"
    and "resp_code (sr_response sr) = successful"
  shows "\<exists>sr2. handle_request (the_service events argv) now2
        \<lparr>req_command = le_key_query_id, req_id = j, req_payload = encode_query_id_request \<lparr>query_id_key_id = q\<rparr>\<rparr> raw2 ctx2 s' = (Inr sr2, s') \<and>
     resp_code (sr_response sr2) = successful \<and>
     decode_query_id_response (resp_payload (sr_response sr2)) =
       Inr \<lparr>query_id_key_present = (any_map s q \<noteq> None \<or> q \<in> key_id ` set ks)\<rparr>"
proof -
  have store: "key_store (the_service events argv) = any_store"
    by (simp add: responder_server_def asm_service_with_stores_def)
  let ?r = "\<lparr>req_command = le_key_load, req_id = i, req_payload = encode_load_request \<lparr>load_request_keys = ks\<rparr>\<rparr>"
  have "handle_le_key_load (the_service events argv) ?r s = (Inr sr, s')"
    using assms(2,5) by (simp add: handle_request_def)
  moreover have "decode_load_request (req_payload ?r) = Inr \<lparr>load_request_keys = ks\<rparr>"
    using assms(4) by (simp add: decode_encode_requests)
  ultimately have "load_keys any_store ks s = (Inr False, s')"
    using load_response_code [of "the_service events argv" ?r s sr s' ks] assms(6) store by auto
  from any_keys.loaded_contains [OF assms(1) this]
  have "contains_key any_store q s' \<longleftrightarrow> any_map s q \<noteq> None \<or> q \<in> key_id ` set ks"
    by (simp add: any_keys.contains [OF assms(1)])
  then show ?thesis
    using assms(3) by (simp add: handle_request_def handle_le_key_query_id_def decode_encode_requests store)
qed

theorem load_then_query_witness:
  "\<exists>sr2 s'. handle_request (the_service [] []) 0
        \<lparr>req_command = le_key_query_id, req_id = 2, req_payload = encode_query_id_request \<lparr>query_id_key_id = 7\<rparr>\<rparr> []
        \<lparr>ctx_peer = None, ctx_received_at = 0\<rparr> s' = (Inr sr2, s') \<and>
     decode_query_id_response (resp_payload (sr_response sr2)) = Inr \<lparr>query_id_key_present = True\<rparr>"
proof -
  let ?ctx = "\<lparr>ctx_peer = None, ctx_received_at = 0\<rparr>"
  let ?s = "Inl \<lparr>mem_keys = []\<rparr> :: any_key_store"
  let ?r = "\<lparr>req_command = le_key_load, req_id = 1, req_payload = encode_load_request \<lparr>load_request_keys = [sample_key 7]\<rparr>\<rparr>"
  have one: "decode_load_request (encode_load_request \<lparr>load_request_keys = [sample_key 7]\<rparr>) = Inr \<lparr>load_request_keys = [sample_key 7]\<rparr>"
    by (simp add: decode_encode_requests)
  have "\<exists>sr. handle_request (the_service [] []) 0 ?r [] ?ctx ?s = (Inr sr, Inl \<lparr>mem_keys = [sample_key 7]\<rparr>) \<and>
      resp_code (sr_response sr) = successful"
    by (simp add: handle_request_def handle_le_key_load_def one responder_server_def asm_service_with_stores_def
        any_store_def any_op_def in_memory_load_keys_def would_overflow_def kCapacity_def bindO_def reply_def)
  then obtain sr where h: "handle_request (the_service [] []) 0 ?r [] ?ctx ?s = (Inr sr, Inl \<lparr>mem_keys = [sample_key 7]\<rparr>)"
    and c: "resp_code (sr_response sr) = successful" by blast
  have "any_ok ?s" by (simp add: memory_ok_def)
  from load_then_query [OF this _ _ _ h c, where j = 2 and ?now2.0 = 0 and q = 7 and ?raw2.0 = "[]" and ?ctx2.0 = ?ctx]
  show ?thesis by (auto simp: sample_key_def)
qed

text \<open>C9: after LEKeyPurgeID, LEKeyQueryAll lists every id that was held but the purged one, each once,
and LEKeyPurgeID had answered whether there was a key to purge.\<close>

theorem purge_then_query_all:
  assumes "any_ok s" and "i \<noteq> 0" and "j \<noteq> 0"
  shows "\<exists>sr s' sr2 ids. handle_request (the_service events argv) now
        \<lparr>req_command = le_key_purge_id, req_id = i, req_payload = encode_purge_id_request \<lparr>purge_id_key_id = q\<rparr>\<rparr> raw ctx s = (Inr sr, s') \<and>
     decode_purge_id_response (resp_payload (sr_response sr)) = Inr \<lparr>purge_id_no_key_id = any_map s q = None\<rparr> \<and>
     handle_request (the_service events argv) now2
        \<lparr>req_command = le_key_query_all, req_id = j, req_payload = []\<rparr> raw2 ctx2 s' = (Inr sr2, s') \<and>
     decode_query_all_response (resp_payload (sr_response sr2)) = Inr \<lparr>query_all_key_ids = ids\<rparr> \<and>
     distinct ids \<and> set ids = dom (any_map s) - {q}"
proof -
  have store: "key_store (the_service events argv) = any_store"
    by (simp add: responder_server_def asm_service_with_stores_def)
  obtain s' where p: "purge_key any_store q s = (Inr (any_map s q \<noteq> None), s')" "any_ok s'"
    "any_map s' = (any_map s)(q := None)"
    using any_keys.purge [OF assms(1)] by blast
  let ?ids = "list_key_ids any_store s'"
  have ids: "distinct ?ids \<and> set ?ids = dom (any_map s) - {q}"
    using any_keys.list_ids [OF p(2)] p(3) by auto
  have "length ?ids < 2 ^ 32"
    using any_keys.list_length [OF p(2)] by (simp add: kCapacity_def)
  then have dec: "decode_query_all_response (encode_query_all_response \<lparr>query_all_key_ids = ?ids\<rparr>) = Inr \<lparr>query_all_key_ids = ?ids\<rparr>"
    by (simp add: query_all_response_iff)
  have "\<exists>sr. handle_request (the_service events argv) now
        \<lparr>req_command = le_key_purge_id, req_id = i, req_payload = encode_purge_id_request \<lparr>purge_id_key_id = q\<rparr>\<rparr> raw ctx s = (Inr sr, s') \<and>
     decode_purge_id_response (resp_payload (sr_response sr)) = Inr \<lparr>purge_id_no_key_id = any_map s q = None\<rparr>"
    using assms(2) p(1)
    by (simp add: handle_request_def handle_le_key_purge_id_def decode_encode_requests store bindO_def reply_def)
  moreover have "\<exists>sr2. handle_request (the_service events argv) now2
        \<lparr>req_command = le_key_query_all, req_id = j, req_payload = []\<rparr> raw2 ctx2 s' = (Inr sr2, s') \<and>
     decode_query_all_response (resp_payload (sr_response sr2)) = Inr \<lparr>query_all_key_ids = ?ids\<rparr>"
    using assms(3) dec by (simp add: handle_request_def handle_le_key_query_all_def store)
  ultimately show ?thesis using ids by blast
qed

theorem purge_then_query_all_witness:
  "\<exists>sr s' sr2 ids. handle_request (the_service [] []) 0
        \<lparr>req_command = le_key_purge_id, req_id = 1, req_payload = encode_purge_id_request \<lparr>purge_id_key_id = 7\<rparr>\<rparr> []
        \<lparr>ctx_peer = None, ctx_received_at = 0\<rparr> (Inl \<lparr>mem_keys = [sample_key 7, sample_key 8]\<rparr>) = (Inr sr, s') \<and>
     handle_request (the_service [] []) 0
        \<lparr>req_command = le_key_query_all, req_id = 2, req_payload = []\<rparr> []
        \<lparr>ctx_peer = None, ctx_received_at = 0\<rparr> s' = (Inr sr2, s') \<and>
     decode_query_all_response (resp_payload (sr_response sr2)) = Inr \<lparr>query_all_key_ids = ids\<rparr> \<and> set ids = {8}"
proof -
  let ?s = "Inl \<lparr>mem_keys = [sample_key 7, sample_key 8]\<rparr> :: any_key_store"
  have "any_ok ?s" by (simp add: memory_ok_def keys_ok_def kCapacity_def sample_key_def)
  moreover have "dom (any_map ?s) = {7, 8}"
    by (simp add: memory_map_def dom_key_map sample_key_def)
  ultimately show ?thesis
    using purge_then_query_all [of ?s 1 2 "[]" "[]" 0 7 "[]" "\<lparr>ctx_peer = None, ctx_received_at = 0\<rparr>" 0 "[]"
        "\<lparr>ctx_peer = None, ctx_received_at = 0\<rparr>"]
    by auto
qed

text \<open>C34: no client can tell whether the responder keeps its keys in a file or in memory: for every
sequence of requests, malformed ones and refused ones included, the service gives the same results, notes
and orders of ids on both, and ends with the same keys; and if it is restarted then, it goes on with them.
The file must be writable and have room for a full store.\<close>

theorem stores_indistinguishable:
  assumes "file_ok f" and "serve_all (the_service events argv) calls (Inr f) = (results, s')"
  shows "\<exists>f'. s' = Inr f' \<and> file_ok f' \<and>
    serve_all (the_service events argv) calls (Inl \<lparr>mem_keys = js_keys f\<rparr>)
      = (results, Inl \<lparr>mem_keys = js_keys f'\<rparr>) \<and>
    (file_readable (js_file f') \<longrightarrow> open_jsonl_le_key_store (js_file f') = Inr f')"
proof -
  have store: "key_store (the_service events argv) = any_store"
    by (simp add: responder_server_def asm_service_with_stores_def)
  have "isl s' = isl (Inr f :: any_key_store)"
    by (rule serve_all_keeps [OF keeps_kind [OF store] assms(2)])
  then obtain f' where f': "s' = Inr f'" by (cases s') simp_all
  have "any_ok (Inr f)" using assms(1) by simp
  from any_in_memory.serve_all_sim [OF store store refl refl this assms(2)] f'
  have "serve_all (the_service events argv) calls (Inl \<lparr>mem_keys = js_keys f\<rparr>)
      = (results, Inl \<lparr>mem_keys = js_keys f'\<rparr>)" and "file_ok f'"
    by (simp_all add: in_memory_of_def memory_of_def)
  with f' durable_reopen [of f'] show ?thesis by (simp add: file_ok_def)
qed

definition sample_calls :: "service_call list" where
  "sample_calls =
     [(0, \<lparr>req_command = le_key_load, req_id = 1, req_payload = encode_load_request \<lparr>load_request_keys = [sample_key 7]\<rparr>\<rparr>,
        [], \<lparr>ctx_peer = None, ctx_received_at = 0\<rparr>),
      (0, \<lparr>req_command = le_key_query_id, req_id = 2, req_payload = encode_query_id_request \<lparr>query_id_key_id = 7\<rparr>\<rparr>,
        [], \<lparr>ctx_peer = None, ctx_received_at = 0\<rparr>)]"

theorem stores_indistinguishable_witness:
  "\<exists>results f'. serve_all (the_service [] []) sample_calls (Inr \<lparr>js_file = sample_file, js_keys = []\<rparr>) = (results, Inr f') \<and>
    serve_all (the_service [] []) sample_calls (Inl \<lparr>mem_keys = []\<rparr>) = (results, Inl \<lparr>mem_keys = [sample_key 7]\<rparr>) \<and>
    js_keys f' = [sample_key 7] \<and> open_jsonl_le_key_store (js_file f') = Inr f'"
proof -
  let ?f = "\<lparr>js_file = sample_file, js_keys = []\<rparr>"
  let ?f' = "\<lparr>js_file = sample_file\<lparr>file_content := Some (keys_file [sample_key 7])\<rparr>, js_keys = [sample_key 7]\<rparr>"
  have one: "decode_load_request (encode_load_request \<lparr>load_request_keys = [sample_key 7]\<rparr>) = Inr \<lparr>load_request_keys = [sample_key 7]\<rparr>"
    by (simp add: decode_encode_requests)
  have load: "jsonl_load_keys [sample_key 7] ?f = (Inr False, ?f')"
    by (simp add: jsonl_load_keys_def would_overflow_def kCapacity_def bindO_def persist_def sample_room)
  have "\<exists>results. serve_all (the_service [] []) sample_calls (Inr ?f) = (results, Inr ?f')"
    by (simp add: sample_calls_def handle_request_def handle_le_key_load_def handle_le_key_query_id_def one load
        decode_encode_requests responder_server_def asm_service_with_stores_def any_store_def any_op_def bindO_def reply_def)
  then obtain results where run: "serve_all (the_service [] []) sample_calls (Inr ?f) = (results, Inr ?f')" by blast
  have ok: "file_ok ?f" by (simp add: file_ok_def durable_def)
  from stores_indistinguishable [OF ok run] run show ?thesis by auto
qed

section \<open>Certificates and the TLS profile\<close>

text \<open>A certificate passes exactly when its public key can be read, is an RSA key with both
parameters, its modulus has 2048 bits and its exponent is 65537.\<close>

lemma certificate_profile_exact:
  "validate_certificate_profile api c = Inr () \<longleftrightarrow>
     (\<exists>x key rsa n e. c = Some x \<and> X509_get_pubkey api x = Some key \<and>
        EVP_PKEY_base_id api key = EVP_PKEY_RSA api \<and> EVP_PKEY_get0_RSA api key = Some rsa \<and>
        RSA_get0_key api rsa = (Some n, Some e) \<and> BN_num_bits api n = 2048 \<and> BN_get_word api e = 65537)"
  by (auto simp: validate_Inr_iff profile_ok_def)

text \<open>C24: a server context exists only when the server's own certificate file holds a certificate that
meets the profile, and the last thing done to it is to set how peers are verified: with the default
configuration, verify them and fail without a certificate.\<close>

theorem server_context_verifies_peers:
  assumes "create_server x509 api config ossl = (Inr c, ossl')"
  shows "(\<exists>x. read_pem x509 (certificate config) = Some (Some x) \<and>
      validate_certificate_profile x509 (Some x) = Inr ()) \<and>
    (\<exists>c1. c = SSL_CTX_set_verify api
       (if verify_peer config
        then if require_peer_certificate config then SSL_VERIFY_PEER api OR SSL_VERIFY_FAIL_IF_NO_PEER_CERT api
             else SSL_VERIFY_PEER api
        else SSL_VERIFY_NONE api) c1)"
  using create_ctx_profile [of x509 api config True ossl c ossl'] assms
  by (auto simp: create_server_def verify_mode_of_def validate_Inr_iff)

theorem server_context_verifies_peers_witness:
  "\<exists>x. read_pem pipe_x509 ''cert.pem'' = Some (Some x) \<and> validate_certificate_profile pipe_x509 (Some x) = Inr ()"
  using server_context_verifies_peers [OF pipe_create_server [of "''ca.pem''" openssl_fresh]] by simp

section \<open>The initiator\<close>

text \<open>C27: the nine command names are the only ones accepted, each for its own command, and whatever
request is built from the arguments carries the id 1, is well-formed for the service, and encodes to a
frame of at most 64 bytes.\<close>

theorem initiator_requests_well_formed:
  assumes "parse_command v = Inr c" and "build_request c argv = Inr r"
  shows "v = command_name c \<and> req_command r = c \<and> req_id r = 1 \<and> \<not> malformed r \<and>
    (\<exists>frame. encode_request_frame r = Inr frame \<and> length frame \<le> 64)"
proof -
  have c: "c \<noteq> bad_request" "v = command_name c" using assms(1) by (simp_all add: parse_command_Inr_iff)
  note shape = build_request_shape [OF assms(2)]
  note len = build_request_length [OF assms(2)]
  obtain frame where "encode_request_frame r = Inr frame" "length frame = 24 + length (req_payload r)"
    using encode_request_frame_total [of r] c(1) shape len by auto
  with c(2) shape len build_request_not_malformed [OF assms(2)] show ?thesis by auto
qed

theorem initiator_requests_well_formed_witness:
  "\<exists>r frame. build_request get_event_id [''asm_initiator'', ''host'', ''get-event-id'', ''1001''] = Inr r \<and>
     \<not> malformed r \<and> encode_request_frame r = Inr frame"
proof -
  have "dec_string 1001 = ''1001''" by code_simp
  then have "stoul 10 ''1001'' = Inr 1001" using sto_unsigned_dec_string [of 1001] by (simp add: stoul_def)
  then have b: "\<exists>r. build_request get_event_id [''asm_initiator'', ''host'', ''get-event-id'', ''1001''] = Inr r"
    by (simp add: build_request_def request_payload_def stoul_u32_def)
  have "parse_command ''get-event-id'' = Inr get_event_id" by (simp add: parse_command_def)
  with b initiator_requests_well_formed show ?thesis by blast
qed

text \<open>C28: of the answers the service gives to requests built by the initiator, the only one the
initiator cannot print is the refusal of a reversed time window: its empty payload is decoded as a batch,
the exception reaches the end of \<^verbatim>\<open>main\<close>, and the process is aborted.\<close>

theorem initiator_prints_all_but_reversed_window:
  assumes "serves w m r raw resp m'" and "build_request c argv = Inr r"
    and "length (w_events w) < 2 ^ 32" and "card (dom m) \<le> kCapacity"
  shows "(\<exists>text. response_text \<lparr>cx_response = resp, cx_thumbprint = tp\<rparr> = Inr text) \<longleftrightarrow>
     \<not> (c = get_event_list \<and> resp_code resp = invalid)"
  using served_payload_text [OF assms] by (simp add: response_text_def mapE_eq_Inr)

theorem initiator_prints_all_but_reversed_window_witness:
  "\<exists>resp. serves \<lparr>w_events = [], w_status = playing, w_seconds = 0\<rparr> Map.empty
      \<lparr>req_command = get_event_list, req_id = 1,
       req_payload = event_list_encode_request \<lparr>time_start = 20, time_stop = 10\<rparr>\<rparr> [] resp Map.empty \<and>
    \<not> (\<exists>text. response_text \<lparr>cx_response = resp, cx_thumbprint = []\<rparr> = Inr text)"
proof -
  let ?r = "\<lparr>req_command = get_event_list, req_id = 1,
    req_payload = event_list_encode_request \<lparr>time_start = 20, time_stop = 10\<rparr>\<rparr>"
  let ?w = "\<lparr>w_events = [], w_status = playing, w_seconds = 0\<rparr>"
  let ?argv = "[''asm_initiator'', ''host'', ''get-event-list'', ''20'', ''10'']"
  have sv: "serves ?w Map.empty ?r [] (answer ?r [] invalid) Map.empty"
    by (rule serves.window_reversed [of _ "\<lparr>time_start = 20, time_stop = 10\<rparr>"]) simp_all
  have "dec_string 20 = ''20''" "dec_string 10 = ''10''" by code_simp+
  then have "stoul 10 ''20'' = Inr 20" "stoul 10 ''10'' = Inr 10"
    using sto_unsigned_dec_string [of 20] sto_unsigned_dec_string [of 10] by (simp_all add: stoul_def)
  then have b: "build_request get_event_list ?argv = Inr ?r"
    by (simp add: build_request_def request_payload_def stoul_u32_def)
  have "\<not> (\<exists>text. response_text \<lparr>cx_response = answer ?r [] invalid, cx_thumbprint = []\<rparr> = Inr text)"
    using initiator_prints_all_but_reversed_window [OF sv b, of "[]"] by simp
  with sv show ?thesis by blast
qed

text \<open>C23: what the exit status of the initiator means. With status 1 it has done nothing but complain
about its arguments. Status 0 means that the named command was sent, as one whole frame, to a server whose
certificate meets the profile, that one response was read and decoded, and that the line printed is the line
for that response. (Every other way out is an exception that ends the process.)\<close>

theorem initiator_exit_status:
  assumes "initiator_main pf argv st = (Inr ex, st')"
  shows "exit_code ex = 1 \<and> std_out ex = [] \<and> st' = st \<or>
    exit_code ex = 0 \<and> std_err ex = [] \<and>
      (\<exists>c request encoded ssl k1 k2 k3 bytes x result.
        argv ! 2 = command_name c \<and> build_request c argv = Inr request \<and>
        encode_request_frame request = Inr encoded \<and>
        SSL_get1_peer_certificate (pf_ssl pf) ssl k1 = Some x \<and> profile_ok (pf_x509 pf) x \<and>
        write_all (pf_ssl pf) ssl encoded k1 = (Inr (), k2) \<and>
        read_one_message (pf_ssl pf) ssl k2 = (Inr bytes, k3) \<and>
        decode_response_frame bytes = Inr (cx_response result) \<and> response_text result = Inr (std_out ex))"
proof (cases "length argv < 6")
  case True
  with assms show ?thesis by (auto simp: initiator_main_def)
next
  case False
  with assms obtain c where c: "parse_command (argv ! 2) = Inr c"
    by (cases "parse_command (argv ! 2)") (auto simp: initiator_main_def)
  obtain n where n: "command_argc c = Some n" using parse_command_argc [OF c] by blast
  let ?config = "tls_config_default\<lparr>certificate := argv ! (3 + n), private_key := argv ! (3 + n + 1),
      ca_certificate := argv ! (3 + n + 2)\<rparr>"
  show ?thesis
  proof (cases "length argv = 3 + n + 3")
    case bad: False
    with assms False c n show ?thesis by (auto simp: initiator_main_def)
  next
    case True
    with assms False c n have "bindO (liftO (build_request c argv)) (\<lambda>request.
        bindO (send_request pf ?config (argv ! 1) 1173 request) (\<lambda>result.
        bindO (liftO (response_text result)) (\<lambda>text.
        returnO \<lparr>exit_code = 0, std_out = text, std_err = []\<rparr>))) st = (Inr ex, st')"
      by (simp add: initiator_main_def Let_def)
    then obtain request result line st1 where b: "build_request c argv = Inr request"
      and s: "send_request pf ?config (argv ! 1) 1173 request st = (Inr result, st1)"
      and t: "response_text result = Inr line" "ex = \<lparr>exit_code = 0, std_out = line, std_err = []\<rparr>"
      by (auto elim!: bindO_InrE)
    obtain ssl k k' where "client_session pf ssl request k = (Inr result, k')"
      by (rule send_request_Inr [OF s])
    then obtain encoded k1 k2 bytes x where "encode_request_frame request = Inr encoded"
      "write_all (pf_ssl pf) ssl encoded k1 = (Inr (), k2)" "read_one_message (pf_ssl pf) ssl k2 = (Inr bytes, k')"
      "decode_response_frame bytes = Inr (cx_response result)"
      "SSL_get1_peer_certificate (pf_ssl pf) ssl k1 = Some x" "profile_ok (pf_x509 pf) x"
      by (rule client_session_Inr) blast
    moreover have "argv ! 2 = command_name c" using c by (simp add: parse_command_Inr_iff)
    ultimately show ?thesis using b t by simp blast
  qed
qed

theorem initiator_exit_status_witness:
  "\<exists>line st'. initiator_main pipe_platform [''asm_initiator'', ''host'', ''get-time'', ''cert.pem'', ''key.pem'', ''ca.pem'']
      \<lparr>cl_env = (sample_time_frame, []), cl_openssl = openssl_fresh\<rparr>
      = (Inr \<lparr>exit_code = 0, std_out = line, std_err = []\<rparr>, st') \<and>
    (\<exists>bytes result. decode_response_frame bytes = Inr (cx_response result) \<and> response_text result = Inr line)"
proof -
  let ?argv = "[''asm_initiator'', ''host'', ''get-time'', ''cert.pem'', ''key.pem'', ''ca.pem'']"
  let ?st = "\<lparr>cl_env = (sample_time_frame, []), cl_openssl = openssl_fresh\<rparr> :: pipes client_state"
  let ?result = "\<lparr>cx_response = sample_time_response, cx_thumbprint = ''abcd''\<rparr>"
  obtain k where "client_session pipe_platform 0 \<lparr>req_command = get_time, req_id = 1, req_payload = []\<rparr>
      (sample_time_frame, []) = (Inr ?result, k)"
    using sample_session by blast
  then have "client_exchange pipe_platform () \<lparr>sock_fd = 3\<rparr> \<lparr>req_command = get_time, req_id = 1, req_payload = []\<rparr>
      (sample_time_frame, []) = (Inr ?result, k)"
    by (simp add: client_exchange_def pipe_ssl_def client_ssl_deleter_def)
  moreover have "socket_connect pipe_posix \<lparr>sock_fd = 3\<rparr> ''host'' 1173 k = (Inr (), k)" for k
    by (simp add: socket_connect_def) (simp add: pipe_posix_def)
  moreover have "make_tcp_socket pipe_posix k = (Inr \<lparr>sock_fd = 3\<rparr>, k)" for k
    by (simp add: make_tcp_socket_def) (simp add: pipe_posix_def)
  ultimately have "\<exists>st'. send_request pipe_platform (tls_config_default\<lparr>certificate := ''cert.pem'', private_key := ''key.pem'',
      ca_certificate := ''ca.pem''\<rparr>) ''host'' 1173 \<lparr>req_command = get_time, req_id = 1, req_payload = []\<rparr> ?st = (Inr ?result, st')"
    by (simp add: send_request_def pipe_create_client client_connect_def bindO_def)
  moreover obtain line where line: "response_text ?result = Inr line"
    by (simp add: response_text_def payload_text_def sample_time_response_def decode_be_u64_append)
  ultimately obtain st' where run: "initiator_main pipe_platform ?argv ?st
      = (Inr \<lparr>exit_code = 0, std_out = line, std_err = []\<rparr>, st')"
    by (auto simp: initiator_main_def parse_command_def command_argc_def build_request_def request_payload_def bindO_def)
  from initiator_exit_status [OF run]
  have "\<exists>bytes result. decode_response_frame bytes = Inr (cx_response result) \<and> response_text result = Inr line" by auto
  with run show ?thesis by blast
qed

lemma parse_key_hex_repeated:
  assumes "length p = 2" and "stoul 16 p = Inr v"
  shows "parse_key_hex (concat (replicate 16 p)) = Inr (array16_of (replicate 16 (ucast v)))"
proof -
  obtain a b where p: "p = [a, b]" using assms(1) by (auto simp: numeral_2_eq_2 length_Suc_conv)
  have "take 2 (drop (i * 2) (concat (replicate 16 p))) = p" if "i < 16" for i
    using that by (auto simp: p numeral_eq_Suc less_Suc_eq)
  then have tr: "traverseE (\<lambda>i. mapE ucast (stoul 16 (take 2 (drop (i * 2) (concat (replicate 16 p)))))) [0..<16]
      = Inr (map (\<lambda>i. ucast v) [0..<16])"
    by (intro traverseE_all_Inr) (simp add: assms(2))
  have len: "length (concat (replicate 16 p)) = 32" by (simp add: p numeral_eq_Suc)
  have "map (\<lambda>i. ucast v :: byte) [0..<16] = replicate 16 (ucast v)"
    by (simp add: map_replicate_const)
  then show ?thesis unfolding parse_key_hex_def len tr by (simp del: upt_conv_Cons)
qed

text \<open>The key given on the command line need not be hexadecimal: a pair whose second character is
no digit counts as its first digit, and a sign and a bare \<^verbatim>\<open>0x\<close> are read as
\<^verbatim>\<open>std::stoul\<close> reads them.\<close>

lemma key_argument_lenient:
  "parse_key_hex (concat (replicate 16 ''1g'')) = Inr (array16_of (replicate 16 0x01)) \<and>
   parse_key_hex (concat (replicate 16 ''-f'')) = Inr (array16_of (replicate 16 0xf1)) \<and>
   parse_key_hex (concat (replicate 16 ''0x'')) = Inr (array16_of (replicate 16 0x00))"
proof -
  have "strto_digits 16 ''1g'' = (False, ''1'')" "strto_digits 16 ''-f'' = (True, ''f'')"
    "strto_digits 16 ''0x'' = (False, ''0'')" "num_value 16 ''1'' = 1" "num_value 16 ''f'' = 15"
    "num_value 16 ''0'' = 0" by code_simp+
  then have "stoul 16 ''1g'' = Inr 1" "stoul 16 ''-f'' = Inr (- 15)" "stoul 16 ''0x'' = Inr 0"
    by (simp_all add: stoul_def sto_unsigned_def)
  from this [THEN parse_key_hex_repeated [rotated]] show ?thesis by simp
qed

section \<open>The two programs together\<close>

text \<open>C40: a whole exchange, the initiator's session against the responder's. On both sides the
handshake succeeds with a certificate inside the profile, and the streams are joined: what the client has
written is there for the server to read, and what the server's session has written is there for the client.
Then every command line the initiator accepts becomes a frame that the responder answers with one frame, as
the abstract service allows for that very request. When that answer is at most 4096 bytes long the initiator
returns exactly it, and prints it unless it refuses a reversed time window; a longer answer is cut by the one
read the client makes, and its session ends in an exception. Only the answers about events can be that long:
\<open>answer_bound\<close> is 77 for every other command, and for these it grows with the number of events and
with \<open>n\<close>, the size of the largest one.\<close>

theorem initiator_is_answered:
  assumes "parse_command v = Inr c" and "build_request c cmdline = Inr r"
    and "any_ok (st_keys st)" and "xml_bound n events" and "length events < 2 ^ 32"
    and "connection_ok (pf_ssl pf) sent incoming" and "reads_available (pf_ssl pf) incoming"
    and "clock_silent pf sent" and "accepted pf ssl (st_env st) k1 peer"
    and "connection_ok (pf_ssl cpf) csent cincoming" and "reads_available (pf_ssl cpf) cincoming"
    and "connected cpf cssl ck ck1 cpeer"
    and "\<And>bytes ck2. encode_request_frame r = Inr bytes \<Longrightarrow>
      write_all (pf_ssl cpf) cssl bytes ck1 = (Inr (), ck2) \<Longrightarrow>
      csent cssl ck2 = csent cssl ck1 @ incoming ssl k1"
    and "\<And>bytes ck2 trace st'. encode_request_frame r = Inr bytes \<Longrightarrow>
      write_all (pf_ssl cpf) cssl bytes ck1 = (Inr (), ck2) \<Longrightarrow>
      serve_session pf (responder_server (jsonl_event_log_store events) argv) (Some print_observer) ssl (t, st)
        = (Inr (), trace, st') \<Longrightarrow>
      sent ssl (st_env st') = sent ssl k1 @ cincoming cssl ck2"
    and "w = world_of (the_service events argv) events (session_now pf (snd (read_one_message (pf_ssl pf) ssl k1)))"
  shows "\<exists>bytes trace st' frame resp ck'. encode_request_frame r = Inr bytes \<and>
    serve_session pf (responder_server (jsonl_event_log_store events) argv) (Some print_observer) ssl (t, st)
      = (Inr (), trace, st') \<and>
    sent ssl (st_env st') = sent ssl k1 @ frame \<and> decode_response_frame frame = Inr resp \<and>
    replies w (any_map (st_keys st)) bytes resp (any_map (st_keys st')) \<and>
    (answer_bound n (length events) c < 2 ^ 24 \<longrightarrow>
       serves w (any_map (st_keys st)) r bytes resp (any_map (st_keys st')) \<and>
       length frame \<le> 20 + answer_bound n (length events) c) \<and>
    client_session cpf cssl r ck =
      (if length frame \<le> 4096 then Inr \<lparr>cx_response = resp, cx_thumbprint = peer_thumbprint cpeer\<rparr>
       else Inl (AsmError ''KLV value length mismatch''), ck') \<and>
    ((\<exists>text. response_text \<lparr>cx_response = resp, cx_thumbprint = peer_thumbprint cpeer\<rparr> = Inr text) \<longleftrightarrow>
       \<not> (resp_command resp = get_event_list \<and> resp_code resp = invalid))"
proof -
  have c: "c \<noteq> bad_request" using assms(1) by (simp add: parse_command_Inr_iff)
  obtain bytes where b: "encode_request_frame r = Inr bytes" "bytes \<noteq> []" "length bytes \<le> 4096"
    using request_frame_short [OF assms(2) c] by blast
  obtain ck2 where w: "write_all (pf_ssl cpf) cssl bytes ck1 = (Inr (), ck2)" "csent cssl ck2 = csent cssl ck1 @ bytes"
    using write_all_succeeds [OF connection_okD(1,2) [OF assms(10)]] by blast
  have inc: "incoming ssl k1 = bytes" using assms(13) [OF b(1) w(1)] w(2) by simp
  then obtain k2 where r: "read_one_message (pf_ssl pf) ssl k1 = (Inr bytes, k2)"
    using read_one_message_whole [OF connection_okD(3) [OF assms(6)] assms(7), of ssl k1] b(2,3) by auto
  have world: "w = world_of (the_service events argv) events (session_now pf k2)" using assms(15) r by simp
  obtain trace st' frame resp where
    a: "serve_session pf (responder_server (jsonl_event_log_store events) argv) (Some print_observer) ssl (t, st)
        = (Inr (), trace, st')" "sent ssl (st_env st') = sent ssl k1 @ frame"
      "decode_response_frame frame = Inr resp"
      "replies w (any_map (st_keys st)) bytes resp (any_map (st_keys st'))"
    using responder_jsonl_service.serve_session_replies [where f = print_observer and events = events
        and argv = argv and t = t, OF assms(3,6,8,9) r print_observer_silent, folded world] by blast
  have ev: "w_events w = events" by (simp add: world)
  have cap: "card (dom (any_map (st_keys st))) \<le> kCapacity" by (rule any_keys.capacity [OF assms(3)])
  have served: "serves w (any_map (st_keys st)) r bytes resp (any_map (st_keys st')) \<and>
      length frame \<le> 20 + answer_bound n (length events) c" if "answer_bound n (length events) c < 2 ^ 24"
  proof -
    have sv: "serves w (any_map (st_keys st)) r bytes resp (any_map (st_keys st'))"
      using replies_to_initiator [OF assms(2) c b(1) cap _ _ a(4)] assms(4) that by (simp add: ev)
    then show ?thesis
      using decode_response_frame_length [OF a(3)] served_size [OF sv _ _ cap, of n]
        build_request_shape [OF assms(2)] c assms(4) by (simp add: ev)
  qed
  have "cincoming cssl ck = frame" if "write_all (pf_ssl cpf) cssl bytes ck1 = (Inr (), ck)" for ck
    using assms(14) [OF b(1) that a(1)] a(2) by simp
  from client_session_connected [OF assms(12,10,11) b(1) this a(3)] obtain ck' where "client_session cpf cssl r ck =
      (if length frame \<le> 4096 then Inr \<lparr>cx_response = resp, cx_thumbprint = peer_thumbprint cpeer\<rparr>
       else Inl (AsmError ''KLV value length mismatch''), ck')" by blast
  moreover have "(\<exists>text. response_text \<lparr>cx_response = resp, cx_thumbprint = peer_thumbprint cpeer\<rparr> = Inr text) \<longleftrightarrow>
      \<not> (resp_command resp = get_event_list \<and> resp_code resp = invalid)"
    using reply_printed [OF assms(2) b(1) _ cap a(4)] assms(5) by (simp add: ev)
  ultimately show ?thesis using b(1) a served by blast
qed

theorem initiator_is_answered_witness:
  "\<exists>bytes frame trace st' resp ck' line.
    encode_request_frame \<lparr>req_command = get_time, req_id = 1, req_payload = []\<rparr> = Inr bytes \<and>
    serve_session pipe_platform (responder_server (jsonl_event_log_store []) []) (Some print_observer) 0
      (session_trace_default, pipe_state bytes) = (Inr (), trace, st') \<and>
    resp_command resp = get_time \<and>
    client_session pipe_platform 0 \<lparr>req_command = get_time, req_id = 1, req_payload = []\<rparr> (frame, [])
      = (Inr \<lparr>cx_response = resp, cx_thumbprint = ''abcd''\<rparr>, ck') \<and>
    response_text \<lparr>cx_response = resp, cx_thumbprint = ''abcd''\<rparr> = Inr line"
proof -
  let ?r = "\<lparr>req_command = get_time, req_id = 1, req_payload = []\<rparr>"
  let ?srv = "responder_server (jsonl_event_log_store []) []"
  let ?peer = "\<lparr>peer_subject = [], peer_issuer = [], peer_thumbprint = ''abcd''\<rparr>"
  have p: "parse_command ''get-time'' = Inr get_time" "build_request get_time [] = Inr ?r"
    "any_ok (st_keys (pipe_state bs))" "xml_bound 0 []" "length ([] :: event_record list) < 2 ^ 32" for bs
    by (simp_all add: parse_command_def build_request_def request_payload_def memory_ok_def xml_bound_def)
  obtain bytes where b: "encode_request_frame ?r = Inr bytes" "bytes \<noteq> []" "length bytes \<le> 4096"
    using request_frame_short [OF p(2)] by auto
  obtain k2 where r: "read_one_message pipe_ssl 0 (bytes, []) = (Inr bytes, k2)"
    using read_one_message_whole [OF pipe_reads pipe_reads_available, of 0 "(bytes, [])"] b(2,3)
    by (auto simp: pipe_incoming_def)
  have env: "st_env (pipe_state bytes) = (bytes, [])" by simp
  obtain trace st' frame where s: "serve_session pipe_platform ?srv (Some print_observer) 0
      (session_trace_default, pipe_state bytes) = (Inr (), trace, st')" "pipe_sent 0 (st_env st') = frame"
    using responder_jsonl_service.serve_session_replies [where st = "pipe_state bytes" and pf = pipe_platform
        and f = print_observer and events = "[]" and argv = "[]" and t = session_trace_default, OF p(3) _
        pipe_clock_silent pipe_accepted, unfolded pipe_platform_simps env, OF pipe_connection r print_observer_silent]
    by auto
  have to_server: "pipe_sent 0 k = pipe_sent 0 (frame, []) @ pipe_incoming 0 (bytes, [])"
    if "encode_request_frame ?r = Inr bs" "write_all pipe_ssl 0 bs (frame, []) = (Inr (), k)" for bs k
    using that b(1) by (auto simp: pipe_write_all pipe_sent_def pipe_incoming_def)
  have to_client: "pipe_sent 0 (st_env st'') = pipe_sent 0 (bytes, []) @ pipe_incoming 0 k"
    if "encode_request_frame ?r = Inr bs" "write_all pipe_ssl 0 bs (frame, []) = (Inr (), k)"
      "serve_session pipe_platform ?srv (Some print_observer) 0 (session_trace_default, pipe_state bytes)
        = (Inr (), tr, st'')" for bs k tr st''
    using that s by (auto simp: pipe_write_all pipe_sent_def pipe_incoming_def)
  let ?w = "world_of (the_service [] []) [] (session_now pipe_platform (snd (read_one_message pipe_ssl 0 (bytes, []))))"
  have "\<exists>bytes' trace' st'' fr resp ck'. encode_request_frame ?r = Inr bytes' \<and>
    serve_session pipe_platform ?srv (Some print_observer) 0 (session_trace_default, pipe_state bytes) = (Inr (), trace', st'') \<and>
    pipe_sent 0 (st_env st'') = pipe_sent 0 (bytes, []) @ fr \<and> decode_response_frame fr = Inr resp \<and>
    replies ?w (any_map (st_keys (pipe_state bytes))) bytes' resp (any_map (st_keys st'')) \<and>
    (answer_bound 0 (length ([] :: event_record list)) get_time < 2 ^ 24 \<longrightarrow>
      serves ?w (any_map (st_keys (pipe_state bytes))) ?r bytes' resp (any_map (st_keys st'')) \<and>
      length fr \<le> 20 + answer_bound 0 (length ([] :: event_record list)) get_time) \<and>
    client_session pipe_platform 0 ?r (frame, []) = (if length fr \<le> 4096
      then Inr \<lparr>cx_response = resp, cx_thumbprint = peer_thumbprint ?peer\<rparr>
      else Inl (AsmError ''KLV value length mismatch''), ck') \<and>
    ((\<exists>text. response_text \<lparr>cx_response = resp, cx_thumbprint = peer_thumbprint ?peer\<rparr> = Inr text) \<longleftrightarrow>
       \<not> (resp_command resp = get_event_list \<and> resp_code resp = invalid))"
    by (rule initiator_is_answered [where pf = pipe_platform and cpf = pipe_platform and argv = "[]" and events = "[]"
          and st = "pipe_state bytes" and ck = "(frame, [])" and ssl = 0 and cssl = 0 and t = session_trace_default,
          OF p(1-5) _ _ pipe_clock_silent pipe_accepted _ _ pipe_connected, unfolded pipe_platform_simps env,
          OF pipe_connection pipe_reads_available pipe_connection pipe_reads_available _ _ refl])
      (rule to_server to_client; assumption)+
  then show ?thesis
  proof (elim exE conjE)
    fix bytes' trace' st'' fr resp ck'
    let ?res = "\<lparr>cx_response = resp, cx_thumbprint = peer_thumbprint ?peer\<rparr>"
    assume e: "encode_request_frame ?r = Inr bytes'"
      and "serve_session pipe_platform ?srv (Some print_observer) 0 (session_trace_default, pipe_state bytes)
        = (Inr (), trace', st'')"
      and x: "answer_bound 0 (length ([] :: event_record list)) get_time < 2 ^ 24 \<longrightarrow>
        serves ?w (any_map (st_keys (pipe_state bytes))) ?r bytes' resp (any_map (st_keys st'')) \<and>
        length fr \<le> 20 + answer_bound 0 (length ([] :: event_record list)) get_time"
      and c: "client_session pipe_platform 0 ?r (frame, []) =
        (if length fr \<le> 4096 then Inr ?res else Inl (AsmError ''KLV value length mismatch''), ck')"
      and t: "(\<exists>text. response_text ?res = Inr text) \<longleftrightarrow>
        \<not> (resp_command resp = get_event_list \<and> resp_code resp = invalid)"
    have sv: "serves ?w (any_map (st_keys (pipe_state bytes))) ?r bytes' resp (any_map (st_keys st''))"
      and len: "length fr \<le> 4096"
      using x by (simp_all add: answer_bound_def)
    have "resp_command resp = get_time" using served_command [OF sv] by simp
    with t obtain line where "response_text ?res = Inr line" by auto
    with b(1) s(1) c len \<open>resp_command resp = get_time\<close> show ?thesis
      by (intro exI [of _ bytes] exI [of _ frame] exI [of _ trace] exI [of _ st'] exI [of _ resp] exI [of _ ck'])
        simp
  qed
qed

section \<open>Protocol vectors\<close>

text \<open>The five frames documented in \<^verbatim>\<open>docs/protocol-vectors.md\<close> are what the encoders
produce for the messages they are documented for.\<close>

definition vector_key :: le_key_record where
  "vector_key = \<lparr>key_id = 4001,
     key_bytes = array16_of [0x00, 0x11, 0x22, 0x33, 0x44, 0x55, 0x66, 0x77, 0x88, 0x99, 0xaa, 0xbb, 0xcc, 0xdd, 0xee, 0xff],
     expire_time = 3600, attribute_data = 123456789\<rparr>"

definition vector_time_request :: byte_buffer where
  "vector_time_request = [0x06, 0x0e, 0x2b, 0x34, 0x02, 0x05, 0x01, 0x01, 0x02, 0x07, 0x01, 0x02, 0x10, 0x00,
     0x00, 0x00, 0x83, 0x00, 0x00, 0x04, 0x00, 0x00, 0x00, 0x01]"

lemma documented_vectors:
  "mapE to_hex (encode_request_frame \<lparr>req_command = get_time, req_id = 1, req_payload = []\<rparr>) =
     Inr ''060e2b340205010102070102100000008300000400000001'' \<and>
   mapE to_hex (encode_response_frame \<lparr>resp_command = get_event_list, resp_id = Some 2,
       resp_payload = event_list_encode_response \<lparr>listed_event_ids = [1001, 1002, 1003]\<rparr>, resp_code = successful\<rparr>) =
     Inr ''060e2b3402050101020701021300000083000019000000020000000300000004000003e9000003ea000003eb00'' \<and>
   mapE to_hex (encode_request_frame \<lparr>req_command = le_key_load, req_id = 3,
       req_payload = encode_load_request \<lparr>load_request_keys = [vector_key]\<rparr>\<rparr>) =
     Inr ''060e2b340205010102070103200000008300002c00000003000000010000002000000fa100112233445566778899aabbccddeeff00000e1000000000075bcd15'' \<and>
   mapE to_hex (encode_response_frame \<lparr>resp_command = query_spb, resp_id = Some 4,
       resp_payload = query_spb_encode_response \<lparr>protocol_version = 1, spb_status = not_playing\<rparr>,
       resp_code = successful\<rparr>) =
     Inr ''060e2b340205010102070102170000008300000700000004010000'' \<and>
   mapE to_hex (encode_response_frame (rejected vector_time_request)) =
     Inr ''060e2b3402050101020701010100000083000019060e2b34020501010207010210000000830000040000000102''"
  by (intro conjI; code_simp)

end
